(* ===== verification/Prelude.thy ===== *)
theory Prelude
  imports Main "HOL-Library.Word" "HOL-Library.AList" "HOL-Library.Multiset"
begin

text \<open>
  The shared layer of the development: Go programs as state-passing functions, Go errors as
  values, and the generic lemmas the components use.

  A Go function with effects is a \<open>prog\<close>: it takes the state and returns an outcome and the
  new state. The outcome is a value, a panic (a nil pointer was dereferenced; the state is the one
  in which the panic happened) or \<open>OutOfFuel\<close>, which only the one unbounded loop of the program
  (\<open>utils.PagingHelper\<close>) produces. A Go result \<open>(T, error)\<close> is a value of type
  \<open>goerr + T\<close>, a result \<open>error\<close> one of type \<open>goerr + unit\<close>.

  Reasoning about effects goes through transition invariants: \<open>keeps R m\<close> says that every
  run of \<open>m\<close>, whatever its outcome, moves the state along the preorder \<open>R\<close>. The locale
  \<open>transition_inv\<close> proves once that sequencing, error handling and loops keep \<open>R\<close>; the
  components interpret it on the preorders they need.
\<close>

section \<open>Programs\<close>

datatype 'a outcome = Val 'a | Panic | OutOfFuel

type_synonym ('s, 'a) prog = "'s \<Rightarrow> 'a outcome \<times> 's"

definition ret :: "'a \<Rightarrow> ('s, 'a) prog" where
  "ret x = (\<lambda>s. (Val x, s))"

definition panic :: "('s, 'a) prog" where
  "panic = (\<lambda>s. (Panic, s))"

definition out_of_fuel :: "('s, 'a) prog" where
  "out_of_fuel = (\<lambda>s. (OutOfFuel, s))"

definition bnd :: "('s, 'a) prog \<Rightarrow> ('a \<Rightarrow> ('s, 'b) prog) \<Rightarrow> ('s, 'b) prog" where
  "bnd m f = (\<lambda>s. case m s of
      (Val x, t) \<Rightarrow> f x t
    | (Panic, t) \<Rightarrow> (Panic, t)
    | (OutOfFuel, t) \<Rightarrow> (OutOfFuel, t))"

definition gets :: "('s \<Rightarrow> 'a) \<Rightarrow> ('s, 'a) prog" where
  "gets g = (\<lambda>s. (Val (g s), s))"

definition modify :: "('s \<Rightarrow> 's) \<Rightarrow> ('s, unit) prog" where
  "modify g = (\<lambda>s. (Val (), g s))"

text \<open>Reading through a pointer: a nil pointer panics.\<close>

definition deref :: "'a option \<Rightarrow> ('s, 'a) prog" where
  "deref p = (case p of Some x \<Rightarrow> ret x | None \<Rightarrow> panic)"

section \<open>Errors\<close>

datatype machine_reason = InvalidConfiguration | CreateMachineError

text \<open>
  \<open>WrapError\<close> is \<open>fmt.Errorf\<close> with the verb \<open>%w\<close> (or \<open>errors.Wrapf\<close>), which keeps the
  wrapped error; \<open>PlainError\<close> is \<open>fmt.Errorf\<close> without it (or \<open>errors.New\<close>), which keeps
  the text only. \<open>APIError\<close> is an error of the API server or of a cloud SDK; its flag is what
  \<open>apierrors.IsNotFound\<close> answers.
\<close>

datatype goerr =
    ErrorInstanceNotFound
  | MachineError machine_reason string
  | RequeueAfterError nat
  | PlainError string
  | WrapError string goerr
  | APIError bool string

type_synonym ('s, 'a) errprog = "('s, goerr + 'a) prog"

fun errors_As_RequeueAfter :: "goerr \<Rightarrow> nat option" where
  "errors_As_RequeueAfter (RequeueAfterError n) = Some n"
| "errors_As_RequeueAfter (WrapError m e) = errors_As_RequeueAfter e"
| "errors_As_RequeueAfter _ = None"

fun errors_As_MachineError :: "goerr \<Rightarrow> machine_reason option" where
  "errors_As_MachineError (MachineError r m) = Some r"
| "errors_As_MachineError (WrapError m e) = errors_As_MachineError e"
| "errors_As_MachineError _ = None"

definition IsNotFound :: "goerr \<Rightarrow> bool" where
  "IsNotFound e = (case e of APIError b m \<Rightarrow> b | _ \<Rightarrow> False)"

definition fail :: "goerr \<Rightarrow> ('s, 'a) errprog" where
  "fail e = ret (Inl e)"

definition ok :: "'a \<Rightarrow> ('s, 'a) errprog" where
  "ok x = ret (Inr x)"

text \<open>\<open>x, err := m; if err != nil { return err }; f(x)\<close>\<close>

definition bndE :: "('s, 'a) errprog \<Rightarrow> ('a \<Rightarrow> ('s, 'b) errprog) \<Rightarrow> ('s, 'b) errprog" where
  "bndE m f = bnd m (\<lambda>r. case r of Inl e \<Rightarrow> fail e | Inr x \<Rightarrow> f x)"

text \<open>\<open>if err != nil { return g(err) }\<close>, where building the error may itself have an effect.\<close>

definition onErr :: "('s, 'a) errprog \<Rightarrow> (goerr \<Rightarrow> ('s, 'a) errprog) \<Rightarrow> ('s, 'a) errprog" where
  "onErr m h = bnd m (\<lambda>r. case r of Inl e \<Rightarrow> h e | Inr x \<Rightarrow> ok x)"

definition mapErr :: "(goerr \<Rightarrow> goerr) \<Rightarrow> ('s, 'a) errprog \<Rightarrow> ('s, 'a) errprog" where
  "mapErr g m = onErr m (\<lambda>e. fail (g e))"

text \<open>\<open>for _, x := range xs { body }\<close> where the body may return an error.\<close>

fun forE :: "('a \<Rightarrow> ('s, unit) errprog) \<Rightarrow> 'a list \<Rightarrow> ('s, unit) errprog" where
  "forE f [] = ok ()"
| "forE f (x # xs) = bndE (f x) (\<lambda>_. forE f xs)"

text \<open>
  A search loop \<open>for _, x := range xs { if p(x) { return x } }\<close>, where the test reads through
  pointers and may panic.
\<close>

fun findP :: "('a \<Rightarrow> ('s, bool) prog) \<Rightarrow> 'a list \<Rightarrow> ('s, 'a option) prog" where
  "findP p [] = ret None"
| "findP p (x # xs) = bnd (p x) (\<lambda>b. if b then ret (Some x) else findP p xs)"

text \<open>\<open>for _, x := range xs { acc = f(x, acc) }\<close>.\<close>

fun foldP :: "('a \<Rightarrow> 'b \<Rightarrow> ('s, 'b) prog) \<Rightarrow> 'a list \<Rightarrow> 'b \<Rightarrow> ('s, 'b) prog" where
  "foldP f [] a = ret a"
| "foldP f (x # xs) a = bnd (f x a) (foldP f xs)"

section \<open>Evaluation rules\<close>

named_theorems prog_simps \<open>one-step evaluation of the program combinators\<close>

lemma ret_run [prog_simps]: "ret x s = (Val x, s)"
  by (simp add: ret_def)

lemma ok_run [prog_simps]: "ok x s = (Val (Inr x), s)"
  by (simp add: ok_def ret_def)

lemma fail_run [prog_simps]: "fail e s = (Val (Inl e), s)"
  by (simp add: fail_def ret_def)

lemma panic_run [prog_simps]: "panic s = (Panic, s)"
  by (simp add: panic_def)

lemma out_of_fuel_run [prog_simps]: "out_of_fuel s = (OutOfFuel, s)"
  by (simp add: out_of_fuel_def)

lemma gets_run [prog_simps]: "gets g s = (Val (g s), s)"
  by (simp add: gets_def)

lemma modify_run [prog_simps]: "modify g s = (Val (), g s)"
  by (simp add: modify_def)

lemma deref_run [prog_simps]:
  "deref p s = (case p of Some x \<Rightarrow> (Val x, s) | None \<Rightarrow> (Panic, s))"
  by (simp add: deref_def ret_def panic_def split: option.split)

lemma bnd_run [prog_simps]:
  "bnd m f s = (case m s of (Val x, t) \<Rightarrow> f x t | (Panic, t) \<Rightarrow> (Panic, t)
     | (OutOfFuel, t) \<Rightarrow> (OutOfFuel, t))"
  by (simp add: bnd_def)

lemma bndE_run [prog_simps]:
  "bndE m f s = (case m s of (Val (Inr x), t) \<Rightarrow> f x t | (Val (Inl e), t) \<Rightarrow> (Val (Inl e), t)
     | (Panic, t) \<Rightarrow> (Panic, t) | (OutOfFuel, t) \<Rightarrow> (OutOfFuel, t))"
  by (simp add: bndE_def bnd_def fail_def ret_def split: prod.split outcome.split sum.split)

lemma onErr_run [prog_simps]:
  "onErr m h s = (case m s of (Val (Inr x), t) \<Rightarrow> (Val (Inr x), t) | (Val (Inl e), t) \<Rightarrow> h e t
     | (Panic, t) \<Rightarrow> (Panic, t) | (OutOfFuel, t) \<Rightarrow> (OutOfFuel, t))"
  by (simp add: onErr_def bnd_def ok_def ret_def split: prod.split outcome.split sum.split)

lemma mapErr_run [prog_simps]:
  "mapErr g m s = (case m s of (Val (Inr x), t) \<Rightarrow> (Val (Inr x), t)
     | (Val (Inl e), t) \<Rightarrow> (Val (Inl (g e)), t)
     | (Panic, t) \<Rightarrow> (Panic, t) | (OutOfFuel, t) \<Rightarrow> (OutOfFuel, t))"
  by (simp add: mapErr_def onErr_run fail_run split: prod.split outcome.split sum.split)

lemmas run_splits = prod.splits outcome.splits sum.splits option.splits if_splits

text \<open>Inversion: how a sequence can have returned a value.\<close>

lemma bnd_ValE:
  assumes "bnd m f s = (Val y, t)"
  obtains x u where "m s = (Val x, u)" "f x u = (Val y, t)"
  using assms by (auto simp: bnd_run split: run_splits)

lemma bndE_okE:
  assumes "bndE m f s = (Val (Inr y), t)"
  obtains x u where "m s = (Val (Inr x), u)" "f x u = (Val (Inr y), t)"
  using assms by (auto simp: bndE_run split: run_splits)

lemma mapErr_ok_iff [simp]: "mapErr g m s = (Val (Inr x), t) \<longleftrightarrow> m s = (Val (Inr x), t)"
  by (auto simp: mapErr_run split: run_splits)

lemma deref_Val_iff [simp]: "deref p s = (Val x, t) \<longleftrightarrow> p = Some x \<and> t = s"
  by (auto simp: deref_run split: option.splits)

lemma bnd_assoc: "bnd (bnd m f) g = bnd m (\<lambda>x. bnd (f x) g)"
  by (rule ext) (simp add: bnd_run split: prod.split outcome.split)

lemma ret_bnd [simp]: "bnd (ret x) f = f x"
  by (rule ext) (simp add: bnd_run ret_run)

lemma bnd_ret [simp]: "bnd m ret = m"
  by (rule ext) (simp add: bnd_run ret_run split: prod.split outcome.split)

lemma deref_bnd: "bnd (deref (Some x)) f = f x" "bnd (deref None) f = panic"
  by (rule ext, simp add: bnd_run deref_run panic_run)+

lemma ok_bndE [simp]: "bndE (ok x) f = f x"
  by (rule ext) (simp add: bndE_run ok_run)

lemma fail_bndE [simp]: "bndE (fail e) f = fail e"
  by (rule ext) (simp add: bndE_run fail_run)

lemma forE_append: "forE f (xs @ ys) = bndE (forE f xs) (\<lambda>_. forE f ys)"
proof (induction xs)
  case Nil
  then show ?case by simp
next
  case (Cons x xs)
  then show ?case
    by (auto intro!: ext simp: bndE_run split: prod.split outcome.split sum.split)
qed

text \<open>A property of states that every iteration keeps is kept by the loop.\<close>

lemma forE_inv:
  assumes "\<And>x u r v. x \<in> set xs \<Longrightarrow> I u \<Longrightarrow> f x u = (r, v) \<Longrightarrow> I v" and "I s" and "forE f xs s = (r, t)"
  shows "I t"
  using assms
proof (induction xs arbitrary: s)
  case Nil
  then show ?case by (simp add: prog_simps)
next
  case (Cons x xs)
  obtain o1 u where fx: "f x s = (o1, u)" by (cases "f x s")
  then have u: "I u" using Cons.prems by auto
  have rest: "forE f xs u = (r, t) \<Longrightarrow> I t"
    using Cons.IH [OF _ u] Cons.prems(1) by (meson list.set_intros(2))
  from Cons.prems(3) fx u show ?case by (auto simp: prog_simps dest: rest split: run_splits)
qed

text \<open>
  A search loop whose test neither changes the state nor panics is \<open>List.find\<close>.
\<close>

lemma findP_pure:
  assumes "\<And>x. x \<in> set xs \<Longrightarrow> p x s = (Val (q x), s)"
  shows "findP p xs s = (Val (List.find q xs), s)"
  using assms by (induction xs) (auto simp: prog_simps)

section \<open>Transition invariants\<close>

definition keeps :: "('s \<Rightarrow> 's \<Rightarrow> bool) \<Rightarrow> ('s, 'a) prog \<Rightarrow> bool" where
  "keeps R m \<longleftrightarrow> (\<forall>s. R s (snd (m s)))"

lemma keepsI: "(\<And>s r t. m s = (r, t) \<Longrightarrow> R s t) \<Longrightarrow> keeps R m"
  by (metis keeps_def surjective_pairing)

lemma keepsD: "keeps R m \<Longrightarrow> m s = (r, t) \<Longrightarrow> R s t"
  by (metis keeps_def snd_conv)

named_theorems keeps_intros \<open>the program combinators keep a transition invariant\<close>

locale transition_inv =
  fixes R :: "'s \<Rightarrow> 's \<Rightarrow> bool"
  assumes R_refl: "R s s"
    and R_trans: "R s t \<Longrightarrow> R t u \<Longrightarrow> R s u"
begin

lemma keeps_ret [keeps_intros]: "keeps R (ret x)"
  by (simp add: keeps_def ret_run R_refl)

lemma keeps_ok [keeps_intros]: "keeps R (ok x)"
  by (simp add: keeps_def ok_run R_refl)

lemma keeps_fail [keeps_intros]: "keeps R (fail e)"
  by (simp add: keeps_def fail_run R_refl)

lemma keeps_panic [keeps_intros]: "keeps R panic"
  by (simp add: keeps_def panic_run R_refl)

lemma keeps_out_of_fuel [keeps_intros]: "keeps R out_of_fuel"
  by (simp add: keeps_def out_of_fuel_run R_refl)

lemma keeps_gets [keeps_intros]: "keeps R (gets g)"
  by (simp add: keeps_def gets_run R_refl)

lemma keeps_deref [keeps_intros]: "keeps R (deref p)"
  by (simp add: keeps_def deref_run R_refl split: option.split)

lemma keeps_bnd [keeps_intros]:
  assumes "keeps R m" and "\<And>x. keeps R (f x)"
  shows "keeps R (bnd m f)"
proof (rule keepsI)
  fix s r t
  assume run: "bnd m f s = (r, t)"
  obtain o1 u where m: "m s = (o1, u)" by (cases "m s")
  have "R s u" using keepsD [OF assms(1) m] .
  moreover have "R u t"
    using run m assms(2) by (cases o1) (auto simp: bnd_run R_refl dest: keepsD)
  ultimately show "R s t" by (rule R_trans)
qed

lemma keeps_bndE [keeps_intros]:
  "keeps R m \<Longrightarrow> (\<And>x. keeps R (f x)) \<Longrightarrow> keeps R (bndE m f)"
  unfolding bndE_def by (intro keeps_bnd) (auto split: sum.split intro: keeps_fail)

lemma keeps_onErr [keeps_intros]:
  "keeps R m \<Longrightarrow> (\<And>e. keeps R (h e)) \<Longrightarrow> keeps R (onErr m h)"
  unfolding onErr_def by (intro keeps_bnd) (auto split: sum.split intro: keeps_ok)

lemma keeps_mapErr [keeps_intros]: "keeps R m \<Longrightarrow> keeps R (mapErr g m)"
  unfolding mapErr_def by (intro keeps_onErr keeps_fail)

lemma keeps_forE [keeps_intros]: "(\<And>x. keeps R (f x)) \<Longrightarrow> keeps R (forE f xs)"
  by (induction xs) (auto intro: keeps_ok keeps_bndE)

lemma forE_elem:
  assumes "\<And>x. keeps R (f x)" and "forE f xs s = (Val (Inr ()), t)" and "x \<in> set xs"
  shows "\<exists>u v. R s u \<and> f x u = (Val (Inr ()), v) \<and> R v t"
  using assms(2,3)
proof (induction xs arbitrary: s)
  case (Cons y ys)
  from Cons.prems(1) obtain w where w: "f y s = (Val (Inr ()), w)" "forE f ys w = (Val (Inr ()), t)"
    by (auto elim: bndE_okE)
  have "R s w" using keepsD [OF assms(1) w(1)] .
  moreover have "R w t" using keepsD [OF keeps_forE [OF assms(1)] w(2)] .
  moreover have "x \<in> set ys \<Longrightarrow> \<exists>u v. R w u \<and> f x u = (Val (Inr ()), v) \<and> R v t"
    using Cons.IH [OF w(2)] .
  ultimately show ?case using Cons.prems(2) w(1) by (auto intro: R_refl R_trans)
qed simp

lemma keeps_findP [keeps_intros]: "(\<And>x. keeps R (p x)) \<Longrightarrow> keeps R (findP p xs)"
  by (induction xs) (auto intro!: keeps_ret keeps_bnd)

lemma keeps_foldP [keeps_intros]:
  "(\<And>x a. keeps R (f x a)) \<Longrightarrow> keeps R (foldP f xs a)"
  by (induction xs arbitrary: a) (auto intro!: keeps_ret keeps_bnd)

lemma keeps_if [keeps_intros]: "keeps R m \<Longrightarrow> keeps R n \<Longrightarrow> keeps R (if b then m else n)"
  by simp

lemma keeps_case_option [keeps_intros]:
  "keeps R m \<Longrightarrow> (\<And>x. keeps R (f x)) \<Longrightarrow> keeps R (case p of None \<Rightarrow> m | Some x \<Rightarrow> f x)"
  by (cases p) simp_all

lemma keeps_case_sum [keeps_intros]:
  "(\<And>e. keeps R (f e)) \<Longrightarrow> (\<And>x. keeps R (g x)) \<Longrightarrow>
   keeps R (case r of Inl e \<Rightarrow> f e | Inr x \<Rightarrow> g x)"
  by (cases r) simp_all

lemma keeps_case_list [keeps_intros]:
  "keeps R m \<Longrightarrow> (\<And>x xs. keeps R (f x xs)) \<Longrightarrow> keeps R (case l of [] \<Rightarrow> m | x # xs \<Rightarrow> f x xs)"
  by (cases l) simp_all

lemma keeps_case_prod [keeps_intros]:
  "(\<And>a b. keeps R (f a b)) \<Longrightarrow> keeps R (case p of (a, b) \<Rightarrow> f a b)"
  by (cases p) simp

lemma keeps_let [keeps_intros]: "keeps R (f x) \<Longrightarrow> keeps R (let y = x in f y)"
  by simp

end

text \<open>Programs that only read.\<close>

definition unchanged :: "'s \<Rightarrow> 's \<Rightarrow> bool" where
  "unchanged s t \<longleftrightarrow> t = s"

interpretation reading: transition_inv unchanged
  by unfold_locales (simp_all add: unchanged_def)

lemma reading_run: "keeps unchanged m \<Longrightarrow> m s = (r, t) \<Longrightarrow> t = s"
  by (drule keepsD) (auto simp: unchanged_def)

lemma find_SomeD: "List.find P xs = Some x \<Longrightarrow> x \<in> set xs \<and> P x"
  by (induction xs) (auto split: if_splits)

lemma findP_found:
  assumes "findP p xs s = (Val (Some x), t)" and "\<And>y. keeps unchanged (p y)"
  shows "t = s \<and> x \<in> set xs \<and> p x s = (Val True, s)"
  using assms(1)
proof (induction xs)
  case Nil
  then show ?case by (simp add: ret_run)
next
  case (Cons y ys)
  then obtain b u where y: "p y s = (Val b, u)" and "(if b then ret (Some y) else findP p ys) u = (Val (Some x), t)"
    by (auto elim: bnd_ValE)
  moreover have "u = s" using assms(2) y by (rule reading_run)
  ultimately show ?case using Cons.IH by (cases b) (auto simp: ret_run)
qed

lemma findP_deref_found:
  "findP (\<lambda>y. bnd (deref (field y)) (\<lambda>v. ret (v = k))) xs s = (Val (Some x), t) \<Longrightarrow>
   t = s \<and> x \<in> set xs \<and> field x = Some k"
  by (drule findP_found, intro keeps_intros) (auto simp: bnd_run deref_run ret_run split: option.splits)

text \<open>Where a list is split at an element that its end does not have.\<close>

lemma split_within:
  assumes "xs @ ys = h @ c # rest" and "c \<notin> set ys"
  shows "\<exists>rest'. xs = h @ c # rest'"
  using assms by (auto simp: append_eq_append_conv2 append_eq_Cons_conv)

section \<open>Go maps with an iteration order\<close>

text \<open>
  A Go map that the code ranges over is an association list with distinct keys. The order of
  \<open>range\<close> is not specified by the language: the runtime is a parameter that ranks the keys, and
  every order of the keys is the order of some ranking.
\<close>

definition range_order :: "(string \<Rightarrow> nat) \<Rightarrow> (string \<times> 'v) list \<Rightarrow> (string \<times> 'v) list" where
  "range_order rank m = sort_key (\<lambda>kv. rank (fst kv)) m"

lemma set_range_order [simp]: "set (range_order rank m) = set m"
  by (simp add: range_order_def)

lemma length_range_order [simp]: "length (range_order rank m) = length m"
  by (simp add: range_order_def)

lemma mset_range_order [simp]: "mset (range_order rank m) = mset m"
  by (simp add: range_order_def)

lemma range_order_any:
  assumes "distinct (map fst xs)" and "mset xs = mset m"
  shows "\<exists>rank. range_order rank m = xs"
proof -
  let ?rank = "\<lambda>k. length (takeWhile (\<lambda>x. x \<noteq> k) (map fst xs))"
  have rank_nth: "?rank (fst (xs ! i)) = i" if "i < length xs" for i
  proof -
    have "map fst xs ! j \<noteq> map fst xs ! i" if "j < i" for j
      using assms(1) that \<open>i < length xs\<close> by (simp add: distinct_conv_nth)
    then have "takeWhile (\<lambda>x. x \<noteq> map fst xs ! i) (map fst xs) = take i (map fst xs)"
      using that by (intro takeWhile_eq_take_P_nth) auto
    then show ?thesis using that by simp
  qed
  have "map (\<lambda>kv. ?rank (fst kv)) xs = [0..<length xs]"
    by (rule nth_equalityI) (auto simp: rank_nth)
  then have sorted: "sorted (map (\<lambda>kv. ?rank (fst kv)) xs)" by simp
  have "inj_on (\<lambda>kv. ?rank (fst kv)) (set xs)"
    by (rule inj_onI) (metis in_set_conv_nth rank_nth)
  then have inj: "inj_on (\<lambda>kv. ?rank (fst kv)) (set m)"
    using assms(2) mset_eq_setD by metis
  have "sort_key (\<lambda>kv. ?rank (fst kv)) m = xs"
    using assms(2) [symmetric] inj sorted by (rule sort_key_inj_key_eq)
  then show ?thesis by (auto simp: range_order_def)
qed

end
