(* ===== verification/Go_Strings.thy ===== *)
theory Go_Strings
  imports Prelude
begin

text \<open>
  What the program uses of Go's packages \<open>strings\<close>, \<open>strconv\<close>, \<open>fmt\<close>,
  \<open>encoding/base64\<close> and \<open>time\<close> on strings. A Go string and a byte slice are lists of
  8-bit characters. \<open>ToLower\<close>, \<open>TrimSpace\<close> and \<open>Quote\<close> are modelled on ASCII; they copy
  bytes above 127 unchanged.
\<close>

section \<open>Package strings\<close>

definition HasPrefix :: "string \<Rightarrow> string \<Rightarrow> bool" where
  "HasPrefix s p \<longleftrightarrow> take (length p) s = p"

text \<open>\<open>before, after, found := strings.Cut(s, sep)\<close> for a one-byte separator.\<close>

fun Cut :: "char \<Rightarrow> string \<Rightarrow> string \<times> string \<times> bool" where
  "Cut c [] = ([], [], False)"
| "Cut c (x # xs) =
     (if x = c then ([], xs, True)
      else case Cut c xs of (a, b, found) \<Rightarrow> (x # a, b, found))"

fun Contains :: "string \<Rightarrow> string \<Rightarrow> bool" where
  "Contains [] sub \<longleftrightarrow> sub = []"
| "Contains (c # s) sub \<longleftrightarrow> HasPrefix (c # s) sub \<or> Contains s sub"

definition is_space :: "char \<Rightarrow> bool" where
  "is_space c \<longleftrightarrow> c \<in> {CHR 0x09, CHR 0x0A, CHR 0x0B, CHR 0x0C, CHR 0x0D, CHR 0x20}"

definition TrimSpace :: "string \<Rightarrow> string" where
  "TrimSpace s = rev (dropWhile is_space (rev (dropWhile is_space s)))"

definition byte :: "char \<Rightarrow> nat" where
  "byte c = of_char c"

definition lower_char :: "char \<Rightarrow> char" where
  "lower_char c = (if 65 \<le> byte c \<and> byte c \<le> 90 then char_of (byte c + 32) else c)"

definition ToLower :: "string \<Rightarrow> string" where
  "ToLower s = map lower_char s"

lemma HasPrefix_append [simp]: "HasPrefix (p @ s) p"
  by (simp add: HasPrefix_def)

lemma Cut_notin: "c \<notin> set s \<Longrightarrow> Cut c s = (s, [], False)"
  by (induction s) auto

lemma Cut_append [simp]: "c \<notin> set a \<Longrightarrow> Cut c (a @ c # b) = (a, b, True)"
  by (induction a) auto

lemma Cut_found: "Cut c s = (a, b, True) \<Longrightarrow> s = a @ c # b \<and> c \<notin> set a"
  by (induction s arbitrary: a) (auto split: if_splits prod.splits)

lemma Cut_not_found: "Cut c s = (a, b, False) \<Longrightarrow> a = s \<and> b = [] \<and> c \<notin> set s"
  by (induction s arbitrary: a) (auto split: if_splits prod.splits)

lemma Cut_length: "Cut c s = (a, b, found) \<Longrightarrow> length b \<le> length s \<and> (s \<noteq> [] \<longrightarrow> length b < length s)"
  by (induction s arbitrary: a b found) (auto split: if_splits prod.splits)

lemma byte_less [simp]: "byte c < 256"
  by (simp add: byte_def)

lemma char_of_byte [simp]: "char_of (byte c) = c"
  by (simp add: byte_def)

lemma TrimSpace_ends:
  assumes "TrimSpace s \<noteq> []"
  shows "\<not> is_space (hd (TrimSpace s)) \<and> \<not> is_space (last (TrimSpace s))"
proof -
  define t where "t = dropWhile is_space s"
  have ne: "dropWhile is_space (rev t) \<noteq> []"
    using assms by (simp add: TrimSpace_def t_def)
  then have last: "\<not> is_space (last (TrimSpace s))"
    using hd_dropWhile [of is_space "rev t"] by (simp add: TrimSpace_def t_def [symmetric] last_rev)
  obtain x xs where t: "t = x # xs"
    using ne by (cases t) auto
  have nx: "\<not> is_space x"
    using t hd_dropWhile [of is_space s] by (simp add: t_def)
  then have "dropWhile is_space (rev xs @ [x]) = dropWhile is_space (rev xs) @ [x]"
    by (cases "\<forall>y\<in>set xs. is_space y") (auto simp: dropWhile_append dropWhile_eq_Nil_conv)
  then have "hd (TrimSpace s) = x"
    by (simp add: TrimSpace_def t_def [symmetric] t)
  with last nx show ?thesis by simp
qed

section \<open>Packages strconv, fmt and time\<close>

fun digits :: "nat \<Rightarrow> string" where
  "digits n = (if n < 10 then [char_of (48 + n)] else digits (n div 10) @ [char_of (48 + n mod 10)])"

declare digits.simps [simp del]

definition itoa :: "int \<Rightarrow> string" where
  "itoa i = (if i < 0 then ''-'' @ digits (nat (- i)) else digits (nat i))"

fun digits_value :: "nat \<Rightarrow> string \<Rightarrow> nat" where
  "digits_value a [] = a"
| "digits_value a (c # cs) = digits_value (10 * a + (byte c - 48)) cs"

lemma digits_value_append: "digits_value a (xs @ ys) = digits_value (digits_value a xs) ys"
  by (induction xs arbitrary: a) auto

lemma byte_digit: "d < 10 \<Longrightarrow> byte (char_of (48 + d)) = 48 + d"
  by (simp add: byte_def)

lemma digits_value_digits [simp]: "digits_value 0 (digits n) = n"
proof (induction n rule: digits.induct)
  case (1 n)
  show ?case
  proof (cases "n < 10")
    case True
    then show ?thesis by (simp add: digits.simps [of n] byte_digit)
  next
    case False
    with "1.IH" have "digits_value 0 (digits (n div 10)) = n div 10" by simp
    with False show ?thesis
      by (simp add: digits.simps [of n] digits_value_append byte_digit)
  qed
qed

lemma digits_inj: "digits m = digits n \<Longrightarrow> m = n"
  by (metis digits_value_digits)

lemma digit_chars:
  "char_of (48 :: nat) = CHR ''0''" "char_of (49 :: nat) = CHR ''1''" "char_of (50 :: nat) = CHR ''2''"
  "char_of (51 :: nat) = CHR ''3''" "char_of (52 :: nat) = CHR ''4''" "char_of (53 :: nat) = CHR ''5''"
  "char_of (54 :: nat) = CHR ''6''" "char_of (55 :: nat) = CHR ''7''" "char_of (56 :: nat) = CHR ''8''"
  "char_of (57 :: nat) = CHR ''9''"
  by code_simp+

definition hex_digit :: "nat \<Rightarrow> char" where
  "hex_digit n = (if n < 10 then char_of (48 + n) else char_of (87 + n))"

definition quote_char :: "char \<Rightarrow> string" where
  "quote_char c =
     (if c = CHR 0x22 \<or> c = CHR 0x5C then [CHR 0x5C, c]
      else if c = CHR 0x07 then [CHR 0x5C, CHR ''a'']
      else if c = CHR 0x08 then [CHR 0x5C, CHR ''b'']
      else if c = CHR 0x0C then [CHR 0x5C, CHR ''f'']
      else if c = CHR 0x0A then [CHR 0x5C, CHR ''n'']
      else if c = CHR 0x0D then [CHR 0x5C, CHR ''r'']
      else if c = CHR 0x09 then [CHR 0x5C, CHR ''t'']
      else if c = CHR 0x0B then [CHR 0x5C, CHR ''v'']
      else if byte c < 32 \<or> byte c = 127
        then [CHR 0x5C, CHR ''x'', hex_digit (byte c div 16), hex_digit (byte c mod 16)]
      else [c])"

definition Quote :: "string \<Rightarrow> string" where
  "Quote s = CHR 0x22 # concat (map quote_char s) @ [CHR 0x22]"

text \<open>\<open>time.Duration.String\<close> for a whole number of seconds.\<close>

definition Duration_String :: "nat \<Rightarrow> string" where
  "Duration_String n =
     (if n < 60 then digits n @ ''s''
      else if n < 3600 then digits (n div 60) @ ''m'' @ digits (n mod 60) @ ''s''
      else digits (n div 3600) @ ''h'' @ digits (n mod 3600 div 60) @ ''m'' @ digits (n mod 60) @ ''s'')"

text \<open>\<open>%s\<close> and \<open>%v\<close> of a slice of strings.\<close>

fun join_sp :: "string list \<Rightarrow> string" where
  "join_sp [] = []"
| "join_sp [s] = s"
| "join_sp (s # t # ts) = s @ '' '' @ join_sp (t # ts)"

definition Sprint_slice :: "string list \<Rightarrow> string" where
  "Sprint_slice ss = ''['' @ join_sp ss @ '']''"

section \<open>Error texts\<close>

fun Error :: "goerr \<Rightarrow> string" where
  "Error ErrorInstanceNotFound = ''instance Not Found''"
| "Error (MachineError r m) = m"
| "Error (RequeueAfterError n) = ''requeue in: '' @ Duration_String n"
| "Error (PlainError m) = m"
| "Error (WrapError m e) = m"
| "Error (APIError b m) = m"

text \<open>\<open>fmt.Errorf(prefix + "%w", err)\<close> and \<open>fmt.Errorf(prefix + "%v", err)\<close>.\<close>

definition Errorf_w :: "string \<Rightarrow> goerr \<Rightarrow> goerr" where
  "Errorf_w prefix e = WrapError (prefix @ Error e) e"

definition Errorf_v :: "string \<Rightarrow> goerr \<Rightarrow> goerr" where
  "Errorf_v prefix e = PlainError (prefix @ Error e)"

lemma Errorf_w_As [simp]:
  "errors_As_RequeueAfter (Errorf_w p e) = errors_As_RequeueAfter e"
  "errors_As_MachineError (Errorf_w p e) = errors_As_MachineError e"
  by (simp_all add: Errorf_w_def)

lemma Errorf_v_As [simp]:
  "errors_As_RequeueAfter (Errorf_v p e) = None"
  "errors_As_MachineError (Errorf_v p e) = None"
  by (simp_all add: Errorf_v_def)

section \<open>Package encoding/base64\<close>

definition b64_alphabet :: string where
  "b64_alphabet = ''ABCDEFGHIJKLMNOPQRSTUVWXYZabcdefghijklmnopqrstuvwxyz0123456789+/''"

definition b64_char :: "nat \<Rightarrow> char" where
  "b64_char n = b64_alphabet ! n"

fun EncodeToString :: "string \<Rightarrow> string" where
  "EncodeToString [] = []"
| "EncodeToString [a] =
     [b64_char (byte a div 4), b64_char (byte a mod 4 * 16), CHR ''='', CHR ''='']"
| "EncodeToString [a, b] =
     [b64_char (byte a div 4), b64_char (byte a mod 4 * 16 + byte b div 16),
      b64_char (byte b mod 16 * 4), CHR ''='']"
| "EncodeToString (a # b # c # rest) =
     b64_char (byte a div 4) # b64_char (byte a mod 4 * 16 + byte b div 16) #
     b64_char (byte b mod 16 * 4 + byte c div 64) # b64_char (byte c mod 64) #
     EncodeToString rest"

text \<open>The reference decoder of RFC 4648, section 4, on padded input.\<close>

definition b64_index :: "char \<Rightarrow> nat option" where
  "b64_index c = (let i = length (takeWhile (\<lambda>x. x \<noteq> c) b64_alphabet) in if i < 64 then Some i else None)"

definition b64_ix :: "char \<Rightarrow> nat" where
  "b64_ix c = (case b64_index c of Some i \<Rightarrow> i | None \<Rightarrow> 0)"

fun b64_decode :: "string \<Rightarrow> string" where
  "b64_decode (p # q # r # s # rest) =
     (let i = b64_ix p; j = b64_ix q; k = b64_ix r; l = b64_ix s in
      if s = CHR ''='' then
        (if r = CHR ''='' then [char_of (i * 4 + j div 16)]
         else [char_of (i * 4 + j div 16), char_of (j mod 16 * 16 + k div 4)])
      else char_of (i * 4 + j div 16) # char_of (j mod 16 * 16 + k div 4)
             # char_of (k mod 4 * 64 + l) # b64_decode rest)"
| "b64_decode _ = []"

lemma b64_index_char: "n < 64 \<Longrightarrow> b64_index (b64_char n) = Some n"
proof -
  have "\<forall>n\<in>set [0..<64]. b64_index (b64_char n) = Some n"
    by code_simp
  then show "n < 64 \<Longrightarrow> b64_index (b64_char n) = Some n" by simp
qed

lemma b64_ix_char [simp]: "n < 64 \<Longrightarrow> b64_ix (b64_char n) = n"
  by (simp add: b64_ix_def b64_index_char)

lemma b64_char_not_pad [simp]: "n < 64 \<Longrightarrow> b64_char n \<noteq> CHR ''=''"
proof -
  have "b64_index (CHR ''='') = None" by code_simp
  then show "n < 64 \<Longrightarrow> b64_char n \<noteq> CHR ''=''" using b64_index_char by fastforce
qed

lemma byte_quot [simp]: "byte a div 4 < 64" "byte b div 16 < 16" "byte c div 64 < 4"
  using byte_less [of a] byte_less [of b] byte_less [of c] by linarith+

lemma b64_bounds [simp]:
  "byte a mod 4 * 16 < 64" "byte a mod 4 * 16 + byte b div 16 < 64"
  "byte b mod 16 * 4 < 64" "byte b mod 16 * 4 + byte c div 64 < 64"
  using byte_quot(2) [of b] byte_quot(3) [of c] mod_less_divisor [of 4 "byte a"]
    mod_less_divisor [of 16 "byte b"] by linarith+

theorem b64_decode_EncodeToString: "b64_decode (EncodeToString s) = s"
proof (induction s rule: EncodeToString.induct)
  case (2 a)
  then show ?case by (simp add: Let_def)
next
  case (3 a b)
  then show ?case by (simp add: Let_def)
next
  case (4 a b c rest)
  then show ?case by (simp add: Let_def)
qed simp

end
