(* ===== verification/Go_Url.thy ===== *)
theory Go_Url
  imports Go_Strings
begin

text \<open>
  What the program uses of Go's package \<open>net/url\<close>: \<open>Parse\<close> with the fields \<open>Scheme\<close>,
  \<open>Host\<close>, \<open>Opaque\<close>, \<open>Path\<close> and \<open>RawQuery\<close>, the methods \<open>Hostname\<close>, \<open>EscapedPath\<close> and
  \<open>RequestURI\<close>, and \<open>Query().Get\<close>. User information and the fragment are checked as
  \<open>Parse\<close> checks them and then dropped: no caller reads them. A host with a bracketed IP literal
  is handed to the parameter \<open>lit\<close>.
\<close>

datatype url_mode = encodePath | encodeHost | encodeUserPassword | encodeQueryComponent | encodeFragment

definition is_alpha :: "char \<Rightarrow> bool" where
  "is_alpha c \<longleftrightarrow> (97 \<le> byte c \<and> byte c \<le> 122) \<or> (65 \<le> byte c \<and> byte c \<le> 90)"

definition is_digit :: "char \<Rightarrow> bool" where
  "is_digit c \<longleftrightarrow> 48 \<le> byte c \<and> byte c \<le> 57"

definition ishex :: "char \<Rightarrow> bool" where
  "ishex c \<longleftrightarrow> is_digit c \<or> (97 \<le> byte c \<and> byte c \<le> 102) \<or> (65 \<le> byte c \<and> byte c \<le> 70)"

definition unhex :: "char \<Rightarrow> nat" where
  "unhex c = (if is_digit c then byte c - 48
              else if 97 \<le> byte c then byte c - 97 + 10 else byte c - 65 + 10)"

definition shouldEscape :: "char \<Rightarrow> url_mode \<Rightarrow> bool" where
  "shouldEscape c mode =
     (if is_alpha c \<or> is_digit c then False
      else if mode = encodeHost \<and> c \<in> set ''!$&()*+,;=:[]<>'' \<union> {CHR 0x27, CHR 0x22} then False
      else if c \<in> set ''-_.~'' then False
      else if c \<in> set ''$&+,/:;=?@'' then
        (case mode of
           encodePath \<Rightarrow> c = CHR ''?''
         | encodeUserPassword \<Rightarrow> c \<in> set ''@/?:''
         | encodeQueryComponent \<Rightarrow> True
         | encodeFragment \<Rightarrow> False
         | encodeHost \<Rightarrow> True)
      else if mode = encodeFragment \<and> c \<in> set ''!()*'' then False
      else True)"

definition escape_error :: "string \<Rightarrow> string" where
  "escape_error s = ''invalid URL escape '' @ Quote (take 3 s)"

definition invalid_host_error :: "char \<Rightarrow> string" where
  "invalid_host_error c = ''invalid character '' @ Quote [c] @ '' in host name''"

definition cons_res :: "char \<Rightarrow> string + string \<Rightarrow> string + string" where
  "cons_res c r = (case r of Inl e \<Rightarrow> Inl e | Inr s \<Rightarrow> Inr (c # s))"

fun unescape :: "url_mode \<Rightarrow> string \<Rightarrow> string + string" where
  "unescape mode [] = Inr []"
| "unescape mode (c # cs) =
     (if c = CHR ''%'' then
        (case cs of
           a # b # rest \<Rightarrow>
             (if \<not> ishex a \<or> \<not> ishex b then Inl (escape_error (c # cs))
              else if mode = encodeHost \<and> unhex a < 8 \<and> \<not> (a = CHR ''2'' \<and> b = CHR ''5'')
                then Inl (escape_error (c # cs))
              else cons_res (char_of (16 * unhex a + unhex b)) (unescape mode rest))
         | _ \<Rightarrow> Inl (escape_error (c # cs)))
      else if c = CHR ''+'' then
        cons_res (if mode = encodeQueryComponent then CHR '' '' else c) (unescape mode cs)
      else if mode = encodeHost \<and> byte c < 128 \<and> shouldEscape c mode then Inl (invalid_host_error c)
      else cons_res c (unescape mode cs))"

definition upperhex :: "nat \<Rightarrow> char" where
  "upperhex n = (if n < 10 then char_of (48 + n) else char_of (55 + n))"

definition escape :: "string \<Rightarrow> url_mode \<Rightarrow> string" where
  "escape s mode = concat (map (\<lambda>c.
     if c = CHR '' '' \<and> mode = encodeQueryComponent then ''+''
     else if shouldEscape c mode then [CHR ''%'', upperhex (byte c div 16), upperhex (byte c mod 16)]
     else [c]) s)"

record url =
  Scheme :: string
  Opaque :: string
  Host :: string
  Path :: string
  RawPath :: string
  ForceQuery :: bool
  RawQuery :: string

definition empty_url :: url where
  "empty_url = \<lparr>Scheme = [], Opaque = [], Host = [], Path = [], RawPath = [],
     ForceQuery = False, RawQuery = []\<rparr>"

fun getScheme :: "string \<Rightarrow> string \<Rightarrow> string \<Rightarrow> string + (string \<times> string)" where
  "getScheme raw pre [] = Inr ([], raw)"
| "getScheme raw pre (c # cs) =
     (if is_alpha c then getScheme raw (pre @ [c]) cs
      else if is_digit c \<or> c \<in> set ''+-.'' then
        (if pre = [] then Inr ([], raw) else getScheme raw (pre @ [c]) cs)
      else if c = CHR '':'' then
        (if pre = [] then Inl ''missing protocol scheme'' else Inr (pre, cs))
      else Inr ([], raw))"

definition validOptionalPort :: "string \<Rightarrow> bool" where
  "validOptionalPort p = (case p of [] \<Rightarrow> True | c # cs \<Rightarrow> c = CHR '':'' \<and> list_all is_digit cs)"

definition parseHost :: "(string \<Rightarrow> string + string) \<Rightarrow> string \<Rightarrow> string + string" where
  "parseHost lit host =
     (if CHR ''['' \<in> set host then lit host
      else case Cut (CHR '':'') host of (_, port, found) \<Rightarrow>
        if found \<and> \<not> validOptionalPort (CHR '':'' # port)
        then Inl (''invalid port '' @ Quote (CHR '':'' # port) @ '' after host'')
        else unescape encodeHost host)"

definition validUserinfo :: "string \<Rightarrow> bool" where
  "validUserinfo s \<longleftrightarrow>
     list_all (\<lambda>c. is_alpha c \<or> is_digit c \<or> c \<in> set ''-._:~!$&()*+,;=%@'' \<union> {CHR 0x27}) s"

definition parseAuthority :: "(string \<Rightarrow> string + string) \<Rightarrow> string \<Rightarrow> string + string" where
  "parseAuthority lit authority =
     (case Cut (CHR ''@'') (rev authority) of (rhost, ruser, found) \<Rightarrow>
        case parseHost lit (rev rhost) of
          Inl e \<Rightarrow> Inl e
        | Inr host \<Rightarrow>
            if \<not> found then Inr host
            else if \<not> validUserinfo (rev ruser) then Inl ''net/url: invalid userinfo''
            else (case Cut (CHR '':'') (rev ruser) of (username, password, _) \<Rightarrow>
              (case unescape encodeUserPassword username of
                 Inl e \<Rightarrow> Inl e
               | Inr _ \<Rightarrow> (case unescape encodeUserPassword password of
                             Inl e \<Rightarrow> Inl e
                           | Inr _ \<Rightarrow> Inr host))))"

definition setPath :: "url \<Rightarrow> string \<Rightarrow> string + url" where
  "setPath u p =
     (case unescape encodePath p of
        Inl e \<Rightarrow> Inl e
      | Inr path \<Rightarrow> Inr (u\<lparr>Path := path, RawPath := (if p = escape path encodePath then [] else p)\<rparr>))"

definition parse_rest :: "(string \<Rightarrow> string + string) \<Rightarrow> url \<Rightarrow> string \<Rightarrow> string + url" where
  "parse_rest lit u rest =
     (if \<not> HasPrefix rest ''/'' \<and> Scheme u \<noteq> [] then Inr (u\<lparr>Opaque := rest\<rparr>)
      else if \<not> HasPrefix rest ''/'' \<and> CHR '':'' \<in> set (fst (Cut (CHR ''/'') rest))
        then Inl ''first path segment in URL cannot contain colon''
      else if (Scheme u \<noteq> [] \<or> \<not> HasPrefix rest ''///'') \<and> HasPrefix rest ''//'' then
        (case Cut (CHR ''/'') (drop 2 rest) of (authority, path, found) \<Rightarrow>
          case parseAuthority lit authority of
            Inl e \<Rightarrow> Inl e
          | Inr host \<Rightarrow> setPath (u\<lparr>Host := host\<rparr>) (if found then CHR ''/'' # path else []))
      else setPath u rest)"

definition is_ctl :: "char \<Rightarrow> bool" where
  "is_ctl c \<longleftrightarrow> byte c < 32 \<or> byte c = 127"

text \<open>The query is cut off at the first question mark; a lone trailing one sets \<open>ForceQuery\<close>.\<close>

definition cut_query :: "url \<Rightarrow> string \<Rightarrow> url \<times> string" where
  "cut_query u rest =
     (if rest \<noteq> [] \<and> last rest = CHR ''?'' \<and> count_list rest (CHR ''?'') = 1
      then (u\<lparr>ForceQuery := True\<rparr>, butlast rest)
      else case Cut (CHR ''?'') rest of (hier, query, _) \<Rightarrow> (u\<lparr>RawQuery := query\<rparr>, hier))"

definition parse_url :: "(string \<Rightarrow> string + string) \<Rightarrow> string \<Rightarrow> string + url" where
  "parse_url lit raw =
     (if list_ex is_ctl raw then Inl ''net/url: invalid control character in URL''
      else if raw = ''*'' then Inr (empty_url\<lparr>Path := ''*''\<rparr>)
      else case getScheme raw [] raw of
        Inl e \<Rightarrow> Inl e
      | Inr (scheme, rest) \<Rightarrow>
          (case cut_query (empty_url\<lparr>Scheme := ToLower scheme\<rparr>) rest of
             (u, hier) \<Rightarrow> parse_rest lit u hier))"

text \<open>\<open>url.Parse\<close>; its error text is that of \<open>url.Error\<close>.\<close>

definition url_Parse :: "(string \<Rightarrow> string + string) \<Rightarrow> string \<Rightarrow> goerr + url" where
  "url_Parse lit raw =
     (case Cut (CHR ''#'') raw of (u, frag, _) \<Rightarrow>
        case parse_url lit u of
          Inl e \<Rightarrow> Inl (PlainError (''parse '' @ Quote u @ '': '' @ e))
        | Inr r \<Rightarrow>
            (case unescape encodeFragment frag of
               Inl e \<Rightarrow> Inl (PlainError (''parse '' @ Quote raw @ '': '' @ e))
             | Inr _ \<Rightarrow> Inr r))"

definition Hostname :: "url \<Rightarrow> string" where
  "Hostname u =
     (let host = (case Cut (CHR '':'') (rev (Host u)) of (rport, rhost, found) \<Rightarrow>
                    if found \<and> validOptionalPort (CHR '':'' # rev rport) then rev rhost else Host u)
      in if host \<noteq> [] \<and> hd host = CHR ''['' \<and> last host = CHR '']'' then butlast (tl host) else host)"

definition validEncoded :: "string \<Rightarrow> url_mode \<Rightarrow> bool" where
  "validEncoded s mode \<longleftrightarrow>
     list_all (\<lambda>c. c \<in> set ''!$&()*+,;=:@[]%'' \<union> {CHR 0x27} \<or> \<not> shouldEscape c mode) s"

definition EscapedPath :: "url \<Rightarrow> string" where
  "EscapedPath u =
     (if RawPath u \<noteq> [] \<and> validEncoded (RawPath u) encodePath
         \<and> unescape encodePath (RawPath u) = Inr (Path u) then RawPath u
      else if Path u = ''*'' then ''*''
      else escape (Path u) encodePath)"

definition RequestURI :: "url \<Rightarrow> string" where
  "RequestURI u =
     (let result = (if Opaque u = [] then (if EscapedPath u = [] then ''/'' else EscapedPath u)
                    else if HasPrefix (Opaque u) ''//'' then Scheme u @ '':'' @ Opaque u
                    else Opaque u)
      in if ForceQuery u \<or> RawQuery u \<noteq> [] then result @ ''?'' @ RawQuery u else result)"

section \<open>Query strings\<close>

fun split_on :: "char \<Rightarrow> string \<Rightarrow> string list" where
  "split_on c [] = [[]]"
| "split_on c (x # xs) =
     (if x = c then [] # split_on c xs
      else case split_on c xs of [] \<Rightarrow> [[x]] | h # t \<Rightarrow> (x # h) # t)"

definition query_pair :: "string \<Rightarrow> string + (string \<times> string)" where
  "query_pair seg =
     (if CHR '';'' \<in> set seg then Inl ''invalid semicolon separator in query''
      else case Cut (CHR ''='') seg of (k, v, _) \<Rightarrow>
        (case unescape encodeQueryComponent k of
           Inl e \<Rightarrow> Inl e
         | Inr k' \<Rightarrow> (case unescape encodeQueryComponent v of
                        Inl e \<Rightarrow> Inl e
                      | Inr v' \<Rightarrow> Inr (k', v'))))"

fun parseQuery :: "string list \<Rightarrow> string option \<Rightarrow> (string \<times> string) list \<times> string option" where
  "parseQuery [] err = ([], err)"
| "parseQuery (seg # segs) err =
     (if seg = [] then parseQuery segs err
      else case query_pair seg of
        Inl e \<Rightarrow> parseQuery segs (if CHR '';'' \<in> set seg \<or> err = None then Some e else err)
      | Inr kv \<Rightarrow> (case parseQuery segs err of (kvs, err') \<Rightarrow> (kv # kvs, err')))"

text \<open>\<open>url.ParseQuery\<close>: the well-formed pairs in order, and the error if a pair was not.\<close>

definition ParseQuery :: "string \<Rightarrow> (string \<times> string) list \<times> string option" where
  "ParseQuery q = parseQuery (split_on (CHR ''&'') q) None"

definition Values_Get :: "(string \<times> string) list \<Rightarrow> string \<Rightarrow> string" where
  "Values_Get kvs key = (case map_of kvs key of Some v \<Rightarrow> v | None \<Rightarrow> [])"

text \<open>\<open>u.Query().Get(key)\<close> drops the error.\<close>

definition Query_Get :: "url \<Rightarrow> string \<Rightarrow> string" where
  "Query_Get u key = Values_Get (fst (ParseQuery (RawQuery u))) key"

section \<open>Facts the callers need\<close>

lemma setPath_RawQuery: "setPath u p = Inr v \<Longrightarrow> RawQuery v = RawQuery u \<and> Scheme v = Scheme u
    \<and> Host v = Host u \<and> Opaque v = Opaque u \<and> ForceQuery v = ForceQuery u"
  by (auto simp: setPath_def split: sum.splits)

lemma parse_rest_RawQuery: "parse_rest lit u rest = Inr v \<Longrightarrow> RawQuery v = RawQuery u"
  by (auto simp: parse_rest_def dest!: setPath_RawQuery split: if_splits prod.splits sum.splits)

lemma getScheme_suffix:
  "getScheme raw pre cs = Inr (scheme, rest) \<Longrightarrow> raw = pre @ cs \<Longrightarrow> set rest \<subseteq> set raw"
  by (induction raw pre cs rule: getScheme.induct) (auto split: if_splits)

lemma cut_query_no_query: "CHR ''?'' \<notin> set rest \<Longrightarrow> cut_query u rest = (u\<lparr>RawQuery := []\<rparr>, rest)"
  by (auto simp: cut_query_def Cut_notin)

text \<open>A URL text with no question mark has an empty query.\<close>

lemma url_Parse_no_query:
  assumes "CHR ''?'' \<notin> set raw" and "url_Parse lit raw = Inr u"
  shows "RawQuery u = []"
proof -
  obtain v frag found where cut: "Cut (CHR ''#'') raw = (v, frag, found)"
    by (cases "Cut (CHR ''#'') raw") auto
  have sub: "set v \<subseteq> set raw"
    using cut by (cases found) (auto dest: Cut_found Cut_not_found)
  from assms(2) cut have "parse_url lit v = Inr u"
    by (auto simp: url_Parse_def split: sum.splits)
  then show ?thesis
  proof (cases "v = ''*''")
    case True
    with \<open>parse_url lit v = Inr u\<close> show ?thesis
      by (auto simp: parse_url_def empty_url_def split: if_splits)
  next
    case False
    with \<open>parse_url lit v = Inr u\<close> obtain scheme rest where
        scheme: "getScheme v [] v = Inr (scheme, rest)"
      and rest: "(case cut_query (empty_url\<lparr>Scheme := ToLower scheme\<rparr>) rest of
             (u, hier) \<Rightarrow> parse_rest lit u hier) = Inr u"
      by (auto simp: parse_url_def split: if_splits sum.splits)
    have "CHR ''?'' \<notin> set rest"
      using getScheme_suffix [OF scheme] sub assms(1) by auto
    with rest show ?thesis
      by (auto simp: cut_query_no_query empty_url_def dest!: parse_rest_RawQuery)
  qed
qed

lemma Query_Get_empty [simp]: "RawQuery u = [] \<Longrightarrow> Query_Get u key = []"
  by (simp add: Query_Get_def ParseQuery_def Values_Get_def)

end
