(* ===== verification/Go_Float.thy ===== *)
theory Go_Float
  imports Go_Strings Complex_Main
begin

text \<open>
  Go's \<open>float64\<close> as far as the program uses it: conversion from \<open>int32\<close>, \<open>strconv.ParseFloat\<close>,
  \<open>math.Ceil\<close>, a product with a constant, and \<open>fmt\<close>'s verb \<open>%v\<close> on whole numbers. A finite value is a sign and a rational magnitude, so that the two zeros are
  told apart; every finite value the functions below return is a binary64 number
  (\<open>round64_float64\<close>). Decimal and hexadecimal texts, with underscores between digits, and the
  names of the infinities and of NaN are parsed.
\<close>

datatype float64 = NaN | Infinite bool | Finite bool rat

definition pow2 :: "int \<Rightarrow> rat" where
  "pow2 k = (if 0 \<le> k then 2 ^ nat k else 1 / 2 ^ nat (- k))"

definition round_even :: "rat \<Rightarrow> int" where
  "round_even x =
     (let f = \<lfloor>x\<rfloor>; r = x - of_int f in
      if r < 1 / 2 then f else if 1 / 2 < r then f + 1 else if even f then f else f + 1)"

function log2_int :: "int \<Rightarrow> int" where
  "log2_int n = (if n < 2 then 0 else 1 + log2_int (n div 2))"
  by pat_completeness auto
termination
  by (relation "measure nat") auto

declare log2_int.simps [simp del]

text \<open>The exponent of the unit in the last place of a magnitude: 53 bits, at least \<open>2 ^ -1074\<close>.\<close>

definition ulp_exp :: "rat \<Rightarrow> int" where
  "ulp_exp q =
     (case quotient_of q of (n, d) \<Rightarrow>
        let k = log2_int n - log2_int d;
            l = (if pow2 k \<le> q then k else k - 1)
        in max (- 1074) (l - 52))"

text \<open>Rounding to the nearest binary64 magnitude, ties to even; \<open>None\<close> is overflow.\<close>

definition round64 :: "rat \<Rightarrow> rat option" where
  "round64 q =
     (if q = 0 then Some 0
      else let e = ulp_exp q; m = round_even (q / pow2 e)
           in if 971 < e \<or> e = 971 \<and> 2 ^ 53 \<le> m then None else Some (of_int m * pow2 e))"

definition float64_of_int32 :: "32 word \<Rightarrow> float64" where
  "float64_of_int32 w = (let i = sint w in Finite (i < 0) (of_int \<bar>i\<bar>))"

section \<open>strconv.ParseFloat\<close>

definition hex_value :: "char \<Rightarrow> nat option" where
  "hex_value c =
     (if 48 \<le> byte c \<and> byte c \<le> 57 then Some (byte c - 48)
      else if 97 \<le> byte c \<and> byte c \<le> 102 then Some (byte c - 87)
      else if 65 \<le> byte c \<and> byte c \<le> 70 then Some (byte c - 55)
      else None)"

definition digit_value :: "nat \<Rightarrow> char \<Rightarrow> nat option" where
  "digit_value base c = (case hex_value c of Some d \<Rightarrow> if d < base then Some d else None | None \<Rightarrow> None)"

text \<open>The mantissa: its digits as a number, how many follow the point, whether there was a digit.\<close>

fun mantissa :: "nat \<Rightarrow> bool \<Rightarrow> int \<Rightarrow> int \<Rightarrow> bool \<Rightarrow> string \<Rightarrow> int \<times> int \<times> bool \<times> string" where
  "mantissa base dot m nfrac saw [] = (m, nfrac, saw, [])"
| "mantissa base dot m nfrac saw (c # cs) =
     (if c = CHR ''_'' then mantissa base dot m nfrac saw cs
      else if c = CHR ''.'' \<and> \<not> dot then mantissa base True m nfrac saw cs
      else case digit_value base c of
        Some d \<Rightarrow> mantissa base dot (m * int base + int d) (if dot then nfrac + 1 else nfrac) True cs
      | None \<Rightarrow> (m, nfrac, saw, c # cs))"

text \<open>Exponent digits, capped as \<open>readFloat\<close> caps them.\<close>

fun exp_digits :: "int \<Rightarrow> string \<Rightarrow> int \<times> string" where
  "exp_digits e [] = (e, [])"
| "exp_digits e (c # cs) =
     (if c = CHR ''_'' then exp_digits e cs
      else case digit_value 10 c of
        Some d \<Rightarrow> exp_digits (if e < 10000 then e * 10 + int d else e) cs
      | None \<Rightarrow> (e, c # cs))"

definition cut_sign :: "string \<Rightarrow> bool \<times> string" where
  "cut_sign s = (case s of [] \<Rightarrow> (False, [])
     | c # cs \<Rightarrow> if c = CHR ''-'' then (True, cs) else if c = CHR ''+'' then (False, cs) else (False, s))"

definition exponent :: "char \<Rightarrow> string \<Rightarrow> int option \<times> string" where
  "exponent mark s =
     (case s of
        c # cs \<Rightarrow>
          if lower_char c = mark then
            (case cut_sign cs of (neg, ds) \<Rightarrow>
               case ds of
                 d # _ \<Rightarrow> (if digit_value 10 d = None then (None, s)
                           else case exp_digits 0 ds of (e, rest) \<Rightarrow>
                             (Some (if neg then - e else e), rest))
               | [] \<Rightarrow> (None, s))
          else (None, s)
      | [] \<Rightarrow> (None, s))"

text \<open>\<open>strconv.underscoreOK\<close>: an underscore stands between digits, or between a base prefix and a digit.\<close>

datatype last_seen = SawStart | SawDigit | SawUnderscore | SawOther

fun underscores_ok :: "bool \<Rightarrow> last_seen \<Rightarrow> string \<Rightarrow> bool" where
  "underscores_ok hex saw [] \<longleftrightarrow> saw \<noteq> SawUnderscore"
| "underscores_ok hex saw (c # cs) \<longleftrightarrow>
     (if digit_value (if hex then 16 else 10) c \<noteq> None then underscores_ok hex SawDigit cs
      else if c = CHR ''_'' then saw = SawDigit \<and> underscores_ok hex SawUnderscore cs
      else saw \<noteq> SawUnderscore \<and> underscores_ok hex SawOther cs)"

definition underscoreOK :: "string \<Rightarrow> bool" where
  "underscoreOK s \<longleftrightarrow>
     (if ToLower (take 2 s) \<in> {''0b'', ''0o'', ''0x''}
      then underscores_ok (ToLower (take 2 s) = ''0x'') SawDigit (drop 2 s)
      else underscores_ok False SawStart s)"

definition parse_magnitude :: "string \<Rightarrow> rat option" where
  "parse_magnitude s =
     (if CHR ''_'' \<in> set s \<and> \<not> underscoreOK s then None
      else if ToLower (take 2 s) = ''0x'' then
        (case mantissa 16 False 0 0 False (drop 2 s) of (m, nfrac, saw, rest) \<Rightarrow>
           case exponent (CHR ''p'') rest of
             (Some e, []) \<Rightarrow> if saw then Some (of_int m * pow2 (e - 4 * nfrac)) else None
           | _ \<Rightarrow> None)
      else
        (case mantissa 10 False 0 0 False s of (m, nfrac, saw, rest) \<Rightarrow>
           case (if rest = [] then (Some 0, []) else exponent (CHR ''e'') rest) of
             (Some e, []) \<Rightarrow>
               if saw then
                 Some (let k = e - nfrac in
                       if 0 \<le> k then of_int m * 10 ^ nat k else of_int m / 10 ^ nat (- k))
               else None
           | _ \<Rightarrow> None))"

definition parse_error :: "string \<Rightarrow> string \<Rightarrow> goerr" where
  "parse_error s what = PlainError (''strconv.ParseFloat: parsing '' @ Quote s @ '': '' @ what)"

definition ParseFloat :: "string \<Rightarrow> goerr + float64" where
  "ParseFloat s =
     (case cut_sign s of (neg, t) \<Rightarrow>
        if ToLower t \<in> {''inf'', ''infinity''} then Inr (Infinite neg)
        else if ToLower s = ''nan'' then Inr NaN
        else case parse_magnitude t of
          None \<Rightarrow> Inl (parse_error s ''invalid syntax'')
        | Some q \<Rightarrow> (case round64 q of
                      None \<Rightarrow> Inl (parse_error s ''value out of range'')
                    | Some r \<Rightarrow> Inr (Finite neg r)))"

section \<open>Rounding\<close>

lemma pow2_pos [simp]: "0 < pow2 k"
  by (simp add: pow2_def)

lemma round_even_of_int [simp]: "round_even (of_int i) = i"
  by (simp add: round_even_def)

lemma round_even_near: "\<bar>of_int (round_even x) - x\<bar> \<le> 1 / 2"
proof -
  have "of_int \<lfloor>x\<rfloor> \<le> x" and "x < of_int \<lfloor>x\<rfloor> + 1"
    by linarith+
  then show ?thesis by (auto simp: round_even_def Let_def)
qed

text \<open>
  The result of a rounding is an integral multiple of the unit in the last place, at most half a
  unit away.
\<close>

lemma round64_float64:
  assumes "round64 q = Some r"
  shows "r = 0 \<or> (\<exists>m. r = of_int m * pow2 (ulp_exp q))"
  using assms by (auto simp: round64_def Let_def split: if_splits)

lemma round64_error:
  assumes "round64 q = Some r"
  shows "\<bar>r - q\<bar> \<le> pow2 (ulp_exp q) / 2"
proof (cases "q = 0")
  case True
  with assms show ?thesis by (simp add: round64_def less_imp_le)
next
  case False
  define u where "u = pow2 (ulp_exp q)"
  have u: "0 < u" by (simp add: u_def)
  from assms False have r: "r = of_int (round_even (q / u)) * u"
    by (auto simp: round64_def Let_def u_def split: if_splits)
  then have "r - q = (of_int (round_even (q / u)) - q / u) * u"
    using u by (simp add: left_diff_distrib)
  then have "\<bar>r - q\<bar> = \<bar>of_int (round_even (q / u)) - q / u\<bar> * u"
    using u by (simp add: abs_mult)
  also have "\<dots> \<le> 1 / 2 * u"
    using round_even_near [of "q / u"] u by (intro mult_right_mono) simp_all
  finally show ?thesis by (simp add: u_def)
qed

section \<open>Arithmetic and printing\<close>

definition Ceil :: "float64 \<Rightarrow> float64" where
  "Ceil x = (case x of
     Finite neg q \<Rightarrow> Finite neg (of_int (if neg then \<lfloor>q\<rfloor> else \<lceil>q\<rceil>)) | _ \<Rightarrow> x)"

text \<open>The product with a positive constant that is itself a \<open>float64\<close>.\<close>

definition times_const :: "float64 \<Rightarrow> nat \<Rightarrow> float64" where
  "times_const x c = (case x of
     Finite neg q \<Rightarrow> (case round64 (q * of_nat c) of Some r \<Rightarrow> Finite neg r | None \<Rightarrow> Infinite neg) | _ \<Rightarrow> x)"

text \<open>
  The shortest decimal that reads back as the number \<open>N\<close>, as \<open>strconv\<close> finds it: for \<open>k\<close> trailing zeros,
  most first, \<open>N\<close> rounded down or up, if that reads back as \<open>N\<close>; the nearer one if both do.
\<close>

fun shortest :: "nat \<Rightarrow> nat \<Rightarrow> nat" where
  "shortest N 0 = N"
| "shortest N (Suc k) =
     (let unit = 10 ^ Suc k; down = N div unit * unit; up = down + unit;
          okdown = (round64 (of_nat down) = Some (of_nat N));
          okup = (down \<noteq> N \<and> round64 (of_nat up) = Some (of_nat N))
      in if okdown \<and> okup then
           (if 2 * (N - down) < unit \<or> 2 * (N - down) = unit \<and> even (N div unit) then down else up)
         else if okdown then down
         else if okup then up
         else shortest N k)"

definition exponent_text :: "nat \<Rightarrow> string" where
  "exponent_text e = ''e+'' @ (if e < 10 then ''0'' else []) @ digits e"

text \<open>The verb \<open>%v\<close>, that is \<open>%g\<close> with the fewest digits: from 10 ^ 6 on with an exponent.\<close>

definition format_whole :: "nat \<Rightarrow> string" where
  "format_whole N =
     (if N = 0 then ''0''
      else let ds = digits (shortest N (length (digits N) - 1)); e = length ds - 1 in
        if e < 6 then ds
        else let frac_digits = rev (dropWhile (\<lambda>c. c = CHR ''0'') (rev (tl ds))) in
          hd ds # (if frac_digits = [] then [] else CHR ''.'' # frac_digits) @ exponent_text e)"

definition Sprint_whole :: "float64 \<Rightarrow> string" where
  "Sprint_whole x = (case x of
     NaN \<Rightarrow> ''NaN''
   | Infinite neg \<Rightarrow> (if neg then ''-Inf'' else ''+Inf'')
   | Finite neg q \<Rightarrow> (if neg then ''-'' else []) @ format_whole (nat \<lfloor>q\<rfloor>))"

text \<open>Whole numbers below \<open>2 ^ 53\<close> are exact.\<close>

lemma log2_int_bounds: "0 < n \<Longrightarrow> 0 \<le> log2_int n \<and> 2 ^ nat (log2_int n) \<le> n \<and> n < 2 * 2 ^ nat (log2_int n)"
proof (induction n rule: log2_int.induct)
  case (1 n)
  show ?case
  proof (cases "n < 2")
    case True
    with 1 show ?thesis by (simp add: log2_int.simps [of n])
  next
    case False
    with 1 have IH: "0 \<le> log2_int (n div 2)" "2 ^ nat (log2_int (n div 2)) \<le> n div 2"
        "n div 2 < 2 * 2 ^ nat (log2_int (n div 2))" by simp_all
    moreover have "nat (1 + log2_int (n div 2)) = Suc (nat (log2_int (n div 2)))"
      using IH(1) by simp
    moreover have "2 * p \<le> n \<and> n < 4 * p" if "p \<le> n div 2" "n div 2 < 2 * p" for p
      using that by linarith
    ultimately show ?thesis using False by (simp add: log2_int.simps [of n])
  qed
qed

lemma round64_whole:
  assumes "N < 2 ^ 53"
  shows "round64 (of_nat N) = Some (of_nat N)"
proof (cases "N = 0")
  case False
  define l where "l = log2_int (int N)"
  have l: "0 \<le> l" "2 ^ nat l \<le> int N" "int N < 2 * 2 ^ nat l"
    using log2_int_bounds [of "int N"] False by (simp_all add: l_def)
  have "(2::int) ^ nat l < 2 ^ 53" using l(2) assms by (metis of_nat_less_iff of_nat_numeral of_nat_power order_le_less_trans)
  then have "nat l < 53" by (rule power_less_imp_less_exp [rotated]) simp
  then have l53: "l < 53" by simp
  have "pow2 l \<le> of_nat N"
  proof -
    have "(of_int (2 ^ nat l) :: rat) \<le> of_int (int N)" using l(2) by (simp only: of_int_le_iff)
    then show ?thesis using l(1) by (simp add: pow2_def)
  qed
  moreover have "quotient_of (of_nat N) = (int N, 1)" by (simp add: of_nat_rat quotient_of_Fract)
  ultimately have e: "ulp_exp (of_nat N) = l - 52"
    using l(1) by (simp add: ulp_exp_def Let_def l_def [symmetric] log2_int.simps [of 1])
  have p: "pow2 (l - 52) = 1 / 2 ^ nat (52 - l)"
    using l53 by (cases "l = 52") (simp_all add: pow2_def)
  then have "of_nat N / pow2 (l - 52) = (of_int (int N * 2 ^ nat (52 - l)) :: rat)" by simp
  then have "round_even (of_nat N / pow2 (l - 52)) = int N * 2 ^ nat (52 - l)"
    by (metis round_even_of_int)
  with False e p l53 show ?thesis by (simp add: round64_def Let_def)
qed (simp add: round64_def)

lemma shortest_exact:
  assumes "N + 10 ^ k < 2 ^ 53"
  shows "shortest N k = N"
  using assms
proof (induction k)
  case (Suc k)
  let ?u = "10 ^ Suc k :: nat"
  have le: "N div ?u * ?u \<le> N" by simp
  have "round64 (of_nat (N div ?u * ?u)) = Some (of_nat (N div ?u * ?u))"
    using le Suc.prems by (intro round64_whole) linarith
  moreover have "round64 (of_nat (N div ?u * ?u + ?u)) = Some (of_nat (N div ?u * ?u + ?u))"
    using le Suc.prems by (intro round64_whole) linarith
  moreover have "N < N div ?u * ?u + ?u"
    using dividend_less_div_times [of ?u N] by simp
  moreover have "shortest N k = N" using Suc.prems by (intro Suc.IH) simp
  ultimately show ?case by (simp add: Let_def del: of_nat_add of_nat_mult of_nat_power power_Suc)
qed simp

lemma length_digits_le: "n < 10 ^ k \<Longrightarrow> 0 < k \<Longrightarrow> length (digits n) \<le> k"
proof (induction n arbitrary: k rule: digits.induct)
  case (1 n)
  show ?case
  proof (cases "n < 10")
    case False
    with "1.prems" obtain j where k: "k = Suc j" "0 < j" by (cases k; cases "k - 1") auto
    with "1.prems" have "n div 10 < 10 ^ j" by (simp add: less_mult_imp_div_less mult.commute)
    with "1.IH" [OF False] k False show ?thesis by (simp add: digits.simps [of n])
  qed (use "1.prems" in \<open>simp add: digits.simps [of n]\<close>)
qed

lemma format_whole_small:
  assumes "N < 10 ^ 6"
  shows "format_whole N = digits N"
proof (cases "N = 0")
  case True
  moreover have "digits 0 = ''0''" by code_simp
  ultimately show ?thesis by (simp add: format_whole_def)
next
  case False
  have len: "length (digits N) \<le> 6" using length_digits_le [OF assms] by simp
  then have "(10 :: nat) ^ (length (digits N) - 1) \<le> 10 ^ 5" by (intro power_increasing) simp_all
  then have "N + 10 ^ (length (digits N) - 1) < 2 ^ 53" using assms by simp
  then have "shortest N (length (digits N) - 1) = N" by (rule shortest_exact)
  moreover have "length (digits N) - 1 < 6" using len by simp
  ultimately show ?thesis using False by (simp add: format_whole_def)
qed

end
