(* ===== verification/World.thy ===== *)
theory World
  imports Go_Url Go_Float
begin

text \<open>
  The world the provider runs in: the objects of the IBM Cloud SDKs and of the Kubernetes API that
  the program reads and writes, the calls it makes, and how they are answered.

  Every call to the outside (the cloud, the API server, the event recorder, the metrics, the clock)
  is recorded in the \<open>trace\<close> of the state, in order. The answers are a parameter: a record
  \<open>env\<close> of functions, one per call, each of which sees all the calls made before. So the
  environment may react to what was done, fail at any point or change between two reads; nothing is
  assumed of it. Libraries outside this repository that only compute (regular expressions, JSON, the
  region tables) are functions of \<open>env\<close> too, as are the order in which \<open>range\<close> visits a map
  and the fuel of the paging loop.

  Of the SDK and API objects, the fields this program reads or writes are modelled. A pointer is an
  \<open>option\<close>; the elements of a slice of pointers are taken to be non-nil. A nil map is \<open>None\<close>.
\<close>

section \<open>IBM Cloud objects\<close>

record PVMInstanceNetwork =
  net_ExternalIP :: string
  net_IPAddress :: string
  net_MacAddress :: string
  net_NetworkID :: string

record PVMInstance =
  PvmInstanceID :: "string option"
  ServerName :: "string option"
  InstanceStatus :: "string option"
  SysType :: string
  Networks :: "PVMInstanceNetwork list"

record PVMInstanceReference =
  ref_PvmInstanceID :: "string option"
  ref_ServerName :: "string option"

record ImageReference =
  img_Name :: "string option"
  img_ImageID :: "string option"

record NetworkReference =
  nw_Name :: "string option"
  nw_NetworkID :: "string option"

record PVMInstanceCreate =
  c_ImageID :: string
  c_KeyPairName :: string
  c_Networks :: "string list"
  c_ServerName :: string
  c_Memory :: float64
  c_Processors :: float64
  c_ProcType :: string
  c_SysType :: string
  c_UserData :: string

record DHCPServer =
  dhcp_ID :: "string option"
  dhcp_Network :: "string option option"

record DHCPServerLease =
  InstanceIP :: "string option"
  InstanceMacAddress :: "string option"

record DHCPServerDetail =
  detail_ID :: "string option"
  Leases :: "DHCPServerLease list"

record LoadBalancerPoolReference =
  pool_ID :: "string option"
  pool_Name :: "string option"

record LoadBalancer =
  lb_ID :: "string option"
  lb_Name :: "string option"
  lb_ProvisioningStatus :: "string option"
  lb_Pools :: "LoadBalancerPoolReference list"

record LoadBalancerCollection =
  LoadBalancers :: "LoadBalancer list"
  Next :: "string option option"

datatype member_target = MemberTarget "string option" | OtherTarget

record LoadBalancerPoolMember =
  mem_ID :: "string option"
  mem_Port :: "int option"
  mem_Target :: member_target

record ResourceInstance =
  GUID :: "string option"
  RegionID :: "string option"

record ResourceInstancesList =
  NextURL :: "string option"
  Resources :: "ResourceInstance list"

section \<open>Kubernetes objects\<close>

type_synonym strmap = "string \<rightharpoonup> string"

record PowerVSResource =
  res_Type :: string
  res_ID :: "string option"
  res_Name :: "string option"
  res_RegEx :: "string option"

datatype IntOrString = IntVal "32 word" | StrVal string

record LoadBalancerReference =
  lbr_Name :: string
  lbr_Type :: string

record PowerVSMachineProviderConfig =
  UserDataSecret :: "string option"
  CredentialsSecret :: "string option"
  ServiceInstance :: PowerVSResource
  Image :: PowerVSResource
  Network :: PowerVSResource
  KeyPairName :: string
  SystemType :: string
  ProcessorType :: string
  Processors :: IntOrString
  MemoryGiB :: "32 word"
  SpecLoadBalancers :: "LoadBalancerReference list"

definition zero_resource :: PowerVSResource where
  "zero_resource = \<lparr>res_Type = [], res_ID = None, res_Name = None, res_RegEx = None\<rparr>"

definition zero_config :: PowerVSMachineProviderConfig where
  "zero_config = \<lparr>UserDataSecret = None, CredentialsSecret = None, ServiceInstance = zero_resource,
     Image = zero_resource, Network = zero_resource, KeyPairName = [], SystemType = [],
     ProcessorType = [], Processors = IntVal 0, MemoryGiB = 0, SpecLoadBalancers = []\<rparr>"

text \<open>Times are nanoseconds.\<close>

record Condition =
  cond_Type :: string
  cond_Status :: string
  cond_Reason :: string
  cond_Message :: string
  cond_LastTransitionTime :: int

record PowerVSMachineProviderStatus =
  Conditions :: "Condition list"
  InstanceID :: "string option"
  ServiceInstanceID :: "string option"
  InstanceState :: "string option"

definition zero_status :: PowerVSMachineProviderStatus where
  "zero_status = \<lparr>Conditions = [], InstanceID = None, ServiceInstanceID = None, InstanceState = None\<rparr>"

datatype NodeAddressType = NodeHostName | NodeInternalIP | NodeExternalIP | NodeInternalDNS | NodeExternalDNS

record NodeAddress =
  addr_Type :: NodeAddressType
  addr_Address :: string

record MachineStatus =
  NodeRef :: "(string \<times> string) option"
  LastUpdated :: "int option"
  ProviderStatus :: "string option"
  Addresses :: "NodeAddress list"

record Machine =
  m_Name :: string
  m_Namespace :: string
  m_ResourceVersion :: string
  m_Labels :: "strmap option"
  m_Annotations :: "strmap option"
  m_SpecLabels :: "strmap option"
  m_ProviderSpec :: "string option"
  m_ProviderID :: "string option"
  m_Status :: MachineStatus

record PowerVSServiceEndpoint =
  ep_Name :: string
  ep_URL :: string

record PowerVSPlatformStatus =
  pvs_Region :: string
  pvs_Zone :: string
  pvs_ResourceGroup :: string
  pvs_ServiceEndpoints :: "PowerVSServiceEndpoint list"
  pvs_CISInstanceCRN :: string
  pvs_DNSInstanceCRN :: string

record Infrastructure =
  infra_Spec_PowerVS :: "PowerVSServiceEndpoint list option"
  infra_PlatformStatus :: "PowerVSPlatformStatus option option"

record MachineSet =
  set_Name :: string
  set_Namespace :: string
  set_Deleted :: bool
  set_Annotations :: "strmap option"
  set_ProviderSpec :: "string option"

section \<open>Calls\<close>

datatype metric_kind = FailedInstanceCreate | FailedInstanceUpdate | FailedInstanceDelete

text \<open>
  The calls of the Power VS SDK clients carry the ID of the service instance the client was built
  for.
\<close>

datatype call =
    CallCreateInstance string PVMInstanceCreate
  | CallGetInstance string string
  | CallGetInstances string
  | CallDeleteInstance string string
  | CallGetImages string
  | CallGetNetworks string
  | CallGetDHCPServers string
  | CallGetDHCPServer string string
  | CallListResourceInstances "string option" "string option"
  | CallGetResourceInstance string
  | CallListLoadBalancers "string option"
  | CallGetLoadBalancer string
  | CallListPoolMembers string string
  | CallCreatePoolMember string string int string
  | CallDeletePoolMember string string string
  | KubeGetNode string string
  | KubeGetSecret string string
  | KubeGetInfrastructure string
  | KubeGetMachineSet string string
  | KubePatchMachine Machine Machine
  | KubePatchMachineStatus Machine Machine
  | KubePatchMachineSet MachineSet MachineSet
  | KubeUpdateInfrastructureStatus Infrastructure
  | CallAuthenticate string string
  | CallNewSDKClient string "string list"
  | Eventf string string string
  | Metric metric_kind string string string
  | TimeNow

record env =
  e_CreateInstance :: "call list \<Rightarrow> string \<Rightarrow> PVMInstanceCreate \<Rightarrow> goerr + PVMInstance list option"
  e_GetInstance :: "call list \<Rightarrow> string \<Rightarrow> string \<Rightarrow> goerr + PVMInstance option"
  e_GetInstances :: "call list \<Rightarrow> string \<Rightarrow> goerr + PVMInstanceReference list option"
  e_DeleteInstance :: "call list \<Rightarrow> string \<Rightarrow> string \<Rightarrow> goerr + unit"
  e_GetImages :: "call list \<Rightarrow> string \<Rightarrow> goerr + ImageReference list option"
  e_GetNetworks :: "call list \<Rightarrow> string \<Rightarrow> goerr + NetworkReference list option"
  e_GetDHCPServers :: "call list \<Rightarrow> string \<Rightarrow> goerr + DHCPServer list"
  e_GetDHCPServer :: "call list \<Rightarrow> string \<Rightarrow> string \<Rightarrow> goerr + DHCPServerDetail option"
  e_ListResourceInstances ::
    "call list \<Rightarrow> string option \<Rightarrow> string option \<Rightarrow> goerr + ResourceInstancesList option"
  e_GetResourceInstance :: "call list \<Rightarrow> string \<Rightarrow> goerr + ResourceInstance option"
  e_ListLoadBalancers :: "call list \<Rightarrow> string option \<Rightarrow> goerr + LoadBalancerCollection option"
  e_GetLoadBalancer :: "call list \<Rightarrow> string \<Rightarrow> goerr + LoadBalancer option"
  e_ListPoolMembers :: "call list \<Rightarrow> string \<Rightarrow> string \<Rightarrow> goerr + LoadBalancerPoolMember list option"
  e_CreatePoolMember :: "call list \<Rightarrow> string \<Rightarrow> string \<Rightarrow> int \<Rightarrow> string \<Rightarrow> goerr + unit"
  e_DeletePoolMember :: "call list \<Rightarrow> string \<Rightarrow> string \<Rightarrow> string \<Rightarrow> goerr + unit"
  e_GetNode :: "call list \<Rightarrow> string \<Rightarrow> string \<Rightarrow> goerr + strmap"
  e_GetSecret :: "call list \<Rightarrow> string \<Rightarrow> string \<Rightarrow> goerr + strmap"
  e_GetInfrastructure :: "call list \<Rightarrow> string \<Rightarrow> goerr + Infrastructure"
  e_GetMachineSet :: "call list \<Rightarrow> string \<Rightarrow> string \<Rightarrow> goerr + MachineSet"
  e_PatchMachine :: "call list \<Rightarrow> Machine \<Rightarrow> Machine \<Rightarrow> goerr + Machine"
  e_PatchMachineStatus :: "call list \<Rightarrow> Machine \<Rightarrow> Machine \<Rightarrow> goerr + Machine"
  e_PatchMachineSet :: "call list \<Rightarrow> MachineSet \<Rightarrow> MachineSet \<Rightarrow> goerr + MachineSet"
  e_UpdateInfrastructureStatus :: "call list \<Rightarrow> Infrastructure \<Rightarrow> goerr + unit"
  e_Authenticate :: "call list \<Rightarrow> string \<Rightarrow> string \<Rightarrow> goerr + string"
  e_NewSDKClient :: "call list \<Rightarrow> string \<Rightarrow> string list \<Rightarrow> goerr + unit"
  e_Now :: "call list \<Rightarrow> int"
  e_rank :: "call list \<Rightarrow> string \<Rightarrow> nat"
  e_fuel :: nat
  e_Debug :: "bool option"
  e_ip_literal :: "string \<Rightarrow> string + string"
  e_regexp :: "string \<Rightarrow> goerr + (string \<Rightarrow> bool)"
  e_jwt_Parse :: "string \<Rightarrow> string option \<times> goerr option"
  e_GetRegion :: "string \<Rightarrow> goerr + string"
  e_VPCRegion :: "string \<Rightarrow> goerr + string"
  e_unmarshalSpec :: "string \<Rightarrow> goerr + PowerVSMachineProviderConfig option"
  e_unmarshalStatus :: "string \<Rightarrow> goerr + PowerVSMachineProviderStatus"
  e_marshalSpec :: "PowerVSMachineProviderConfig \<Rightarrow> goerr + string"
  e_marshalStatus :: "PowerVSMachineProviderStatus \<Rightarrow> goerr + string"

text \<open>
  A concrete environment in which every call fails, for use in examples: they override the answers
  they need.
\<close>

definition down :: goerr where
  "down = APIError False ''unavailable''"

definition base_env :: env where
  "base_env = \<lparr>
     e_CreateInstance = \<lambda>_ _ _. Inl down, e_GetInstance = \<lambda>_ _ _. Inl down,
     e_GetInstances = \<lambda>_ _. Inl down, e_DeleteInstance = \<lambda>_ _ _. Inl down,
     e_GetImages = \<lambda>_ _. Inl down, e_GetNetworks = \<lambda>_ _. Inl down,
     e_GetDHCPServers = \<lambda>_ _. Inl down, e_GetDHCPServer = \<lambda>_ _ _. Inl down,
     e_ListResourceInstances = \<lambda>_ _ _. Inl down, e_GetResourceInstance = \<lambda>_ _. Inl down,
     e_ListLoadBalancers = \<lambda>_ _. Inl down, e_GetLoadBalancer = \<lambda>_ _. Inl down,
     e_ListPoolMembers = \<lambda>_ _ _. Inl down, e_CreatePoolMember = \<lambda>_ _ _ _ _. Inl down,
     e_DeletePoolMember = \<lambda>_ _ _ _. Inl down, e_GetNode = \<lambda>_ _ _. Inl down,
     e_GetSecret = \<lambda>_ _ _. Inl down, e_GetInfrastructure = \<lambda>_ _. Inl down,
     e_GetMachineSet = \<lambda>_ _ _. Inl down, e_PatchMachine = \<lambda>_ _ _. Inl down,
     e_PatchMachineStatus = \<lambda>_ _ _. Inl down, e_PatchMachineSet = \<lambda>_ _ _. Inl down,
     e_UpdateInfrastructureStatus = \<lambda>_ _. Inl down, e_Authenticate = \<lambda>_ _ _. Inl down,
     e_NewSDKClient = \<lambda>_ _ _. Inl down, e_Now = \<lambda>h. int (length h),
     e_rank = \<lambda>_ k. length k, e_fuel = 10, e_Debug = None,
     e_ip_literal = \<lambda>h. Inr h, e_regexp = \<lambda>r. Inr (\<lambda>s. Contains s r),
     e_jwt_Parse = \<lambda>_. (None, None), e_GetRegion = \<lambda>_. Inl down, e_VPCRegion = \<lambda>_. Inl down,
     e_unmarshalSpec = \<lambda>_. Inl down, e_unmarshalStatus = \<lambda>_. Inl down,
     e_marshalSpec = \<lambda>_. Inl down, e_marshalStatus = \<lambda>_. Inl down\<rparr>"

section \<open>State\<close>

text \<open>The part of the state every component shares; components with more state extend the record.\<close>

record world =
  trace :: "call list"
  osenv :: strmap

definition do_call :: "call \<Rightarrow> (call list \<Rightarrow> 'a) \<Rightarrow> ('x world_scheme, 'a) prog" where
  "do_call c answer = (\<lambda>s. (Val (answer (trace s)), s\<lparr>trace := trace s @ [c]\<rparr>))"

definition Now :: "env \<Rightarrow> ('x world_scheme, int) prog" where
  "Now E = do_call TimeNow (e_Now E)"

definition RegisterFailed ::
    "metric_kind \<Rightarrow> string \<Rightarrow> string \<Rightarrow> string \<Rightarrow> ('x world_scheme, unit) prog" where
  "RegisterFailed k name namespace reason = do_call (Metric k name namespace reason) (\<lambda>_. ())"

definition emit_event :: "string \<Rightarrow> string \<Rightarrow> string \<Rightarrow> ('x world_scheme, unit) prog" where
  "emit_event type reason message = do_call (Eventf type reason message) (\<lambda>_. ())"

lemma do_call_run [prog_simps]:
  "do_call c answer s = (Val (answer (trace s)), s\<lparr>trace := trace s @ [c]\<rparr>)"
  by (simp add: do_call_def)

lemmas basic_calls = Now_def RegisterFailed_def emit_event_def

section \<open>Which calls a program makes\<close>

definition calls_in :: "(call \<Rightarrow> bool) \<Rightarrow> 'x world_scheme \<Rightarrow> 'x world_scheme \<Rightarrow> bool" where
  "calls_in P s t \<longleftrightarrow> (\<exists>tr. trace t = trace s @ tr \<and> list_all P tr)"

text \<open>
  A transition invariant that holds of the calls of a class and of changes of the environment
  variables: all that the clients of the cloud do.
\<close>

locale world_inv = transition_inv R
  for R :: "'x world_scheme \<Rightarrow> 'x world_scheme \<Rightarrow> bool" +
  fixes P :: "call \<Rightarrow> bool"
  assumes R_call: "P c \<Longrightarrow> R s (s\<lparr>trace := trace s @ [c]\<rparr>)"
    and R_osenv: "R s (s\<lparr>osenv := e\<rparr>)"
begin

lemma keeps_do_call [keeps_intros]: "P c \<Longrightarrow> keeps R (do_call c answer)"
  by (simp add: keeps_def do_call_run R_call)

lemma keeps_osenv [keeps_intros]: "keeps R (modify (\<lambda>s. s\<lparr>osenv := f s\<rparr>))"
  by (simp add: keeps_def modify_run R_osenv)

end

interpretation calls: world_inv "calls_in P" P for P :: "call \<Rightarrow> bool"
  by unfold_locales (auto simp: calls_in_def)

lemma keeps_modify_trace:
  "(\<And>s. trace (g s) = trace s) \<Longrightarrow> keeps (calls_in P) (modify g)"
  by (auto simp: keeps_def calls_in_def modify_run)

lemma keeps_calls_mono:
  "keeps (calls_in P) m \<Longrightarrow> (\<And>c. P c \<Longrightarrow> Q c) \<Longrightarrow> keeps (calls_in Q) m"
  by (fastforce simp: keeps_def calls_in_def list_all_iff)

text \<open>
  Programs on the shared part of the state leave everything a component has added to it alone.
\<close>

definition same_rest :: "'x world_scheme \<Rightarrow> 'x world_scheme \<Rightarrow> bool" where
  "same_rest s t \<longleftrightarrow> world.more t = world.more s"

interpretation rest: world_inv same_rest "\<lambda>_. True"
  by unfold_locales (simp_all add: same_rest_def)

text \<open>The calls that change something in the cloud.\<close>

fun cloud_write :: "call \<Rightarrow> bool" where
  "cloud_write (CallCreateInstance _ _) = True"
| "cloud_write (CallDeleteInstance _ _) = True"
| "cloud_write (CallCreatePoolMember _ _ _ _) = True"
| "cloud_write (CallDeletePoolMember _ _ _) = True"
| "cloud_write _ = False"

section \<open>How many calls a program makes\<close>

definition at_most :: "(call \<Rightarrow> bool) \<Rightarrow> nat \<Rightarrow> ('x world_scheme, 'a) prog \<Rightarrow> bool" where
  "at_most P n m \<longleftrightarrow> (\<forall>s. \<exists>tr. trace (snd (m s)) = trace s @ tr \<and> length (filter P tr) \<le> n)"

lemma at_mostD: "at_most P n m \<Longrightarrow> m s = (r, t) \<Longrightarrow> \<exists>tr. trace t = trace s @ tr \<and> length (filter P tr) \<le> n"
  by (metis at_most_def snd_conv)

lemma at_most_mono: "at_most P a m \<Longrightarrow> a \<le> b \<Longrightarrow> at_most P b m"
  unfolding at_most_def by (meson le_trans)

lemma at_most_none: "keeps (calls_in (\<lambda>c. \<not> P c)) m \<Longrightarrow> at_most P 0 m"
  by (fastforce simp: keeps_def calls_in_def at_most_def list_all_iff filter_empty_conv)

lemma at_most_do_call: "at_most P 1 (do_call c answer)"
  by (simp add: at_most_def do_call_run)

lemma at_most_bnd:
  assumes "at_most P a m" and "\<And>x. at_most P b (f x)"
  shows "at_most P (a + b) (bnd m f)"
  unfolding at_most_def
proof
  fix s
  obtain r u where m: "m s = (r, u)" by (cases "m s")
  obtain tr where tr: "trace u = trace s @ tr" "length (filter P tr) \<le> a"
    using at_mostD [OF assms(1) m] by blast
  show "\<exists>tr. trace (snd (bnd m f s)) = trace s @ tr \<and> length (filter P tr) \<le> a + b"
  proof (cases r)
    case (Val x)
    obtain tr' where "trace (snd (f x u)) = trace u @ tr'" "length (filter P tr') \<le> b"
      using assms(2) [of x] unfolding at_most_def by blast
    with tr m Val show ?thesis
      by (intro exI [of _ "tr @ tr'"]) (simp add: bnd_run)
  qed (use tr m in \<open>auto simp: bnd_run intro!: exI [of _ tr]\<close>)
qed

lemma at_most_bndE:
  assumes "at_most P a m" and "\<And>x. at_most P b (f x)"
  shows "at_most P (a + b) (bndE m f)"
  unfolding bndE_def
proof (intro at_most_bnd assms(1))
  show "at_most P b (case r of Inl e \<Rightarrow> fail e | Inr x \<Rightarrow> f x)" for r
    by (cases r) (auto intro: assms(2) at_most_mono [OF at_most_none [OF calls.keeps_fail]])
qed

lemma at_most_onErr:
  assumes "at_most P a m" and "\<And>e. at_most P b (h e)"
  shows "at_most P (a + b) (onErr m h)"
  unfolding onErr_def
proof (intro at_most_bnd assms(1))
  show "at_most P b (case r of Inl e \<Rightarrow> h e | Inr x \<Rightarrow> ok x)" for r
    by (cases r) (auto intro: assms(2) at_most_mono [OF at_most_none [OF calls.keeps_ok]])
qed

lemma at_most_mapErr: "at_most P a m \<Longrightarrow> at_most P a (mapErr g m)"
  unfolding mapErr_def
  by (rule at_most_mono, rule at_most_onErr, assumption, rule at_most_none, rule calls.keeps_fail) simp

lemma at_most_leaf: "keeps (calls_in (\<lambda>c. \<not> P c)) m \<Longrightarrow> at_most P n m"
  by (rule at_most_mono [OF at_most_none]) simp_all

lemma at_most_case_sum:
  "(\<And>e. at_most P n (f e)) \<Longrightarrow> (\<And>x. at_most P n (g x)) \<Longrightarrow> at_most P n (case r of Inl e \<Rightarrow> f e | Inr x \<Rightarrow> g x)"
  by (cases r) simp_all

lemma at_most_if: "at_most P n f \<Longrightarrow> at_most P n g \<Longrightarrow> at_most P n (if b then f else g)"
  by simp

lemma at_most_case_option:
  "at_most P n f \<Longrightarrow> (\<And>x. at_most P n (g x)) \<Longrightarrow> at_most P n (case r of None \<Rightarrow> f | Some x \<Rightarrow> g x)"
  by (cases r) simp_all

lemmas at_most_intros = at_most_do_call at_most_bnd at_most_bndE at_most_onErr at_most_mapErr
  at_most_case_sum at_most_if at_most_case_option

end
