(* ===== verification/Paging.thy ===== *)
theory Paging
  imports World
begin

text \<open>
  \<open>pkg/utils/utils.go\<close>: \<open>getStartToken\<close> and \<open>PagingHelper\<close>, the loop that follows the next
  links of a paged listing. The loop of the source has no bound; the model runs it with fuel and
  answers \<open>OutOfFuel\<close> when the fuel is used up. The locale \<open>page_source\<close> is the contract between the
  loop and the callbacks it is given: a callback appends one page to the list it captures and hands
  back the page's next link. It is interpreted on the callbacks of \<open>GetCloudServiceInstances\<close>,
  \<open>GetCloudServiceInstanceByName\<close> and \<open>getLoadBalancers\<close>, in the theories that define them.
\<close>

section \<open>Definitions\<close>

definition getStartToken :: "env \<Rightarrow> string \<Rightarrow> goerr + string" where
  "getStartToken E nextURLS =
     (case url_Parse (e_ip_literal E) nextURLS of
        Inl err \<Rightarrow> Inl (Errorf_w ''could not parse next url for getting next resources '' err)
      | Inr nextURL \<Rightarrow> Inr (Query_Get nextURL ''start''))"

fun PagingLoop ::
    "env \<Rightarrow> (string \<Rightarrow> ('s, bool \<times> string) errprog) \<Rightarrow> nat \<Rightarrow> string \<Rightarrow> ('s, unit) errprog" where
  "PagingLoop E f 0 start = out_of_fuel"
| "PagingLoop E f (Suc fuel) start =
     bndE (f start) (\<lambda>(isDone, nextURL).
       if isDone then ok ()
       else if nextURL \<noteq> [] then
         (case getStartToken E nextURL of
            Inl err \<Rightarrow> fail err
          | Inr start' \<Rightarrow> PagingLoop E f fuel start')
       else ok ())"

definition PagingHelper :: "env \<Rightarrow> (string \<Rightarrow> ('s, bool \<times> string) errprog) \<Rightarrow> ('s, unit) errprog" where
  "PagingHelper E f = PagingLoop E f (e_fuel E) []"

text \<open>\<open>if start != "" { options.Start = &start }\<close>: the first request carries no token.\<close>

definition start_option :: "string \<Rightarrow> string option" where
  "start_option start = (if start \<noteq> [] then Some start else None)"

text \<open>
  The callbacks capture a list variable of their caller: their state is that list beside the
  caller's state. \<open>with_list\<close> declares the variable, \<open>outer\<close> runs a statement that does not touch
  it.
\<close>

definition outer :: "('s, 'a) prog \<Rightarrow> ('i list \<times> 's, 'a) prog" where
  "outer m = (\<lambda>(acc, s). case m s of (r, t) \<Rightarrow> (r, (acc, t)))"

definition with_list :: "('i list \<times> 's, unit) errprog \<Rightarrow> ('s, 'i list) errprog" where
  "with_list m = (\<lambda>s. case m ([], s) of
      (Val (Inr _), (acc, t)) \<Rightarrow> (Val (Inr acc), t)
    | (Val (Inl e), (acc, t)) \<Rightarrow> (Val (Inl e), t)
    | (Panic, (acc, t)) \<Rightarrow> (Panic, t)
    | (OutOfFuel, (acc, t)) \<Rightarrow> (OutOfFuel, t))"

lemma getStartToken_no_query:
  "CHR ''?'' \<notin> set link \<Longrightarrow> getStartToken E link = Inr start \<Longrightarrow> start = []"
  by (auto simp: getStartToken_def dest: url_Parse_no_query split: sum.splits)

section \<open>Chains of pages\<close>

text \<open>
  The pages a listing has to serve: \<open>page_chain E fetch n start s items t\<close> says that from the
  start token \<open>start\<close> the server hands out \<open>n\<close> pages, each one naming the next by a link whose
  start token the next request uses, the last one naming none; \<open>items\<close> are the items of all the
  pages in order.
\<close>

inductive page_chain ::
    "env \<Rightarrow> (string \<Rightarrow> ('s, 'i list \<times> string option) errprog) \<Rightarrow> nat \<Rightarrow> string \<Rightarrow> 's \<Rightarrow> 'i list \<Rightarrow> 's \<Rightarrow> bool"
  for E fetch where
  last_page: "fetch start s = (Val (Inr (items, None)), t) \<Longrightarrow> page_chain E fetch (Suc 0) start s items t"
| next_page: "fetch start s = (Val (Inr (items, Some link)), u) \<Longrightarrow> getStartToken E link = Inr start' \<Longrightarrow>
    page_chain E fetch n start' u rest t \<Longrightarrow> page_chain E fetch (Suc n) start s (items @ rest) t"

inductive_cases page_chain_SucE: "page_chain E fetch (Suc n) start s items t"
inductive_cases page_chain_0E [elim!]: "page_chain E fetch 0 start s items t"

section \<open>The contract of the callbacks\<close>

locale page_source =
  fixes fetch :: "string \<Rightarrow> ('s, 'i list \<times> string option) errprog"
    and f :: "string \<Rightarrow> ('i list \<times> 's, bool \<times> string) errprog"
  assumes f_page: "fetch start s = (Val (Inr (items, link)), t) \<Longrightarrow>
      f start (acc, s) =
        (Val (Inr (case link of None \<Rightarrow> (True, []) | Some u \<Rightarrow> (False, u))), (acc @ items, t))"
    and f_error: "fetch start s = (Val (Inl e), t) \<Longrightarrow> \<exists>acc'. f start (acc, s) = (Val (Inl e), (acc', t))"
    and f_panic: "fetch start s = (Panic, t) \<Longrightarrow> \<exists>acc'. f start (acc, s) = (Panic, (acc', t))"
    and fetch_fuel: "fetch start s \<noteq> (OutOfFuel, t)"
    and link_nonempty: "fetch start s \<noteq> (Val (Inr (items, Some [])), t)"
begin

lemma PagingLoop_complete:
  assumes "page_chain E fetch n start s items t" and "n \<le> fuel"
  shows "PagingLoop E f fuel start (acc, s) = (Val (Inr ()), (acc @ items, t))"
  using assms
proof (induction arbitrary: acc fuel rule: page_chain.induct)
  case (last_page start s items t)
  then obtain k where "fuel = Suc k" by (cases fuel) auto
  with last_page show ?case by (simp add: prog_simps f_page)
next
  case (next_page start s items link u start' n rest t)
  then obtain k where k: "fuel = Suc k" "n \<le> k" by (cases fuel) auto
  have "link \<noteq> []" using next_page.hyps(1) link_nonempty by metis
  with next_page k show ?case by (simp add: prog_simps f_page)
qed

lemma PagingLoop_sound:
  assumes "PagingLoop E f fuel start (acc, s) = (Val (Inr ()), (acc', t))"
  shows "\<exists>n items. n \<le> fuel \<and> page_chain E fetch n start s items t \<and> acc' = acc @ items"
  using assms
proof (induction fuel arbitrary: start acc s)
  case 0
  then show ?case by (simp add: prog_simps)
next
  case (Suc k)
  obtain r u where fetch: "fetch start s = (r, u)" by (cases "fetch start s")
  show ?case
  proof (cases r)
    case Panic
    with f_panic [of start s u acc] Suc.prems fetch show ?thesis by (auto simp: prog_simps)
  next
    case OutOfFuel
    with fetch fetch_fuel show ?thesis by metis
  next
    case (Val v)
    show ?thesis
    proof (cases v)
      case (Inl e)
      with f_error [of start s e u acc] Suc.prems fetch Val show ?thesis by (auto simp: prog_simps)
    next
      case (Inr p)
      obtain items link where p: "p = (items, link)" by (cases p)
      show ?thesis
      proof (cases link)
        case None
        with Suc.prems fetch Val Inr p have "u = t" "acc' = acc @ items"
          by (simp_all add: prog_simps f_page)
        moreover have "page_chain E fetch (Suc 0) start s items u"
          using fetch Val Inr p None by (simp add: last_page)
        ultimately show ?thesis by (metis Suc_le_mono le0)
      next
        case (Some l)
        have ne: "l \<noteq> []" using fetch Val Inr p Some link_nonempty by metis
        have step: "PagingLoop E f (Suc k) start (acc, s) =
            (case getStartToken E l of Inl err \<Rightarrow> (Val (Inl err), (acc @ items, u))
             | Inr start' \<Rightarrow> PagingLoop E f k start' (acc @ items, u))"
          using fetch Val Inr p Some ne by (simp add: prog_simps f_page split: sum.split)
        then obtain start' where tok: "getStartToken E l = Inr start'"
            and rec: "PagingLoop E f k start' (acc @ items, u) = (Val (Inr ()), (acc', t))"
          using Suc.prems by (auto split: sum.splits)
        from Suc.IH [OF rec] obtain n rest where
          "n \<le> k" "page_chain E fetch n start' u rest t" "acc' = (acc @ items) @ rest" by blast
        moreover have "page_chain E fetch (Suc n) start s (items @ rest) t"
          using fetch Val Inr p Some tok calculation(2) by (simp add: next_page)
        ultimately show ?thesis by (metis Suc_le_mono append_assoc)
      qed
    qed
  qed
qed

text \<open>
  The loop succeeds exactly when the server serves a chain of pages that the fuel covers, and then
  it has collected all the items of the chain in order.
\<close>

lemma PagingHelper_iff:
  "PagingHelper E f ([], s) = (Val (Inr ()), (items, t)) \<longleftrightarrow>
   (\<exists>n \<le> e_fuel E. page_chain E fetch n [] s items t)"
  unfolding PagingHelper_def
  using PagingLoop_complete [where acc = "[]"] PagingLoop_sound [where acc = "[]"] by fastforce

lemma with_list_PagingHelper_iff:
  "with_list (PagingHelper E f) s = (Val (Inr items), t) \<longleftrightarrow>
   (\<exists>n \<le> e_fuel E. page_chain E fetch n [] s items t)"
  unfolding PagingHelper_iff [symmetric] with_list_def
  by (auto split: prod.splits outcome.splits sum.splits)

text \<open>
  If whatever page the empty token gets names a link whose start token is empty again, the loop
  never ends: no amount of fuel is enough.
\<close>

lemma PagingLoop_diverges:
  assumes "\<And>s. \<exists>items link t. fetch [] s = (Val (Inr (items, Some link)), t) \<and> getStartToken E link = Inr []"
  shows "fst (PagingLoop E f fuel [] (acc, s)) = OutOfFuel"
proof (induction fuel arbitrary: acc s)
  case 0
  then show ?case by (simp add: prog_simps)
next
  case (Suc k)
  obtain items link t where p: "fetch [] s = (Val (Inr (items, Some link)), t)"
      and tok: "getStartToken E link = Inr []"
    using assms by blast
  have "link \<noteq> []" using p link_nonempty by metis
  with p tok Suc.IH [of "acc @ items" t] show ?case by (simp add: prog_simps f_page)
qed

lemma PagingHelper_diverges:
  assumes "\<And>s. \<exists>items link t. fetch [] s = (Val (Inr (items, Some link)), t) \<and> getStartToken E link = Inr []"
  shows "fst (with_list (PagingHelper E f) s) = OutOfFuel"
  using PagingLoop_diverges [of E, OF assms, of "e_fuel E" "[]" s]
  unfolding with_list_def PagingHelper_def by (auto split: prod.splits outcome.splits)

end

section \<open>Transition invariants of the loop\<close>

context transition_inv
begin

lemma lifted: "transition_inv (\<lambda>p q. R (snd p) (snd q))"
  by unfold_locales (auto intro: R_refl R_trans)

lemmas lifted_intros = transition_inv.keeps_out_of_fuel [OF lifted] transition_inv.keeps_bnd [OF lifted]
  transition_inv.keeps_bndE [OF lifted] transition_inv.keeps_case_prod [OF lifted]
  transition_inv.keeps_if [OF lifted] transition_inv.keeps_ok [OF lifted]
  transition_inv.keeps_case_sum [OF lifted] transition_inv.keeps_case_option [OF lifted]
  transition_inv.keeps_fail [OF lifted] transition_inv.keeps_deref [OF lifted]

lemma keeps_PagingLoop:
  assumes "\<And>start. keeps (\<lambda>p q. R (snd p) (snd q)) (f start)"
  shows "keeps (\<lambda>p q. R (snd p) (snd q)) (PagingLoop E f fuel start)"
proof (induction fuel arbitrary: start)
  case 0
  then show ?case unfolding PagingLoop.simps by (intro lifted_intros)
next
  case (Suc n)
  then show ?case unfolding PagingLoop.simps by (intro lifted_intros assms)
qed

lemma keeps_with_list: "keeps (\<lambda>p q. R (snd p) (snd q)) m \<Longrightarrow> keeps R (with_list m)"
proof (rule keepsI)
  fix s r t
  assume k: "keeps (\<lambda>p q. R (snd p) (snd q)) m" and run: "with_list m s = (r, t)"
  obtain o1 acc u where m: "m ([], s) = (o1, (acc, u))" by (cases "m ([], s)") auto
  have "u = t" using run m by (auto simp: with_list_def split: outcome.splits sum.splits)
  with keepsD [OF k m] show "R s t" by simp
qed

lemma keeps_outer: "keeps R m \<Longrightarrow> keeps (\<lambda>p q. R (snd p) (snd q)) (outer m)"
  by (auto simp: keeps_def outer_def split: prod.splits) (metis snd_conv)

lemma keeps_append: "keeps (\<lambda>p q. R (snd p) (snd q)) (modify (\<lambda>(acc, s). (acc @ xs, s)))"
  by (auto simp: keeps_def modify_run R_refl)

lemma keeps_paged [keeps_intros]:
  "(\<And>start. keeps (\<lambda>p q. R (snd p) (snd q)) (f start)) \<Longrightarrow> keeps R (with_list (PagingHelper E f))"
  unfolding PagingHelper_def by (intro keeps_with_list keeps_PagingLoop)

end

end
