(* ===== verification/PowerVS_Client.thy ===== *)
theory PowerVS_Client
  imports Paging
begin

text \<open>
  \<open>pkg/client/powervs_client.go\<close>: the Power VS client. A client holds its region and zone, the ID
  of the service instance its Power VS SDK clients were built for (none in the minimal client, whose
  SDK pointers are nil), the URL of its VPC client (none in the minimal client) and of its resource
  controller. The SDK clients themselves are functions of \<open>env\<close>.
\<close>

section \<open>The client and its delegating methods\<close>

record powerVSClient =
  cl_region :: string
  cl_zone :: string
  cl_InstanceID :: "string option"
  cl_VPC :: "string option"
  cl_rcURL :: string

definition FormatProviderID :: "string \<Rightarrow> string \<Rightarrow> string \<Rightarrow> string \<Rightarrow> string" where
  "FormatProviderID region zone serviceInstanceID vmInstanceID =
     ''ibmpowervs://'' @ region @ ''/'' @ zone @ ''/'' @ serviceInstanceID @ ''/'' @ vmInstanceID"

definition GetZone :: "powerVSClient \<Rightarrow> string" where
  "GetZone p = cl_zone p"

definition GetRegion :: "powerVSClient \<Rightarrow> string" where
  "GetRegion p = cl_region p"

definition GetImages :: "env \<Rightarrow> powerVSClient \<Rightarrow> ('x world_scheme, ImageReference list option) errprog" where
  "GetImages E p = bnd (deref (cl_InstanceID p)) (\<lambda>sid. do_call (CallGetImages sid) (\<lambda>h. e_GetImages E h sid))"

definition GetNetworks :: "env \<Rightarrow> powerVSClient \<Rightarrow> ('x world_scheme, NetworkReference list option) errprog" where
  "GetNetworks E p = bnd (deref (cl_InstanceID p)) (\<lambda>sid. do_call (CallGetNetworks sid) (\<lambda>h. e_GetNetworks E h sid))"

definition DeleteInstance :: "env \<Rightarrow> powerVSClient \<Rightarrow> string \<Rightarrow> ('x world_scheme, unit) errprog" where
  "DeleteInstance E p ident = bnd (deref (cl_InstanceID p))
     (\<lambda>sid. do_call (CallDeleteInstance sid ident) (\<lambda>h. e_DeleteInstance E h sid ident))"

definition CreateInstance ::
    "env \<Rightarrow> powerVSClient \<Rightarrow> PVMInstanceCreate \<Rightarrow> ('x world_scheme, PVMInstance list option) errprog" where
  "CreateInstance E p createParams = bnd (deref (cl_InstanceID p))
     (\<lambda>sid. do_call (CallCreateInstance sid createParams) (\<lambda>h. e_CreateInstance E h sid createParams))"

definition GetInstance :: "env \<Rightarrow> powerVSClient \<Rightarrow> string \<Rightarrow> ('x world_scheme, PVMInstance option) errprog" where
  "GetInstance E p ident = bnd (deref (cl_InstanceID p))
     (\<lambda>sid. do_call (CallGetInstance sid ident) (\<lambda>h. e_GetInstance E h sid ident))"

definition GetInstances ::
    "env \<Rightarrow> powerVSClient \<Rightarrow> ('x world_scheme, PVMInstanceReference list option) errprog" where
  "GetInstances E p = bnd (deref (cl_InstanceID p)) (\<lambda>sid. do_call (CallGetInstances sid) (\<lambda>h. e_GetInstances E h sid))"

definition GetInstanceByName :: "env \<Rightarrow> powerVSClient \<Rightarrow> string \<Rightarrow> ('x world_scheme, PVMInstance option) errprog" where
  "GetInstanceByName E p name =
     bndE (mapErr (Errorf_v ''failed to get the instance list, Error: '') (GetInstances E p)) (\<lambda>l.
     bnd (deref l) (\<lambda>instances.
     bnd (findP (\<lambda>i. bnd (deref (ref_ServerName i)) (\<lambda>n. ret (n = name))) instances) (\<lambda>found.
       case found of
         Some i \<Rightarrow> bnd (deref (ref_PvmInstanceID i)) (GetInstance E p)
       | None \<Rightarrow> fail ErrorInstanceNotFound)))"

definition GetDHCPServers :: "env \<Rightarrow> powerVSClient \<Rightarrow> ('x world_scheme, DHCPServer list) errprog" where
  "GetDHCPServers E p = bnd (deref (cl_InstanceID p))
     (\<lambda>sid. do_call (CallGetDHCPServers sid) (\<lambda>h. e_GetDHCPServers E h sid))"

definition GetDHCPServerByID ::
    "env \<Rightarrow> powerVSClient \<Rightarrow> string \<Rightarrow> ('x world_scheme, DHCPServerDetail option) errprog" where
  "GetDHCPServerByID E p ident = bnd (deref (cl_InstanceID p))
     (\<lambda>sid. do_call (CallGetDHCPServer sid ident) (\<lambda>h. e_GetDHCPServer E h sid ident))"

definition ListLoadBalancers ::
    "env \<Rightarrow> powerVSClient \<Rightarrow> string option \<Rightarrow> ('x world_scheme, LoadBalancerCollection option) errprog" where
  "ListLoadBalancers E p start = bnd (deref (cl_VPC p))
     (\<lambda>_. do_call (CallListLoadBalancers start) (\<lambda>h. e_ListLoadBalancers E h start))"

definition GetLoadBalancer ::
    "env \<Rightarrow> powerVSClient \<Rightarrow> string \<Rightarrow> ('x world_scheme, LoadBalancer option) errprog" where
  "GetLoadBalancer E p ident = bnd (deref (cl_VPC p))
     (\<lambda>_. do_call (CallGetLoadBalancer ident) (\<lambda>h. e_GetLoadBalancer E h ident))"

definition ListLoadBalancerPoolMembers ::
    "env \<Rightarrow> powerVSClient \<Rightarrow> string \<Rightarrow> string \<Rightarrow> ('x world_scheme, LoadBalancerPoolMember list option) errprog" where
  "ListLoadBalancerPoolMembers E p lb pool = bnd (deref (cl_VPC p))
     (\<lambda>_. do_call (CallListPoolMembers lb pool) (\<lambda>h. e_ListPoolMembers E h lb pool))"

definition CreateLoadBalancerPoolMember ::
    "env \<Rightarrow> powerVSClient \<Rightarrow> string \<Rightarrow> string \<Rightarrow> int \<Rightarrow> string \<Rightarrow> ('x world_scheme, unit) errprog" where
  "CreateLoadBalancerPoolMember E p lb pool port address = bnd (deref (cl_VPC p))
     (\<lambda>_. do_call (CallCreatePoolMember lb pool port address) (\<lambda>h. e_CreatePoolMember E h lb pool port address))"

definition DeleteLoadBalancerPoolMember ::
    "env \<Rightarrow> powerVSClient \<Rightarrow> string \<Rightarrow> string \<Rightarrow> string \<Rightarrow> ('x world_scheme, unit) errprog" where
  "DeleteLoadBalancerPoolMember E p lb pool member = bnd (deref (cl_VPC p))
     (\<lambda>_. do_call (CallDeletePoolMember lb pool member) (\<lambda>h. e_DeletePoolMember E h lb pool member))"

section \<open>Listing the service instances\<close>

text \<open>The SDK's \<open>core.GetQueryParam\<close> and \<open>ResourceInstancesList.GetNextStart\<close>, as vendored.\<close>

definition GetQueryParam :: "env \<Rightarrow> string \<Rightarrow> string \<Rightarrow> goerr + string option" where
  "GetQueryParam E urlStr param =
     (if urlStr = [] then Inr None
      else case url_Parse (e_ip_literal E) urlStr of
        Inl err \<Rightarrow> Inl (WrapError (Error err) err)
      | Inr u \<Rightarrow>
          (case ParseQuery (RawQuery u) of (query, qerr) \<Rightarrow>
             case qerr of
               Some m \<Rightarrow> Inl (WrapError m (PlainError m))
             | None \<Rightarrow> let v = Values_Get query param in Inr (if v = [] then None else Some v)))"

definition GetNextStart :: "env \<Rightarrow> ResourceInstancesList \<Rightarrow> goerr + string option" where
  "GetNextStart E resp =
     (case NextURL resp of None \<Rightarrow> Inr None | Some u \<Rightarrow> GetQueryParam E u ''start'')"

definition ListResourceInstances ::
    "env \<Rightarrow> string option \<Rightarrow> string option \<Rightarrow> ('x world_scheme, ResourceInstancesList option) errprog" where
  "ListResourceInstances E name start =
     do_call (CallListResourceInstances name start) (\<lambda>h. e_ListResourceInstances E h name start)"

text \<open>
  The callback of the two listings; \<open>name\<close> is the filter of \<open>GetCloudServiceInstanceByName\<close>, which
  \<open>GetCloudServiceInstances\<close> does not set.
\<close>

definition resource_page ::
    "env \<Rightarrow> string option \<Rightarrow> string \<Rightarrow> (ResourceInstance list \<times> 'x world_scheme, bool \<times> string) errprog" where
  "resource_page E name start =
     bndE (outer (ListResourceInstances E name (start_option start))) (\<lambda>r.
       case r of
         Some serviceInstances \<Rightarrow>
           bnd (modify (\<lambda>(acc, s). (acc @ Resources serviceInstances, s))) (\<lambda>_.
             case GetNextStart E serviceInstances of
               Inl err \<Rightarrow> fail err
             | Inr None \<Rightarrow> ok (True, [])
             | Inr (Some nextURL) \<Rightarrow> ok (False, nextURL))
       | None \<Rightarrow> ok (True, []))"

definition GetCloudServiceInstances :: "env \<Rightarrow> ('x world_scheme, ResourceInstance list) errprog" where
  "GetCloudServiceInstances E =
     bndE (mapErr (Errorf_v ''error listing loadbalancer '')
            (with_list (PagingHelper E (resource_page E None)))) (\<lambda>serviceInstancesList.
       if serviceInstancesList = [] then fail (PlainError ''no service instance is retrieved'')
       else ok serviceInstancesList)"

definition GetCloudServiceInstanceByName :: "env \<Rightarrow> string \<Rightarrow> ('x world_scheme, ResourceInstance) errprog" where
  "GetCloudServiceInstanceByName E name =
     bndE (mapErr (Errorf_v ''error listing service instances '')
            (with_list (PagingHelper E (resource_page E (Some name))))) (\<lambda>serviceInstancesList.
       case serviceInstancesList of
         [] \<Rightarrow> fail (PlainError (''does exist any cloud service instance with name '' @ name))
       | [i] \<Rightarrow> ok i
       | _ \<Rightarrow> fail (PlainError (''there exist more than one service instance ID with with same name ''
                  @ name @ '', Try setting serviceInstance.ID'')))"

section \<open>Credentials and endpoints\<close>

definition DefaultCredentialNamespace :: string where
  "DefaultCredentialNamespace = ''openshift-machine-api''"

definition DefaultCredentialSecret :: string where
  "DefaultCredentialSecret = ''powervs-credentials''"

definition InstanceStateNameShutoff :: string where
  "InstanceStateNameShutoff = ''SHUTOFF''"

definition InstanceStateNameActive :: string where
  "InstanceStateNameActive = ''ACTIVE''"

definition InstanceStateNameBuild :: string where
  "InstanceStateNameBuild = ''BUILD''"

definition InstanceBuildReason :: string where
  "InstanceBuildReason = ''InstanceBuildState''"

definition globalInfrastuctureName :: string where
  "globalInfrastuctureName = ''cluster''"

definition customIamEndpointName :: string where
  "customIamEndpointName = ''IAM''"

definition customRcEndpointName :: string where
  "customRcEndpointName = ''ResourceController''"

definition customVpcEndpointName :: string where
  "customVpcEndpointName = ''VPC''"

definition powerIaaSCustomEndpointName :: string where
  "powerIaaSCustomEndpointName = ''Power''"

definition endPointKeyToEnvNameMap :: "(string \<times> string) list" where
  "endPointKeyToEnvNameMap =
     [(''IAM'', ''IBMCLOUD_IAM_API_ENDPOINT''),
      (''ResourceController'', ''IBMCLOUD_RESOURCE_CONTROLLER_API_ENDPOINT''),
      (''Power'', ''IBMCLOUD_POWER_API_ENDPOINT'')]"

definition apiKeyFromSecret :: "strmap \<Rightarrow> goerr + string" where
  "apiKeyFromSecret data =
     (case data ''ibmcloud_api_key'' of
        Some k \<Rightarrow> if k \<noteq> [] then Inr k else Inl (PlainError ''invalid secret for powervs credentials'')
      | None \<Rightarrow> Inl (PlainError ''invalid secret for powervs credentials''))"

definition GetAPIKey :: "env \<Rightarrow> string \<Rightarrow> string \<Rightarrow> ('x world_scheme, string) errprog" where
  "GetAPIKey E secretName namespace =
     (if secretName = [] then fail (MachineError InvalidConfiguration ''empty secret name'')
      else
        bndE (onErr (do_call (KubeGetSecret namespace secretName) (\<lambda>h. e_GetSecret E h namespace secretName))
               (\<lambda>err. if IsNotFound err
                  then fail (MachineError InvalidConfiguration (''powervs credentials secret '' @ namespace
                         @ ''/'' @ secretName @ '': '' @ Error err @ '' not found''))
                  else fail err)) (\<lambda>secret.
          case apiKeyFromSecret secret of
            Inl err \<Rightarrow> fail (Errorf_v ''failed to create shared credentials file from Secret: '' err)
          | Inr apikey \<Rightarrow> ok apikey))"

fun customEndpoints ::
    "env \<Rightarrow> PowerVSServiceEndpoint list \<Rightarrow> (string \<times> string) list \<Rightarrow> goerr + (string \<times> string) list" where
  "customEndpoints E [] m = Inr m"
| "customEndpoints E (e # es) m =
     (if ep_Name e = powerIaaSCustomEndpointName then
        (case url_Parse (e_ip_literal E) (ep_URL e) of
           Inl err \<Rightarrow> Inl err
         | Inr peURL \<Rightarrow> customEndpoints E es (AList.update (ep_Name e) (Host peURL) m))
      else customEndpoints E es (AList.update (ep_Name e) (ep_URL e) m))"

definition resolveEndpoints :: "env \<Rightarrow> ('x world_scheme, (string \<times> string) list) errprog" where
  "resolveEndpoints E =
     bndE (do_call (KubeGetInfrastructure globalInfrastuctureName)
            (\<lambda>h. e_GetInfrastructure E h globalInfrastuctureName)) (\<lambda>infra.
       case infra_PlatformStatus infra of
         Some (Some powervs) \<Rightarrow>
           (case customEndpoints E (pvs_ServiceEndpoints powervs) [] of
              Inl err \<Rightarrow> fail err
            | Inr m \<Rightarrow> ok m)
       | _ \<Rightarrow> ok [])"

definition setEnvironmentVariables :: "string \<Rightarrow> string \<Rightarrow> ('x world_scheme, unit) errprog" where
  "setEnvironmentVariables key val =
     (if key = [] \<or> CHR ''='' \<in> set key \<or> CHR 0x00 \<in> set key \<or> CHR 0x00 \<in> set val
      then fail (PlainError ''setenv: invalid argument'')
      else bnd (modify (\<lambda>s. s\<lparr>osenv := (osenv s)(key \<mapsto> val)\<rparr>)) ok)"

definition getEnvironmentalVariableValue :: "string \<Rightarrow> ('x world_scheme, string) prog" where
  "getEnvironmentalVariableValue key = gets (\<lambda>s. case osenv s key of Some v \<Rightarrow> v | None \<Rightarrow> [])"

definition setCustomEndpoints :: "(string \<times> string) list \<Rightarrow> string list \<Rightarrow> ('x world_scheme, unit) errprog" where
  "setCustomEndpoints customEndpointsMap keys =
     forE (\<lambda>key. case map_of endPointKeyToEnvNameMap key of
         None \<Rightarrow> ok ()
       | Some envName \<Rightarrow>
           (case map_of customEndpointsMap key of
              Some val \<Rightarrow> setEnvironmentVariables envName val
            | None \<Rightarrow> ok ())) keys"

definition getCustomEndPointKeys :: "env \<Rightarrow> (string \<times> string) list \<Rightarrow> ('x world_scheme, string list) prog" where
  "getCustomEndPointKeys E customEndpointsMap =
     gets (\<lambda>s. map fst (range_order (e_rank E (trace s)) customEndpointsMap))"

definition getAndSetServiceEndpoints :: "env \<Rightarrow> ('x world_scheme, unit) errprog" where
  "getAndSetServiceEndpoints E =
     bndE (resolveEndpoints E) (\<lambda>customEndpointsMap.
       if length customEndpointsMap > 0 then
         bnd (getCustomEndPointKeys E customEndpointsMap) (setCustomEndpoints customEndpointsMap)
       else ok ())"

section \<open>Building clients\<close>

text \<open>\<open>endpoints[key]\<close>: a missing key reads as the empty string.\<close>

definition endpoint :: "(string \<times> string) list \<Rightarrow> string \<Rightarrow> string" where
  "endpoint endpoints key = (case map_of endpoints key of Some v \<Rightarrow> v | None \<Rightarrow> [])"

definition getAccount :: "env \<Rightarrow> string \<Rightarrow> string \<Rightarrow> ('x world_scheme, string) errprog" where
  "getAccount E apikey url =
     bndE (do_call (CallAuthenticate apikey url) (\<lambda>h. e_Authenticate E h apikey url)) (\<lambda>header.
     bnd (if HasPrefix header ''Bearer'' then (if length header < 7 then panic else ret (drop 7 header))
          else ret header) (\<lambda>bearerToken.
       case e_jwt_Parse E bearerToken of (bss, err) \<Rightarrow>
         case err of
           Some e \<Rightarrow> if Contains (Error e) ''key is of invalid type'' then bnd (deref bss) ok else fail e
         | None \<Rightarrow> bnd (deref bss) ok))"

definition Wrapf :: "goerr \<Rightarrow> string \<Rightarrow> goerr" where
  "Wrapf err message = WrapError (message @ '': '' @ Error err) err"

text \<open>The constructors of the SDK clients, with the options the source gives them.\<close>

definition NewSDKClient :: "env \<Rightarrow> string \<Rightarrow> string list \<Rightarrow> ('x world_scheme, unit) errprog" where
  "NewSDKClient E kind options = do_call (CallNewSDKClient kind options) (\<lambda>h. e_NewSDKClient E h kind options)"

definition NewValidatedClient ::
    "env \<Rightarrow> string \<Rightarrow> string \<Rightarrow> string \<Rightarrow> bool \<Rightarrow> ('x world_scheme, powerVSClient) errprog" where
  "NewValidatedClient E secretName namespace cloudInstanceID debug =
     bndE (GetAPIKey E secretName namespace) (\<lambda>apikey.
     bndE (getAndSetServiceEndpoints E) (\<lambda>_.
     bndE (mapErr (\<lambda>err. Wrapf err ''failed to resolve endpoint overrides'') (resolveEndpoints E)) (\<lambda>endpoints.
     let iamURL = endpoint endpoints customIamEndpointName;
         rcURL = endpoint endpoints customRcEndpointName in
     bndE (mapErr (\<lambda>err. Wrapf err ''failed to create resource controller v2'')
            (NewSDKClient E ''resourcecontrollerv2'' [apikey, iamURL, rcURL])) (\<lambda>_.
     bndE (mapErr (\<lambda>err. Wrapf err (''failed to get service instance details with id '' @ cloudInstanceID))
            (do_call (CallGetResourceInstance cloudInstanceID) (\<lambda>h. e_GetResourceInstance E h cloudInstanceID))) (\<lambda>ri.
       case ri of
         None \<Rightarrow> fail (PlainError (''failed to get service instance details with id '' @ cloudInstanceID
                    @ '' service instance returned is nil''))
       | Some resourceInstance \<Rightarrow>
           bnd (deref (RegionID resourceInstance)) (\<lambda>zone.
             case e_GetRegion E zone of
               Inl err \<Rightarrow> fail err
             | Inr instanceRegion \<Rightarrow>
                 bndE (getAccount E apikey iamURL) (\<lambda>accountID.
                 bndE (mapErr (\<lambda>err. Wrapf err ''failed to create IBM PI session'')
                        (NewSDKClient E ''ibmpisession''
                          [apikey, iamURL, accountID, zone, if debug then ''true'' else ''false''])) (\<lambda>_.
                   case e_VPCRegion E instanceRegion of
                     Inl err \<Rightarrow> fail err
                   | Inr vpcRegion \<Rightarrow>
                       let url = (if endpoint endpoints customVpcEndpointName \<noteq> []
                                  then endpoint endpoints customVpcEndpointName @ ''/v1''
                                  else ''https://'' @ vpcRegion @ ''.iaas.cloud.ibm.com/v1'') in
                       bndE (mapErr (\<lambda>err. Wrapf err ''failed to create vpc client'')
                              (NewSDKClient E ''vpcv1'' [apikey, iamURL, url])) (\<lambda>_.
                         ok \<lparr>cl_region = instanceRegion, cl_zone = zone,
                             cl_InstanceID = Some cloudInstanceID, cl_VPC = Some url,
                             cl_rcURL = rcURL\<rparr>)))))))))"

definition NewMinimalPowerVSClient :: "env \<Rightarrow> ('x world_scheme, powerVSClient) errprog" where
  "NewMinimalPowerVSClient E =
     bndE (getAndSetServiceEndpoints E) (\<lambda>_.
     bndE (GetAPIKey E DefaultCredentialSecret DefaultCredentialNamespace) (\<lambda>apiKey.
     bndE (mapErr (\<lambda>err. Wrapf err ''failed to resolve endpoint overrides'') (resolveEndpoints E)) (\<lambda>endpoints.
     let iamURL = endpoint endpoints customIamEndpointName;
         rcURL = endpoint endpoints customRcEndpointName in
     bndE (NewSDKClient E ''resourcecontrollerv2'' [apiKey, iamURL, rcURL]) (\<lambda>_.
       ok \<lparr>cl_region = [], cl_zone = [], cl_InstanceID = None, cl_VPC = None, cl_rcURL = rcURL\<rparr>))))"

section \<open>The listing as a source of pages\<close>

text \<open>What one request of the listing contributes: its items and the next link it hands to the loop.\<close>

definition resource_fetch ::
    "env \<Rightarrow> string option \<Rightarrow> string \<Rightarrow> ('x world_scheme, ResourceInstance list \<times> string option) errprog" where
  "resource_fetch E name start =
     bndE (ListResourceInstances E name (start_option start)) (\<lambda>r.
       case r of
         None \<Rightarrow> ok ([], None)
       | Some l \<Rightarrow> (case GetNextStart E l of Inl err \<Rightarrow> fail err | Inr link \<Rightarrow> ok (Resources l, link)))"

lemma GetNextStart_nonempty: "GetNextStart E l \<noteq> Inr (Some [])"
  by (auto simp: GetNextStart_def GetQueryParam_def Let_def split: option.splits sum.splits prod.splits
      if_splits)

lemma resource_fetch_run:
  "resource_fetch E name start s =
     (let st = start_option start;
          t = s\<lparr>trace := trace s @ [CallListResourceInstances name st]\<rparr> in
      case e_ListResourceInstances E (trace s) name st of
        Inl e \<Rightarrow> (Val (Inl e), t)
      | Inr None \<Rightarrow> (Val (Inr ([], None)), t)
      | Inr (Some l) \<Rightarrow> (case GetNextStart E l of
            Inl e \<Rightarrow> (Val (Inl e), t) | Inr link \<Rightarrow> (Val (Inr (Resources l, link)), t)))"
  by (simp add: resource_fetch_def ListResourceInstances_def prog_simps Let_def
      split: sum.split option.split)

lemma resource_page_run:
  "resource_page E name start (acc, s) =
     (let st = start_option start;
          t = s\<lparr>trace := trace s @ [CallListResourceInstances name st]\<rparr> in
      case e_ListResourceInstances E (trace s) name st of
        Inl e \<Rightarrow> (Val (Inl e), (acc, t))
      | Inr None \<Rightarrow> (Val (Inr (True, [])), (acc, t))
      | Inr (Some l) \<Rightarrow> (case GetNextStart E l of
            Inl e \<Rightarrow> (Val (Inl e), (acc @ Resources l, t))
          | Inr None \<Rightarrow> (Val (Inr (True, [])), (acc @ Resources l, t))
          | Inr (Some u) \<Rightarrow> (Val (Inr (False, u)), (acc @ Resources l, t))))"
  by (simp add: resource_page_def ListResourceInstances_def outer_def prog_simps Let_def
      split: sum.split option.split)

interpretation resource: page_source "resource_fetch E name" "resource_page E name"
  for E :: env and name :: "string option"
proof
  fix start s items link t acc
  assume "resource_fetch E name start s = (Val (Inr (items, link)), t)"
  then show "resource_page E name start (acc, s) =
      (Val (Inr (case link of None \<Rightarrow> (True, []) | Some u \<Rightarrow> (False, u))), (acc @ items, t))"
    by (auto simp: resource_fetch_run resource_page_run Let_def split: sum.splits option.splits)
next
  fix start s e t acc
  assume "resource_fetch E name start s = (Val (Inl e), t)"
  then show "\<exists>acc'. resource_page E name start (acc, s) = (Val (Inl e), (acc', t))"
    by (auto simp: resource_fetch_run resource_page_run Let_def split: sum.splits option.splits)
next
  fix start s t acc
  assume "resource_fetch E name start s = (Panic, t)"
  then show "\<exists>acc'. resource_page E name start (acc, s) = (Panic, (acc', t))"
    by (simp add: resource_fetch_run Let_def split: sum.splits option.splits)
next
  show "resource_fetch E name start s \<noteq> (OutOfFuel, t)" for start s t
    by (simp add: resource_fetch_run Let_def split: sum.split option.split)
next
  fix start s items t
  show "resource_fetch E name start s \<noteq> (Val (Inr (items, Some [])), t)"
  proof
    assume "resource_fetch E name start s = (Val (Inr (items, Some [])), t)"
    then obtain l where "GetNextStart E l = Inr (Some [])"
      by (simp add: resource_fetch_run Let_def split: sum.splits option.splits)
    then show False using GetNextStart_nonempty by blast
  qed
qed

section \<open>Calls of the client\<close>

lemmas client_calls = GetImages_def GetNetworks_def DeleteInstance_def CreateInstance_def
  GetInstance_def GetInstances_def GetDHCPServers_def GetDHCPServerByID_def ListLoadBalancers_def
  GetLoadBalancer_def ListLoadBalancerPoolMembers_def CreateLoadBalancerPoolMember_def
  DeleteLoadBalancerPoolMember_def ListResourceInstances_def NewSDKClient_def

context world_inv
begin

lemma keeps_client [keeps_intros]:
  "(\<And>sid. P (CallGetImages sid)) \<Longrightarrow> keeps R (GetImages E p)"
  "(\<And>sid. P (CallGetNetworks sid)) \<Longrightarrow> keeps R (GetNetworks E p)"
  "(\<And>sid. P (CallDeleteInstance sid i)) \<Longrightarrow> keeps R (DeleteInstance E p i)"
  "(\<And>sid. P (CallCreateInstance sid c)) \<Longrightarrow> keeps R (CreateInstance E p c)"
  "(\<And>sid. P (CallGetInstance sid i)) \<Longrightarrow> keeps R (GetInstance E p i)"
  "(\<And>sid. P (CallGetInstances sid)) \<Longrightarrow> keeps R (GetInstances E p)"
  "(\<And>sid. P (CallGetDHCPServers sid)) \<Longrightarrow> keeps R (GetDHCPServers E p)"
  "(\<And>sid. P (CallGetDHCPServer sid i)) \<Longrightarrow> keeps R (GetDHCPServerByID E p i)"
  "P (CallListLoadBalancers st) \<Longrightarrow> keeps R (ListLoadBalancers E p st)"
  "P (CallGetLoadBalancer lb) \<Longrightarrow> keeps R (GetLoadBalancer E p lb)"
  "P (CallListPoolMembers lb pool) \<Longrightarrow> keeps R (ListLoadBalancerPoolMembers E p lb pool)"
  "P (CallCreatePoolMember lb pool port address) \<Longrightarrow>
     keeps R (CreateLoadBalancerPoolMember E p lb pool port address)"
  "P (CallDeletePoolMember lb pool member) \<Longrightarrow> keeps R (DeleteLoadBalancerPoolMember E p lb pool member)"
  "P (CallListResourceInstances name st) \<Longrightarrow> keeps R (ListResourceInstances E name st)"
  "P (CallNewSDKClient kind opts) \<Longrightarrow> keeps R (NewSDKClient E kind opts)"
  unfolding client_calls by (intro keeps_intros; assumption)+

lemma keeps_GetInstanceByName [keeps_intros]:
  "(\<And>sid. P (CallGetInstances sid)) \<Longrightarrow> (\<And>sid i. P (CallGetInstance sid i)) \<Longrightarrow>
   keeps R (GetInstanceByName E p name)"
  unfolding GetInstanceByName_def by (intro keeps_intros; assumption)

lemma keeps_resource_page [keeps_intros]:
  assumes "\<And>st. P (CallListResourceInstances name st)"
  shows "keeps (\<lambda>p q. R (snd p) (snd q)) (resource_page E name start)"
  unfolding resource_page_def by (intro lifted_intros keeps_outer keeps_append keeps_intros assms)

lemma keeps_getAndSetServiceEndpoints [keeps_intros]:
  "(\<And>n. P (KubeGetInfrastructure n)) \<Longrightarrow> keeps R (getAndSetServiceEndpoints E)"
  unfolding getAndSetServiceEndpoints_def resolveEndpoints_def getCustomEndPointKeys_def
    setCustomEndpoints_def setEnvironmentVariables_def
  by (intro keeps_intros; assumption)

lemma keeps_GetAPIKey [keeps_intros]:
  "(\<And>n m. P (KubeGetSecret n m)) \<Longrightarrow> keeps R (GetAPIKey E secretName namespace)"
  unfolding GetAPIKey_def by (intro keeps_intros; assumption)

end

section \<open>Provider IDs\<close>

lemma split_on_notin [simp]: "c \<notin> set a \<Longrightarrow> split_on c a = [a]"
  by (induction a) auto

lemma split_on_append [simp]: "c \<notin> set a \<Longrightarrow> split_on c (a @ c # b) = a # split_on c b"
  by (induction a) auto

text \<open>
  C40. A provider ID determines what it was built from: after the prefix \<open>ibmpowervs://\<close>, splitting
  at the slashes gives back region, zone, service instance ID and VM ID, whenever none of the first
  three and not the last contains a slash. Two different machines never share a provider ID.
\<close>

theorem FormatProviderID_roundtrip:
  assumes "\<forall>x\<in>{region, zone, sid, vm}. CHR ''/'' \<notin> set x"
  shows "HasPrefix (FormatProviderID region zone sid vm) ''ibmpowervs://''
    \<and> split_on (CHR ''/'') (drop 13 (FormatProviderID region zone sid vm)) = [region, zone, sid, vm]"
  using assms by (simp add: FormatProviderID_def HasPrefix_def)

theorem FormatProviderID_roundtrip_witness:
  "split_on (CHR ''/'') (drop 13 (FormatProviderID ''dal'' ''dal12'' ''guid-1'' ''vm-7''))
   = [''dal'', ''dal12'', ''guid-1'', ''vm-7'']"
  using FormatProviderID_roundtrip [of "''dal''" "''dal12''" "''guid-1''" "''vm-7''"] by simp

section \<open>Finding an instance by name\<close>

lemma findP_name:
  assumes "\<forall>i\<in>set l. field i \<noteq> None"
  shows "findP (\<lambda>i. bnd (deref (field i)) (\<lambda>n. ret (n = name))) l s
    = (Val (List.find (\<lambda>i. field i = Some name) l), s)"
  using assms by (intro findP_pure) (auto simp: prog_simps)

text \<open>
  \<open>GetInstanceByName\<close> lists the instances of the client's service instance and answers with a
  fresh read of the first one whose server name is the name asked for; if there is none it answers
  \<open>ErrorInstanceNotFound\<close> and makes no further call.
\<close>

lemma GetInstanceByName_first_match:
  assumes "cl_InstanceID p = Some sid"
    and "e_GetInstances E (trace s) sid = Inr (Some l)"
    and "\<forall>i\<in>set l. ref_ServerName i \<noteq> None \<and> ref_PvmInstanceID i \<noteq> None"
  shows "GetInstanceByName E p name s =
    (let h = trace s @ [CallGetInstances sid] in
     case List.find (\<lambda>i. ref_ServerName i = Some name) l of
       None \<Rightarrow> (Val (Inl ErrorInstanceNotFound), s\<lparr>trace := h\<rparr>)
     | Some i \<Rightarrow> (let vm = the (ref_PvmInstanceID i) in
          (Val (e_GetInstance E h sid vm), s\<lparr>trace := h @ [CallGetInstance sid vm]\<rparr>)))"
proof -
  have found: "ref_PvmInstanceID i \<noteq> None"
    if "List.find (\<lambda>i. ref_ServerName i = Some name) l = Some i" for i
    using that assms(3) by (auto simp: find_Some_iff)
  show ?thesis
    using assms(1,2) found assms(3)
    by (auto simp: GetInstanceByName_def client_calls prog_simps findP_name Let_def
        split: option.split)
qed

section \<open>Finding a service instance by name\<close>

text \<open>
  A listing that fits in one page is read with one request, and the lookup succeeds exactly if the page
  holds one instance. What happens with a second page is the next theorem.
\<close>

lemma GetCloudServiceInstanceByName_single_page:
  assumes "e_ListResourceInstances E (trace s) (Some name) None = Inr (Some l)" and "NextURL l = None" and "0 < e_fuel E"
  shows "GetCloudServiceInstanceByName E name s =
    (Val (case Resources l of
        [i] \<Rightarrow> Inr i
      | [] \<Rightarrow> Inl (PlainError (''does exist any cloud service instance with name '' @ name))
      | _ \<Rightarrow> Inl (PlainError (''there exist more than one service instance ID with with same name ''
               @ name @ '', Try setting serviceInstance.ID''))),
     s\<lparr>trace := trace s @ [CallListResourceInstances (Some name) None]\<rparr>)"
proof -
  let ?t = "s\<lparr>trace := trace s @ [CallListResourceInstances (Some name) None]\<rparr>"
  have "resource_fetch E (Some name) [] s = (Val (Inr (Resources l, None)), ?t)"
    using assms(1,2) by (simp add: resource_fetch_run start_option_def GetNextStart_def Let_def)
  then have "page_chain E (resource_fetch E (Some name)) (Suc 0) [] s (Resources l) ?t" by (rule last_page)
  with assms(3) have "with_list (PagingHelper E (resource_page E (Some name))) s = (Val (Inr (Resources l)), ?t)"
    unfolding resource.with_list_PagingHelper_iff by (intro exI [of _ "Suc 0"]) simp
  then show ?thesis
    by (simp add: GetCloudServiceInstanceByName_def prog_simps split: list.split)
qed

text \<open>
  C37. When the listing has more than one page, \<open>GetCloudServiceInstanceByName\<close> does not return. Its
  callback hands the loop the start token of the next page, which \<open>GetNextStart\<close> has already taken
  out of the next link, but \<open>PagingHelper\<close> expects the link itself and takes the start token out
  again: a token that is a well-formed relative reference without a query has none, so the loop asks
  for the first page again, for ever. The statement is for every fuel, since \<open>E\<close> is arbitrary.
\<close>

theorem GetCloudServiceInstanceByName_second_page_diverges:
  assumes "\<forall>h. \<exists>r tok u. e_ListResourceInstances E h (Some name) None = Inr (Some r)
      \<and> GetNextStart E r = Inr (Some tok) \<and> CHR ''?'' \<notin> set tok
      \<and> url_Parse (e_ip_literal E) tok = Inr u"
  shows "fst (GetCloudServiceInstanceByName E name s) = OutOfFuel"
proof -
  have "\<exists>items link t. resource_fetch E (Some name) [] s = (Val (Inr (items, Some link)), t)
      \<and> getStartToken E link = Inr []" for s :: "'a world_scheme"
  proof -
    obtain r tok u where r: "e_ListResourceInstances E (trace s) (Some name) None = Inr (Some r)"
      and tok: "GetNextStart E r = Inr (Some tok)" "CHR ''?'' \<notin> set tok"
      and u: "url_Parse (e_ip_literal E) tok = Inr u"
      using assms by meson
    have "getStartToken E tok = Inr (Query_Get u ''start'')"
      using u by (simp add: getStartToken_def)
    moreover have "RawQuery u = []" using url_Parse_no_query tok(2) u by blast
    ultimately show ?thesis
      using r tok by (auto simp: resource_fetch_run start_option_def Let_def)
  qed
  then have "fst (with_list (PagingHelper E (resource_page E (Some name))) s) = OutOfFuel"
    by (rule resource.PagingHelper_diverges)
  then show ?thesis
    by (auto simp: GetCloudServiceInstanceByName_def prog_simps split: run_splits)
qed

definition two_page_env :: "nat \<Rightarrow> env" where
  "two_page_env fuel = base_env\<lparr>e_fuel := fuel, e_ListResourceInstances := \<lambda>_ _ start.
     Inr (Some (if start = None
       then \<lparr>NextURL = Some ''/v2/resource_instances?start=abc'', Resources = [\<lparr>GUID = Some ''g1'', RegionID = None\<rparr>]\<rparr>
       else \<lparr>NextURL = None, Resources = []\<rparr>))\<rparr>"

lemma two_page_env_token:
  "GetNextStart (two_page_env fuel) \<lparr>NextURL = Some ''/v2/resource_instances?start=abc'',
     Resources = [\<lparr>GUID = Some ''g1'', RegionID = None\<rparr>]\<rparr> = Inr (Some ''abc'')"
  "\<exists>u. url_Parse (e_ip_literal (two_page_env fuel)) ''abc'' = Inr u"
proof -
  have "GetQueryParam base_env ''/v2/resource_instances?start=abc'' ''start'' = Inr (Some ''abc'')"
    by code_simp
  then show "GetNextStart (two_page_env fuel) \<lparr>NextURL = Some ''/v2/resource_instances?start=abc'',
     Resources = [\<lparr>GUID = Some ''g1'', RegionID = None\<rparr>]\<rparr> = Inr (Some ''abc'')"
    by (simp add: GetNextStart_def GetQueryParam_def two_page_env_def)
next
  have "case url_Parse (e_ip_literal base_env) ''abc'' of Inl _ \<Rightarrow> False | Inr _ \<Rightarrow> True"
    by code_simp
  then show "\<exists>u. url_Parse (e_ip_literal (two_page_env fuel)) ''abc'' = Inr u"
    by (auto simp: two_page_env_def split: sum.splits)
qed

theorem GetCloudServiceInstanceByName_second_page_diverges_witness:
  "\<forall>fuel. fst (GetCloudServiceInstanceByName (two_page_env fuel) ''svc'' \<lparr>trace = [], osenv = Map.empty\<rparr>)
     = OutOfFuel"
proof
  fix fuel
  show "fst (GetCloudServiceInstanceByName (two_page_env fuel) ''svc'' \<lparr>trace = [], osenv = Map.empty\<rparr>)
     = OutOfFuel"
  proof (rule GetCloudServiceInstanceByName_second_page_diverges, rule allI)
    fix h
    obtain u where "url_Parse (e_ip_literal (two_page_env fuel)) ''abc'' = Inr u"
      using two_page_env_token(2) by blast
    then show "\<exists>r tok u. e_ListResourceInstances (two_page_env fuel) h (Some ''svc'') None = Inr (Some r)
      \<and> GetNextStart (two_page_env fuel) r = Inr (Some tok) \<and> CHR ''?'' \<notin> set tok
      \<and> url_Parse (e_ip_literal (two_page_env fuel)) tok = Inr u"
      using two_page_env_token(1) [of fuel]
      by (intro exI [of _ "\<lparr>NextURL = Some ''/v2/resource_instances?start=abc'',
           Resources = [\<lparr>GUID = Some ''g1'', RegionID = None\<rparr>]\<rparr>"] exI [of _ "''abc''"] exI [of _ u])
        (simp add: two_page_env_def)
  qed
qed

end
