(* ===== verification/Conditions.thy ===== *)
theory Conditions
  imports PowerVS_Client
begin

text \<open>
  \<open>pkg/actuators/machine/utils.go\<close>: the conditions of the provider status, the checks on a
  machine's labels, and the conversions between provider spec or status and raw extensions. A pointer
  into the slice of conditions is an index. The locale \<open>condition_store\<close> is what the callers rely
  on: a condition list is a finite map from condition types to conditions.
\<close>

section \<open>Conditions\<close>

fun findProviderCondition :: "Condition list \<Rightarrow> string \<Rightarrow> nat option" where
  "findProviderCondition [] conditionType = None"
| "findProviderCondition (c # cs) conditionType =
     (if cond_Type c = conditionType then Some 0
      else map_option Suc (findProviderCondition cs conditionType))"

definition shouldUpdateCondition :: "Condition \<Rightarrow> Condition \<Rightarrow> bool" where
  "shouldUpdateCondition newCondition existingCondition \<longleftrightarrow>
     cond_Reason newCondition \<noteq> cond_Reason existingCondition \<or>
     cond_Message newCondition \<noteq> cond_Message existingCondition"

definition updateExistingCondition ::
    "env \<Rightarrow> Condition \<Rightarrow> Condition \<Rightarrow> ('x world_scheme, Condition) prog" where
  "updateExistingCondition E newCondition existingCondition =
     (if \<not> shouldUpdateCondition newCondition existingCondition then ret existingCondition
      else
        bnd (if cond_Status existingCondition \<noteq> cond_Status newCondition then Now E
             else ret (cond_LastTransitionTime existingCondition)) (\<lambda>time.
          ret (existingCondition\<lparr>cond_Status := cond_Status newCondition,
                 cond_Reason := cond_Reason newCondition,
                 cond_Message := cond_Message newCondition,
                 cond_LastTransitionTime := time\<rparr>)))"

definition setPowerVSMachineProviderCondition ::
    "env \<Rightarrow> Condition \<Rightarrow> Condition list \<Rightarrow> ('x world_scheme, Condition list) prog" where
  "setPowerVSMachineProviderCondition E condition conditions =
     bnd (Now E) (\<lambda>now.
       case findProviderCondition conditions (cond_Type condition) of
         None \<Rightarrow> ret (conditions @ [condition\<lparr>cond_LastTransitionTime := now\<rparr>])
       | Some i \<Rightarrow>
           bnd (updateExistingCondition E condition (conditions ! i)) (\<lambda>c. ret (conditions[i := c])))"

definition MachineCreation :: string where
  "MachineCreation = ''MachineCreation''"

definition conditionSuccess :: Condition where
  "conditionSuccess = \<lparr>cond_Type = MachineCreation, cond_Status = ''True'',
     cond_Reason = ''MachineCreationSucceeded'', cond_Message = ''Machine successfully created'',
     cond_LastTransitionTime = 0\<rparr>"

definition conditionFailed :: Condition where
  "conditionFailed = \<lparr>cond_Type = MachineCreation, cond_Status = ''False'',
     cond_Reason = ''MachineCreationFailed'', cond_Message = [], cond_LastTransitionTime = 0\<rparr>"

definition conditionBuild :: Condition where
  "conditionBuild = \<lparr>cond_Type = MachineCreation, cond_Status = InstanceStateNameBuild,
     cond_Reason = InstanceBuildReason, cond_Message = ''Machine is in build state'',
     cond_LastTransitionTime = 0\<rparr>"

section \<open>Labels\<close>

definition MachineClusterIDLabel :: string where
  "MachineClusterIDLabel = ''machine.openshift.io/cluster-api-cluster''"

definition upstreamMachineClusterIDLabel :: string where
  "upstreamMachineClusterIDLabel = ''sigs.k8s.io/cluster-api-cluster''"

text \<open>Reading a map that may be nil: a missing key has no entry.\<close>

definition lookup_label :: "strmap option \<Rightarrow> string \<Rightarrow> string option" where
  "lookup_label m k = (case m of None \<Rightarrow> None | Some f \<Rightarrow> f k)"

definition validateMachine :: "Machine \<Rightarrow> goerr + unit" where
  "validateMachine machine =
     (case lookup_label (m_Labels machine) MachineClusterIDLabel of
        Some v \<Rightarrow> if v = [] then Inl (MachineError InvalidConfiguration
              (m_Name machine @ '': missing '' @ Quote MachineClusterIDLabel @ '' label'')) else Inr ()
      | None \<Rightarrow> Inl (MachineError InvalidConfiguration
              (m_Name machine @ '': missing '' @ Quote MachineClusterIDLabel @ '' label'')))"

definition getClusterID :: "Machine \<Rightarrow> string \<times> bool" where
  "getClusterID machine =
     (case lookup_label (m_Labels machine) MachineClusterIDLabel of
        Some v \<Rightarrow> (v, True)
      | None \<Rightarrow> (case lookup_label (m_Labels machine) upstreamMachineClusterIDLabel of
                   Some v \<Rightarrow> (v, True)
                 | None \<Rightarrow> ([], False)))"

section \<open>Raw extensions\<close>

definition RawExtensionFromProviderSpec ::
    "env \<Rightarrow> PowerVSMachineProviderConfig option \<Rightarrow> goerr + string" where
  "RawExtensionFromProviderSpec E spec =
     (case spec of
        None \<Rightarrow> Inr []
      | Some sp \<Rightarrow> (case e_marshalSpec E sp of
          Inl err \<Rightarrow> Inl (Errorf_v ''error marshalling providerSpec: '' err)
        | Inr rawBytes \<Rightarrow> Inr rawBytes))"

definition RawExtensionFromProviderStatus ::
    "env \<Rightarrow> PowerVSMachineProviderStatus option \<Rightarrow> goerr + string" where
  "RawExtensionFromProviderStatus E status =
     (case status of
        None \<Rightarrow> Inr []
      | Some st \<Rightarrow> (case e_marshalStatus E st of
          Inl err \<Rightarrow> Inl (Errorf_v ''error marshalling providerStatus: '' err)
        | Inr rawBytes \<Rightarrow> Inr rawBytes))"

text \<open>
  \<open>json.Unmarshal(raw, &spec)\<close> is given the address of the pointer, so a JSON null leaves a nil spec:
  the result is a pointer.
\<close>

definition ProviderSpecFromRawExtension ::
    "env \<Rightarrow> string option \<Rightarrow> goerr + PowerVSMachineProviderConfig option" where
  "ProviderSpecFromRawExtension E rawExtension =
     (case rawExtension of
        None \<Rightarrow> Inr (Some zero_config)
      | Some raw \<Rightarrow> (case e_unmarshalSpec E raw of
          Inl err \<Rightarrow> Inl (Errorf_v ''error unmarshalling providerSpec: '' err)
        | Inr spec \<Rightarrow> Inr spec))"

definition ProviderStatusFromRawExtension ::
    "env \<Rightarrow> string option \<Rightarrow> goerr + PowerVSMachineProviderStatus" where
  "ProviderStatusFromRawExtension E rawExtension =
     (case rawExtension of
        None \<Rightarrow> Inr zero_status
      | Some raw \<Rightarrow> (case e_unmarshalStatus E raw of
          Inl err \<Rightarrow> Inl (Errorf_v ''error unmarshalling providerStatus: '' err)
        | Inr status \<Rightarrow> Inr status))"

section \<open>A condition list as a map\<close>

definition condition_of :: "Condition list \<Rightarrow> string \<Rightarrow> Condition option" where
  "condition_of cs ty = List.find (\<lambda>c. cond_Type c = ty) cs"

definition conditions_wf :: "Condition list \<Rightarrow> bool" where
  "conditions_wf cs \<longleftrightarrow> distinct (map cond_Type cs)"

lemma findProviderCondition_None:
  "findProviderCondition cs ty = None \<longleftrightarrow> ty \<notin> cond_Type ` set cs"
  by (induction cs) auto

lemma findProviderCondition_Some:
  "findProviderCondition cs ty = Some i \<Longrightarrow>
   i < length cs \<and> cond_Type (cs ! i) = ty \<and> (\<forall>j < i. cond_Type (cs ! j) \<noteq> ty)"
proof (induction cs arbitrary: i)
  case (Cons c cs)
  show ?case
  proof (cases "cond_Type c = ty")
    case False
    with Cons.prems obtain j where "i = Suc j" "findProviderCondition cs ty = Some j" by auto
    with Cons.IH [of j] False show ?thesis by (auto simp: less_Suc_eq_0_disj)
  qed (use Cons.prems in simp)
qed simp

lemma condition_of_findProviderCondition:
  "condition_of cs ty = map_option (\<lambda>i. cs ! i) (findProviderCondition cs ty)"
  by (induction cs) (auto simp: condition_of_def option.map_comp comp_def)

text \<open>
  The condition that is in the list once \<open>c\<close> has been set: the code keeps the stored one, time of
  transition included, when reason and message agree, whatever the status.
\<close>

definition merged_condition :: "Condition \<Rightarrow> Condition option \<Rightarrow> int \<Rightarrow> int \<Rightarrow> Condition" where
  "merged_condition c old now later =
     (case old of
        None \<Rightarrow> c\<lparr>cond_LastTransitionTime := now\<rparr>
      | Some d \<Rightarrow>
          if \<not> shouldUpdateCondition c d then d
          else d\<lparr>cond_Status := cond_Status c, cond_Reason := cond_Reason c, cond_Message := cond_Message c,
                 cond_LastTransitionTime := if cond_Status d \<noteq> cond_Status c then later
                                            else cond_LastTransitionTime d\<rparr>)"

lemma merged_condition_Type [simp]:
  "cond_Type (merged_condition c None now later) = cond_Type c"
  "cond_Type (merged_condition c (Some d) now later) = cond_Type d"
  by (simp_all add: merged_condition_def)

lemma condition_of_append_new:
  "condition_of cs (cond_Type c) = None \<Longrightarrow> condition_of (cs @ [c]) = (condition_of cs)(cond_Type c \<mapsto> c)"
proof (induction cs)
  case (Cons d cs)
  then show ?case by (auto simp: condition_of_def fun_eq_iff split: if_splits)
qed (auto simp: condition_of_def)

lemma condition_of_list_update:
  assumes "findProviderCondition cs (cond_Type c) = Some i"
  shows "condition_of (cs[i := c]) = (condition_of cs)(cond_Type c \<mapsto> c)"
  using assms
proof (induction cs arbitrary: i)
  case (Cons d cs)
  show ?case
  proof (cases "cond_Type d = cond_Type c")
    case True
    with Cons.prems show ?thesis by (auto simp: condition_of_def fun_eq_iff)
  next
    case False
    with Cons.prems obtain j where j: "i = Suc j" "findProviderCondition cs (cond_Type c) = Some j"
      by auto
    with Cons.IH [OF j(2)] False show ?thesis
      by (auto simp: condition_of_def fun_eq_iff)
  qed
qed simp

lemma setPowerVSMachineProviderCondition_run:
  "\<exists>t. setPowerVSMachineProviderCondition E c cs s =
     (Val (fst (case findProviderCondition cs (cond_Type c) of
        None \<Rightarrow> (cs @ [merged_condition c None (e_Now E (trace s)) (e_Now E (trace s @ [TimeNow]))], ())
      | Some i \<Rightarrow> (cs[i := merged_condition c (Some (cs ! i)) (e_Now E (trace s)) (e_Now E (trace s @ [TimeNow]))], ()))), t)"
  by (auto simp: setPowerVSMachineProviderCondition_def updateExistingCondition_def basic_calls prog_simps
      merged_condition_def split: option.splits)

locale condition_store =
  fixes set_cond :: "env \<Rightarrow> Condition \<Rightarrow> Condition list \<Rightarrow> ('x world_scheme, Condition list) prog"
    and get_cond :: "Condition list \<Rightarrow> string \<Rightarrow> Condition option"
    and wf :: "Condition list \<Rightarrow> bool"
  assumes set_returns: "\<exists>cs' t. set_cond E c cs s = (Val cs', t)"
    and set_get: "set_cond E c cs s = (Val cs', t) \<Longrightarrow>
      get_cond cs' = (get_cond cs)(cond_Type c \<mapsto>
        merged_condition c (get_cond cs (cond_Type c)) (e_Now E (trace s)) (e_Now E (trace s @ [TimeNow])))"
    and set_wf: "wf cs \<Longrightarrow> set_cond E c cs s = (Val cs', t) \<Longrightarrow> wf cs'"
    and empty_wf: "wf []"
begin

text \<open>What a client may use: reason and message are always those set last, other types are kept.\<close>

lemma set_reason_message:
  assumes "set_cond E c cs s = (Val cs', t)"
  shows "\<exists>d. get_cond cs' (cond_Type c) = Some d \<and> cond_Reason d = cond_Reason c
    \<and> cond_Message d = cond_Message c"
  using set_get [OF assms]
  by (auto simp: merged_condition_def shouldUpdateCondition_def split: option.splits)

lemma set_other: "set_cond E c cs s = (Val cs', t) \<Longrightarrow> ty \<noteq> cond_Type c \<Longrightarrow> get_cond cs' ty = get_cond cs ty"
  using set_get by fastforce

lemma set_idempotent:
  assumes "set_cond E c cs s = (Val cs', t)" and "set_cond E c cs' u = (Val cs'', v)"
  shows "get_cond cs'' = get_cond cs'"
  using set_get [OF assms(1)] set_get [OF assms(2)] set_reason_message [OF assms(1)]
  by (auto simp: merged_condition_def shouldUpdateCondition_def fun_eq_iff)

end

interpretation pvs: condition_store setPowerVSMachineProviderCondition condition_of conditions_wf
proof
  fix E c cs and s t :: "'x world_scheme" and cs'
  show "\<exists>cs' t. setPowerVSMachineProviderCondition E c cs s = (Val cs', t)"
    using setPowerVSMachineProviderCondition_run by blast
  assume run: "setPowerVSMachineProviderCondition E c cs s = (Val cs', t)"
  let ?m = "\<lambda>old. merged_condition c old (e_Now E (trace s)) (e_Now E (trace s @ [TimeNow]))"
  consider (new) "findProviderCondition cs (cond_Type c) = None" "cs' = cs @ [?m None]"
    | (old) i where "findProviderCondition cs (cond_Type c) = Some i" "cs' = cs[i := ?m (Some (cs ! i))]"
    using run setPowerVSMachineProviderCondition_run [of E c cs s]
    by (auto split: option.splits)
  note cases = this
  show "condition_of cs' = (condition_of cs)(cond_Type c \<mapsto> ?m (condition_of cs (cond_Type c)))"
  proof (cases rule: cases)
    case new
    then have "condition_of cs (cond_Type c) = None"
      by (simp add: condition_of_findProviderCondition)
    moreover have ty: "cond_Type (?m None) = cond_Type c" by simp
    ultimately show ?thesis
      using new condition_of_append_new [of cs "?m None"] by (simp only: ty)
  next
    case (old i)
    then have "cond_Type (cs ! i) = cond_Type c" and "condition_of cs (cond_Type c) = Some (cs ! i)"
      by (auto simp: condition_of_findProviderCondition dest: findProviderCondition_Some)
    moreover from this have ty: "cond_Type (?m (Some (cs ! i))) = cond_Type c"
      by simp
    ultimately show ?thesis
      using old condition_of_list_update [of cs "?m (Some (cs ! i))" i] by (simp only: ty)
  qed
  show "conditions_wf cs'" if "conditions_wf cs"
  proof (cases rule: cases)
    case new
    with that show ?thesis
      by (auto simp: conditions_wf_def findProviderCondition_None)
  next
    case (old i)
    then have "cond_Type (cs ! i) = cond_Type c" "i < length cs"
      by (auto dest: findProviderCondition_Some)
    then have "map cond_Type cs' = map cond_Type cs"
      using old by (simp add: map_update list_update_same_conv)
    with that show ?thesis by (simp add: conditions_wf_def)
  qed
next
  show "conditions_wf []" by (simp add: conditions_wf_def)
qed

context world_inv
begin

lemma keeps_setPowerVSMachineProviderCondition [keeps_intros]:
  "P TimeNow \<Longrightarrow> keeps R (setPowerVSMachineProviderCondition E c cs)"
  unfolding setPowerVSMachineProviderCondition_def updateExistingCondition_def Now_def
  by (intro keeps_intros; assumption)

end

section \<open>What setting a condition does\<close>

text \<open>
  C35. Setting a condition always returns, and updates the list as a map from condition types to
  conditions: at the type of the new condition the list now holds the new condition merged with the
  one it held, everywhere else it is unchanged. A list with one condition per type stays one.
\<close>

theorem setPowerVSMachineProviderCondition_updates:
  "\<exists>cs' t. setPowerVSMachineProviderCondition E c cs s = (Val cs', t)
     \<and> condition_of cs' = (condition_of cs)(cond_Type c \<mapsto>
         merged_condition c (condition_of cs (cond_Type c)) (e_Now E (trace s)) (e_Now E (trace s @ [TimeNow])))
     \<and> (conditions_wf cs \<longrightarrow> conditions_wf cs')"
  using pvs.set_returns [of E c cs s] pvs.set_get pvs.set_wf by metis

definition other_condition :: Condition where
  "other_condition = \<lparr>cond_Type = ''Ready'', cond_Status = ''True'', cond_Reason = ''r'',
     cond_Message = ''m'', cond_LastTransitionTime = 7\<rparr>"

lemma example_condition_of:
  "condition_of [other_condition] ''Ready'' = Some other_condition"
  "condition_of [other_condition] (cond_Type conditionSuccess) = None"
  "cond_Type conditionSuccess = ''MachineCreation''"
  "merged_condition conditionSuccess None (e_Now base_env []) later = conditionSuccess"
  by (simp_all add: condition_of_def merged_condition_def conditionSuccess_def other_condition_def
      MachineCreation_def base_env_def)

theorem setPowerVSMachineProviderCondition_updates_witness:
  "\<exists>cs' t. setPowerVSMachineProviderCondition base_env conditionSuccess [other_condition]
       \<lparr>trace = [], osenv = Map.empty\<rparr> = (Val cs', t)
     \<and> condition_of cs' ''MachineCreation'' = Some conditionSuccess
     \<and> condition_of cs' ''Ready'' = Some other_condition \<and> conditions_wf cs'"
  using setPowerVSMachineProviderCondition_updates [of base_env conditionSuccess "[other_condition]"
      "\<lparr>trace = [], osenv = Map.empty\<rparr>"] example_condition_of
  by (auto simp: conditions_wf_def)

text \<open>
  Whatever was in the list before, after a condition has been set its reason and its message are
  the ones set, and setting the same condition once more changes nothing.
\<close>

lemma setPowerVSMachineProviderCondition_idempotent:
  assumes "setPowerVSMachineProviderCondition E c cs s = (Val cs', t)"
    and "setPowerVSMachineProviderCondition E c cs' u = (Val cs'', v)"
  shows "(\<exists>d. condition_of cs' (cond_Type c) = Some d \<and> cond_Reason d = cond_Reason c
      \<and> cond_Message d = cond_Message c) \<and> cs'' = cs'"
proof -
  obtain d where d: "condition_of cs' (cond_Type c) = Some d"
      and same: "cond_Reason d = cond_Reason c" "cond_Message d = cond_Message c"
    using pvs.set_reason_message [OF assms(1)] by blast
  then obtain i where "findProviderCondition cs' (cond_Type c) = Some i" "cs' ! i = d"
    by (auto simp: condition_of_findProviderCondition)
  moreover from this same have "merged_condition c (Some (cs' ! i)) now later = cs' ! i" for now later
    by (simp add: merged_condition_def shouldUpdateCondition_def)
  ultimately have "cs'' = cs'"
    using setPowerVSMachineProviderCondition_run [of E c cs' u] assms(2) list_update_id [of cs' i] by simp
  with d same show ?thesis by simp
qed

end
