(* ===== verification/Instances.thy ===== *)
theory Instances
  imports Conditions
begin

text \<open>
  \<open>pkg/actuators/machine/instances.go\<close>: resolving image, network and service instance references,
  launching a VM, and removing a stopped one. The locale \<open>named_resource\<close> is the contract that the
  image and the network lookup share. A reference that is returned without error is never nil except
  in \<open>getServiceInstanceID\<close>, so only that function returns a pointer.
\<close>

section \<open>Definitions\<close>

definition getImageID :: "env \<Rightarrow> powerVSClient \<Rightarrow> PowerVSResource \<Rightarrow> ('x world_scheme, string) errprog" where
  "getImageID E client imageResource =
     (if res_Type imageResource = ''ID'' then
        (case res_ID imageResource of
           None \<Rightarrow> fail (PlainError ''imageResource reference is specified as ID but it is nil'')
         | Some ident \<Rightarrow> ok ident)
      else if res_Type imageResource = ''Name'' then
        (case res_Name imageResource of
           None \<Rightarrow> fail (PlainError ''imageResource reference is specified as Name but it is nil'')
         | Some name \<Rightarrow>
             bndE (GetImages E client) (\<lambda>l.
             bnd (deref l) (\<lambda>images.
             bnd (findP (\<lambda>img. bnd (deref (img_Name img)) (\<lambda>n. ret (n = name))) images) (\<lambda>found.
               case found of
                 Some img \<Rightarrow> bnd (deref (img_ImageID img)) ok
               | None \<Rightarrow> fail (PlainError (''failed to find an image ID with name '' @ name))))))
      else fail (PlainError (''failed to find an image ID, Unexpected imageResource type ''
             @ res_Type imageResource @ '' supports only ID and Name'')))"

definition getNetworkID :: "env \<Rightarrow> powerVSClient \<Rightarrow> PowerVSResource \<Rightarrow> ('x world_scheme, string) errprog" where
  "getNetworkID E client networkResource =
     (if res_Type networkResource = ''ID'' then
        (case res_ID networkResource of
           None \<Rightarrow> fail (PlainError ''networkResource reference is specified as ID but it is nil'')
         | Some ident \<Rightarrow> ok ident)
      else if res_Type networkResource = ''Name'' then
        (case res_Name networkResource of
           None \<Rightarrow> fail (PlainError ''networkResource reference is specified as Name but it is nil'')
         | Some name \<Rightarrow>
             bndE (GetNetworks E client) (\<lambda>l.
             bnd (deref l) (\<lambda>networks.
             bnd (findP (\<lambda>nw. bnd (deref (nw_Name nw)) (\<lambda>n. ret (n = name))) networks) (\<lambda>found.
               case found of
                 Some nw \<Rightarrow> bnd (deref (nw_NetworkID nw)) ok
               | None \<Rightarrow> fail (PlainError (''failed to find an network ID with name '' @ name))))))
      else if res_Type networkResource = ''RegEx'' then
        (case res_RegEx networkResource of
           None \<Rightarrow> fail (PlainError ''networkResource reference is specified as RegEx but it is nil'')
         | Some regEx \<Rightarrow>
             bndE (GetNetworks E client) (\<lambda>l.
             case e_regexp E regEx of
               Inl err \<Rightarrow> fail err
             | Inr re \<Rightarrow>
                 bnd (deref l) (\<lambda>networks.
                 bnd (findP (\<lambda>nw. bnd (deref (nw_Name nw)) (\<lambda>n. ret (re n))) networks) (\<lambda>found.
                   case found of
                     Some nw \<Rightarrow> bnd (deref (nw_NetworkID nw)) ok
                   | None \<Rightarrow> fail (PlainError (''failed to find an network ID with RegEx '' @ regEx))))))
      else fail (PlainError (''failed to find an network ID, Unexpected networkResource type ''
             @ res_Type networkResource @ '' supports only ID, Name and RegEx'')))"

definition getServiceInstanceID :: "env \<Rightarrow> PowerVSResource \<Rightarrow> ('x world_scheme, string option) errprog" where
  "getServiceInstanceID E serviceInstanceResource =
     (if res_Type serviceInstanceResource = ''ID'' then
        (case res_ID serviceInstanceResource of
           None \<Rightarrow> fail (PlainError ''serviceInstanceResource reference is specified as ID but it is nil'')
         | Some ident \<Rightarrow> ok (Some ident))
      else if res_Type serviceInstanceResource = ''Name'' then
        (case res_Name serviceInstanceResource of
           None \<Rightarrow> fail (PlainError ''serviceInstanceResource reference is specified as Name but it is nil'')
         | Some name \<Rightarrow>
             bndE (GetCloudServiceInstanceByName E name) (\<lambda>serviceInstance. ok (GUID serviceInstance)))
      else fail (PlainError (''failed to find an ServiceInstanceID, Unexpected serviceInstanceResource type: ''
             @ res_Type serviceInstanceResource @ '' supports only ID and Name'')))"

definition removeStoppedMachine :: "env \<Rightarrow> powerVSClient \<Rightarrow> Machine \<Rightarrow> ('x world_scheme, unit) errprog" where
  "removeStoppedMachine E client m =
     bnd (GetInstanceByName E client (m_Name m)) (\<lambda>r.
       case r of
         Inl err \<Rightarrow>
           if err \<noteq> ErrorInstanceNotFound
           then fail (PlainError (''error getting instance by name: '' @ m_Name m @ '', err: '' @ Error err))
           else ok ()
       | Inr None \<Rightarrow> ok ()
       | Inr (Some inst) \<Rightarrow>
           bnd (deref (InstanceStatus inst)) (\<lambda>st.
             if st = InstanceStateNameShutoff
             then bnd (deref (PvmInstanceID inst)) (DeleteInstance E client)
             else ok ()))"

definition processorValue :: "IntOrString \<Rightarrow> goerr + float64" where
  "processorValue processors =
     (case processors of
        IntVal w \<Rightarrow> Inr (float64_of_int32 w)
      | StrVal str \<Rightarrow> (case ParseFloat str of
          Inl err \<Rightarrow> Inl (MachineError InvalidConfiguration
                       (''failed to convert Processors '' @ str @ '' to float64''))
        | Inr x \<Rightarrow> Inr x))"

definition launchInstance ::
    "env \<Rightarrow> powerVSClient \<Rightarrow> Machine \<Rightarrow> PowerVSMachineProviderConfig \<Rightarrow> string
      \<Rightarrow> ('x world_scheme, PVMInstance option) errprog" where
  "launchInstance E client m machineProviderConfig userData =
     (case processorValue (Processors machineProviderConfig) of
        Inl err \<Rightarrow> fail err
      | Inr processors \<Rightarrow>
          bndE (mapErr (\<lambda>err. MachineError InvalidConfiguration (''error getting image ID: '' @ Error err))
                 (getImageID E client (Image machineProviderConfig))) (\<lambda>imageID.
          bndE (mapErr (\<lambda>err. MachineError InvalidConfiguration (''error getting network ID: '' @ Error err))
                 (getNetworkID E client (Network machineProviderConfig))) (\<lambda>networkID.
          bndE (mapErr (\<lambda>err. MachineError CreateMachineError
                        (''error creating powervs instance: '' @ Error err))
                 (CreateInstance E client
                   \<lparr>c_ImageID = imageID, c_KeyPairName = KeyPairName machineProviderConfig,
                    c_Networks = [networkID], c_ServerName = m_Name m,
                    c_Memory = float64_of_int32 (MemoryGiB machineProviderConfig),
                    c_Processors = processors,
                    c_ProcType = ToLower (ProcessorType machineProviderConfig),
                    c_SysType = ToLower (SystemType machineProviderConfig),
                    c_UserData = EncodeToString userData\<rparr>)) (\<lambda>l.
          bnd (deref l) (\<lambda>instances.
          bnd (foldP (\<lambda>inst insIDs. bnd (deref (PvmInstanceID inst)) (\<lambda>insID. ret (insIDs @ [insID])))
                 instances []) (\<lambda>insIDs.
            case insIDs of
              [] \<Rightarrow> fail (MachineError CreateMachineError
                      (''error getting the instance ID post deployment for: '' @ m_Name m))
            | insID # _ \<Rightarrow>
                mapErr (\<lambda>err. MachineError CreateMachineError
                          (''error getting the instance for ID: '' @ insID))
                  (GetInstance E client insID)))))))"

section \<open>Lookups by name\<close>

locale named_resource =
  fixes resolve :: "PowerVSResource \<Rightarrow> ('s, string) errprog"
    and listing :: "('s, 'i list option) errprog"
    and name_of :: "'i \<Rightarrow> string option"
    and id_of :: "'i \<Rightarrow> string option"
    and missing :: "string \<Rightarrow> goerr"
  assumes resolve_ID: "res_Type r = ''ID'' \<Longrightarrow> res_ID r = Some ident \<Longrightarrow> resolve r = ok ident"
    and resolve_Name: "res_Type r = ''Name'' \<Longrightarrow> res_Name r = Some n \<Longrightarrow> resolve r =
      bndE listing (\<lambda>l. bnd (deref l) (\<lambda>items.
        bnd (findP (\<lambda>i. bnd (deref (name_of i)) (\<lambda>x. ret (x = n))) items) (\<lambda>found.
          case found of Some i \<Rightarrow> bnd (deref (id_of i)) ok | None \<Rightarrow> fail (missing n))))"
begin

lemma resolve_Name_found:
  assumes "res_Type r = ''Name''" "res_Name r = Some n"
    and list: "listing s = (Val (Inr (Some items)), t)" "\<forall>i\<in>set items. name_of i \<noteq> None"
  shows "resolve r s = (case List.find (\<lambda>i. name_of i = Some n) items of
      None \<Rightarrow> (Val (Inl (missing n)), t)
    | Some i \<Rightarrow> (case id_of i of None \<Rightarrow> (Panic, t) | Some x \<Rightarrow> (Val (Inr x), t)))"
  using list by (simp add: resolve_Name [OF assms(1,2)] prog_simps findP_name split: option.split)

text \<open>If names are unique in the listing, the lookup by name inverts the naming.\<close>

lemma resolve_Name_unique:
  assumes "res_Type r = ''Name''" "res_Name r = Some n"
    and list: "listing s = (Val (Inr (Some items)), t)" "\<forall>i\<in>set items. name_of i \<noteq> None"
    and "distinct (map name_of items)" and i: "i \<in> set items" "name_of i = Some n" "id_of i = Some x"
  shows "resolve r s = (Val (Inr x), t)"
proof -
  have "List.find (\<lambda>i. name_of i = Some n) items = Some i"
    using assms(5) i(1,2) by (induction items) (auto simp: image_iff)
  then show ?thesis using resolve_Name_found [OF assms(1,2) list] i(3) by simp
qed

end

interpretation image: named_resource "getImageID E client" "GetImages E client" img_Name img_ImageID
    "\<lambda>n. PlainError (''failed to find an image ID with name '' @ n)" for E client
  by unfold_locales (simp_all add: getImageID_def del: append_Cons)

interpretation network: named_resource "getNetworkID E client" "GetNetworks E client" nw_Name nw_NetworkID
    "\<lambda>n. PlainError (''failed to find an network ID with name '' @ n)" for E client
  by unfold_locales (simp_all add: getNetworkID_def del: append_Cons)

section \<open>Which calls the operations make\<close>

text \<open>Reads of the Power VS service instance: no call changes anything.\<close>

fun service_read :: "call \<Rightarrow> bool" where
  "service_read (CallGetImages _) = True"
| "service_read (CallGetNetworks _) = True"
| "service_read (CallGetInstances _) = True"
| "service_read (CallGetInstance _ _) = True"
| "service_read _ = False"

context world_inv
begin

lemma keeps_getImageID [keeps_intros]:
  "(\<And>sid. P (CallGetImages sid)) \<Longrightarrow> keeps R (getImageID E p r)"
  unfolding getImageID_def by (intro keeps_intros; assumption)

lemma keeps_getNetworkID [keeps_intros]:
  "(\<And>sid. P (CallGetNetworks sid)) \<Longrightarrow> keeps R (getNetworkID E p r)"
  unfolding getNetworkID_def by (intro keeps_intros; assumption)

lemma keeps_removeStoppedMachine [keeps_intros]:
  "(\<And>sid. P (CallGetInstances sid)) \<Longrightarrow> (\<And>sid i. P (CallGetInstance sid i)) \<Longrightarrow>
   (\<And>sid i. P (CallDeleteInstance sid i)) \<Longrightarrow> keeps R (removeStoppedMachine E p m)"
  unfolding removeStoppedMachine_def by (intro keeps_intros; assumption)

lemma keeps_launchInstance [keeps_intros]:
  "(\<And>sid. P (CallGetImages sid)) \<Longrightarrow> (\<And>sid. P (CallGetNetworks sid)) \<Longrightarrow>
   (\<And>sid c. P (CallCreateInstance sid c)) \<Longrightarrow> (\<And>sid i. P (CallGetInstance sid i)) \<Longrightarrow>
   keeps R (launchInstance E p m cfg ud)"
  unfolding launchInstance_def by (intro keeps_intros; assumption)

end

section \<open>What a launch asks for\<close>

lemma foldP_ids:
  "foldP (\<lambda>inst insIDs. bnd (deref (PvmInstanceID inst)) (\<lambda>i. ret (insIDs @ [i]))) l acc s = (Val ids, t) \<Longrightarrow>
   t = s \<and> map Some ids = map Some acc @ map PvmInstanceID l"
  by (induction l arbitrary: acc) (auto simp: prog_simps split: option.splits)

lemma launch_read_back:
  assumes "bnd (deref lo) (\<lambda>l. bnd (foldP (\<lambda>inst insIDs. bnd (deref (PvmInstanceID inst)) (\<lambda>i. ret (insIDs @ [i]))) l [])
      (\<lambda>insIDs. case insIDs of [] \<Rightarrow> fail e | insID # _ \<Rightarrow> mapErr (f insID) (GetInstance E p insID))) w
    = (Val (Inr i), t)"
  shows "\<exists>l vm. lo = Some l \<and> l \<noteq> [] \<and> PvmInstanceID (hd l) = Some vm \<and> GetInstance E p vm w = (Val (Inr i), t)"
proof -
  obtain l ids w' where lo: "lo = Some l"
      and fold: "foldP (\<lambda>inst insIDs. bnd (deref (PvmInstanceID inst)) (\<lambda>i. ret (insIDs @ [i]))) l [] w = (Val ids, w')"
      and get: "(case ids of [] \<Rightarrow> fail e | insID # _ \<Rightarrow> mapErr (f insID) (GetInstance E p insID)) w' = (Val (Inr i), t)"
    using assms by (auto elim!: bnd_ValE)
  have ids: "w' = w" "map Some ids = map PvmInstanceID l" using foldP_ids [OF fold] by simp_all
  with lo get show ?thesis by (cases ids; cases l) (auto simp: fail_run intro: sym)
qed

lemma processorValue_ok:
  "processorValue v = Inr x \<longleftrightarrow>
   (case v of IntVal w \<Rightarrow> x = float64_of_int32 w | StrVal str \<Rightarrow> ParseFloat str = Inr x)"
  by (auto simp: processorValue_def split: IntOrString.split sum.split)

text \<open>
  C30. A launch that succeeds has resolved the image and the network first, changing nothing, then
  created one VM and read that VM back. The VM is asked for under the machine's name, with the
  resolved image and exactly the resolved network, the processors and memory of the spec, lower-case
  types, and user data that decodes to the machine's user data; the VM read back is the first of
  those the creation answered with.
\<close>

theorem launchInstance_creates_requested:
  assumes "launchInstance E p m cfg ud s = (Val (Inr i), t)"
  shows "\<exists>sid img u net v params l vm.
     cl_InstanceID p = Some sid
   \<and> getImageID E p (Image cfg) s = (Val (Inr img), u)
   \<and> getNetworkID E p (Network cfg) u = (Val (Inr net), v)
   \<and> calls_in service_read s v
   \<and> c_ServerName params = m_Name m \<and> c_ImageID params = img \<and> c_Networks params = [net]
   \<and> c_KeyPairName params = KeyPairName cfg \<and> b64_decode (c_UserData params) = ud
   \<and> c_Memory params = float64_of_int32 (MemoryGiB cfg)
   \<and> (case Processors cfg of IntVal w \<Rightarrow> c_Processors params = float64_of_int32 w
        | StrVal str \<Rightarrow> ParseFloat str = Inr (c_Processors params))
   \<and> c_ProcType params = ToLower (ProcessorType cfg) \<and> c_SysType params = ToLower (SystemType cfg)
   \<and> e_CreateInstance E (trace v) sid params = Inr (Some l) \<and> l \<noteq> [] \<and> PvmInstanceID (hd l) = Some vm
   \<and> e_GetInstance E (trace v @ [CallCreateInstance sid params]) sid vm = Inr i
   \<and> t = v\<lparr>trace := trace v @ [CallCreateInstance sid params, CallGetInstance sid vm]\<rparr>"
proof -
  obtain procs img u net v where procs: "processorValue (Processors cfg) = Inr procs"
      and img: "getImageID E p (Image cfg) s = (Val (Inr img), u)"
      and net: "getNetworkID E p (Network cfg) u = (Val (Inr net), v)"
    using assms by (auto simp: launchInstance_def fail_run split: sum.splits elim!: bndE_okE)
  define params where "params = \<lparr>c_ImageID = img, c_KeyPairName = KeyPairName cfg, c_Networks = [net],
      c_ServerName = m_Name m, c_Memory = float64_of_int32 (MemoryGiB cfg), c_Processors = procs,
      c_ProcType = ToLower (ProcessorType cfg), c_SysType = ToLower (SystemType cfg),
      c_UserData = EncodeToString ud\<rparr>"
  have fields: "c_ServerName params = m_Name m" "c_ImageID params = img" "c_Networks params = [net]"
      "c_KeyPairName params = KeyPairName cfg" "b64_decode (c_UserData params) = ud"
      "c_Memory params = float64_of_int32 (MemoryGiB cfg)"
      "c_ProcType params = ToLower (ProcessorType cfg)" "c_SysType params = ToLower (SystemType cfg)"
    by (simp_all add: params_def b64_decode_EncodeToString)
  have processors: "case Processors cfg of IntVal w \<Rightarrow> c_Processors params = float64_of_int32 w
      | StrVal str \<Rightarrow> ParseFloat str = Inr (c_Processors params)"
    using procs by (cases "Processors cfg") (simp_all add: processorValue_ok params_def)
  obtain lo w where create: "CreateInstance E p params v = (Val (Inr lo), w)"
      and rest: "\<exists>l vm. lo = Some l \<and> l \<noteq> [] \<and> PvmInstanceID (hd l) = Some vm \<and> GetInstance E p vm w = (Val (Inr i), t)"
    using assms procs img net
    by (auto simp: launchInstance_def params_def elim!: bndE_okE dest!: launch_read_back simp del: append_Cons)
  then obtain l vm where l: "lo = Some l" "l \<noteq> []" "PvmInstanceID (hd l) = Some vm"
      and read: "GetInstance E p vm w = (Val (Inr i), t)"
    by blast
  have "keeps (calls_in service_read) (getImageID E p (Image cfg))"
    and "keeps (calls_in service_read) (getNetworkID E p (Network cfg))"
    by (intro keeps_intros; simp)+
  then have reads: "calls_in service_read s v"
    using img net by (blast intro: calls.R_trans dest: keepsD)
  obtain sid where sid: "cl_InstanceID p = Some sid" "e_CreateInstance E (trace v) sid params = Inr (Some l)"
      and w: "w = v\<lparr>trace := trace v @ [CallCreateInstance sid params]\<rparr>"
    using create l(1) by (auto simp: CreateInstance_def prog_simps split: option.splits)
  have get: "e_GetInstance E (trace v @ [CallCreateInstance sid params]) sid vm = Inr i"
    and t: "t = v\<lparr>trace := trace v @ [CallCreateInstance sid params, CallGetInstance sid vm]\<rparr>"
    using read sid(1) w by (simp_all add: GetInstance_def prog_simps)
  show ?thesis
    using sid img net reads fields processors l(2,3) get t by blast
qed

text \<open>A small cloud for the examples: one network, one image, one VM.\<close>

definition demo_client :: powerVSClient where
  "demo_client = \<lparr>cl_region = ''dal'', cl_zone = ''dal12'', cl_InstanceID = Some ''S'', cl_VPC = Some ''vpc'',
     cl_rcURL = []\<rparr>"

definition demo_config :: PowerVSMachineProviderConfig where
  "demo_config = zero_config\<lparr>CredentialsSecret := Some ''cred'', Image := zero_resource\<lparr>res_Type := ''ID'', res_ID := Some ''img-1''\<rparr>,
     Network := zero_resource\<lparr>res_Type := ''Name'', res_Name := Some ''net''\<rparr>,
     Processors := IntVal 1, MemoryGiB := 32\<rparr>"

definition demo_machine :: Machine where
  "demo_machine = \<lparr>m_Name = ''vm-0'', m_Namespace = ''ns'', m_ResourceVersion = ''1'',
     m_Labels = Some [MachineClusterIDLabel \<mapsto> ''c1''], m_Annotations = None, m_SpecLabels = None,
     m_ProviderSpec = Some ''spec'', m_ProviderID = None,
     m_Status = \<lparr>NodeRef = None, LastUpdated = None, ProviderStatus = Some ''status'', Addresses = []\<rparr>\<rparr>"

definition demo_vm :: "string \<Rightarrow> PVMInstance" where
  "demo_vm status = \<lparr>PvmInstanceID = Some ''id-0'', ServerName = Some ''vm-0'', InstanceStatus = Some status,
     SysType = ''s922'', Networks = []\<rparr>"

definition demo_env :: "string \<Rightarrow> env" where
  "demo_env status = base_env\<lparr>
     e_GetNetworks := \<lambda>_ _. Inr (Some [\<lparr>nw_Name = Some ''other'', nw_NetworkID = Some ''n-0''\<rparr>,
       \<lparr>nw_Name = Some ''net'', nw_NetworkID = Some ''n-1''\<rparr>]),
     e_CreateInstance := \<lambda>_ _ _. Inr (Some [demo_vm status]),
     e_GetInstances := \<lambda>_ _. Inr (Some [\<lparr>ref_PvmInstanceID = Some ''id-0'', ref_ServerName = Some ''vm-0''\<rparr>]),
     e_GetInstance := \<lambda>_ _ _. Inr (Some (demo_vm status)),
     e_DeleteInstance := \<lambda>_ _ _. Inr (),
     e_unmarshalSpec := \<lambda>_. Inr (Some demo_config),
     e_unmarshalStatus := \<lambda>_. Inr (zero_status\<lparr>ServiceInstanceID := Some ''S''\<rparr>),
     e_marshalStatus := \<lambda>_. Inr ''status'',
     e_GetSecret := \<lambda>_ _ _. Inr [''ibmcloud_api_key'' \<mapsto> ''key''],
     e_GetInfrastructure := \<lambda>_ _. Inr \<lparr>infra_Spec_PowerVS = None, infra_PlatformStatus = None\<rparr>,
     e_NewSDKClient := \<lambda>_ _ _. Inr (),
     e_GetResourceInstance := \<lambda>_ g. Inr (Some \<lparr>GUID = Some g, RegionID = Some ''dal12''\<rparr>),
     e_GetRegion := \<lambda>_. Inr ''dal'', e_VPCRegion := \<lambda>_. Inr ''us-south'',
     e_Authenticate := \<lambda>_ _ _. Inr ''Bearer token'', e_jwt_Parse := \<lambda>_. (Some ''account'', None),
     e_PatchMachine := \<lambda>_ m _. Inr (m\<lparr>m_ResourceVersion := ''2''\<rparr>),
     e_PatchMachineStatus := \<lambda>_ m _. Inr m\<rparr>"

definition demo_world :: world where
  "demo_world = \<lparr>trace = [], osenv = Map.empty\<rparr>"

lemmas demo_defs = demo_client_def demo_config_def demo_machine_def demo_env_def demo_world_def
  demo_vm_def base_env_def zero_config_def zero_resource_def zero_status_def

theorem launchInstance_creates_requested_witness:
  "\<exists>t v params. launchInstance (demo_env ''BUILD'') demo_client demo_machine demo_config ''hi'' demo_world
       = (Val (Inr (Some (demo_vm ''BUILD''))), t)
     \<and> t = v\<lparr>trace := trace v @ [CallCreateInstance ''S'' params, CallGetInstance ''S'' ''id-0'']\<rparr>
     \<and> c_ServerName params = ''vm-0'' \<and> c_Networks params = [''n-1''] \<and> b64_decode (c_UserData params) = ''hi''"
proof -
  obtain t where run: "launchInstance (demo_env ''BUILD'') demo_client demo_machine demo_config ''hi'' demo_world
       = (Val (Inr (Some (demo_vm ''BUILD''))), t)"
    by (simp add: launchInstance_def processorValue_def getImageID_def getNetworkID_def client_calls
        prog_simps demo_defs)
  have net: "fst (getNetworkID (demo_env ''BUILD'') demo_client (Network demo_config) u) = Val (Inr ''n-1'')"
    for u :: world
    by (simp add: getNetworkID_def client_calls prog_simps demo_defs)
  have "cl_InstanceID demo_client = Some ''S''" "m_Name demo_machine = ''vm-0''"
    by (simp_all add: demo_client_def demo_machine_def)
  moreover have "e_CreateInstance (demo_env ''BUILD'') h c p = Inr (Some [demo_vm ''BUILD''])" for h c p
    by (simp add: demo_env_def)
  moreover have "PvmInstanceID (demo_vm ''BUILD'') = Some ''id-0''" by (simp add: demo_vm_def)
  ultimately show ?thesis
    using launchInstance_creates_requested [OF run] run net
    by (metis Inr_inject fst_conv list.sel(1) option.inject outcome.inject)
qed

section \<open>Removing a stopped machine\<close>

lemma removeStoppedMachine_deletes:
  assumes "removeStoppedMachine E p m s = (r, t)"
    and "trace t = trace s @ tr" and "CallDeleteInstance sid vm \<in> set tr"
  shows "\<exists>inst u. GetInstanceByName E p (m_Name m) s = (Val (Inr (Some inst)), u)
    \<and> InstanceStatus inst = Some ''SHUTOFF'' \<and> PvmInstanceID inst = Some vm
    \<and> cl_InstanceID p = Some sid \<and> t = u\<lparr>trace := trace u @ [CallDeleteInstance sid vm]\<rparr>"
proof -
  obtain o1 u where get: "GetInstanceByName E p (m_Name m) s = (o1, u)" by (cases "GetInstanceByName E p (m_Name m) s")
  have "keeps (calls_in service_read) (GetInstanceByName E p (m_Name m))"
    by (intro keeps_intros; simp)
  from keepsD [OF this get] obtain tr' where u: "trace u = trace s @ tr'" "list_all service_read tr'"
    by (auto simp: calls_in_def)
  then have "CallDeleteInstance sid vm \<notin> set tr'" by (auto simp: list_all_iff)
  with u assms(2,3) have "t \<noteq> u" by auto
  with assms(1) get have "\<exists>inst. o1 = Val (Inr (Some inst)) \<and> InstanceStatus inst = Some ''SHUTOFF''
      \<and> (\<exists>i sid'. PvmInstanceID inst = Some i \<and> cl_InstanceID p = Some sid' \<and> t = u\<lparr>trace := trace u @ [CallDeleteInstance sid' i]\<rparr>)"
    by (auto simp: removeStoppedMachine_def DeleteInstance_def prog_simps InstanceStateNameShutoff_def
        split: run_splits)
  with get u assms(2,3) \<open>CallDeleteInstance sid vm \<notin> set tr'\<close> show ?thesis by auto
qed

lemma removeStoppedMachine_deletes_iff:
  assumes "removeStoppedMachine E p m s = (r, t)" and "trace t = trace s @ tr"
  shows "CallDeleteInstance sid vm \<in> set tr \<longleftrightarrow> cl_InstanceID p = Some sid \<and>
    (\<exists>inst u. GetInstanceByName E p (m_Name m) s = (Val (Inr (Some inst)), u)
      \<and> InstanceStatus inst = Some ''SHUTOFF'' \<and> PvmInstanceID inst = Some vm)" (is "?D \<longleftrightarrow> ?R")
proof
  assume ?D
  from removeStoppedMachine_deletes [OF assms this] show ?R by blast
next
  assume ?R
  then obtain inst u where sid: "cl_InstanceID p = Some sid"
      and got: "GetInstanceByName E p (m_Name m) s = (Val (Inr (Some inst)), u)"
      and inst: "InstanceStatus inst = Some ''SHUTOFF''" "PvmInstanceID inst = Some vm"
    by blast
  have "keeps (calls_in service_read) (GetInstanceByName E p (m_Name m))"
    by (intro keeps_intros; simp)
  from keepsD [OF this got] obtain tr' where "trace u = trace s @ tr'" by (auto simp: calls_in_def)
  moreover have "trace t = trace u @ [CallDeleteInstance sid vm]"
    using assms(1) got sid inst
    by (auto simp: removeStoppedMachine_def DeleteInstance_def prog_simps InstanceStateNameShutoff_def
        split: run_splits)
  ultimately show ?D using assms(2) by auto
qed

section \<open>Resolving references\<close>

text \<open>
  A lookup by name inverts the naming: if the names in the listing are unique, \<open>getImageID\<close> and
  \<open>getNetworkID\<close> answer the ID of the one item that has the name, wherever it is in the list.
\<close>

lemma lookup_by_unique_name:
  assumes "cl_InstanceID p = Some sid" and "res_Type r = ''Name''" and "res_Name r = Some n"
    and "e_GetImages E (trace s) sid = Inr (Some imgs)" and "e_GetNetworks E (trace s) sid = Inr (Some nws)"
    and "\<forall>i\<in>set imgs. img_Name i \<noteq> None" and "\<forall>i\<in>set nws. nw_Name i \<noteq> None"
    and "distinct (map img_Name imgs)" and "distinct (map nw_Name nws)"
    and "img \<in> set imgs" and "img_Name img = Some n" and "img_ImageID img = Some x"
    and "nw \<in> set nws" and "nw_Name nw = Some n" and "nw_NetworkID nw = Some y"
  shows "fst (getImageID E p r s) = Val (Inr x) \<and> fst (getNetworkID E p r s) = Val (Inr y)"
proof -
  have "GetImages E p s = (Val (Inr (Some imgs)), s\<lparr>trace := trace s @ [CallGetImages sid]\<rparr>)"
    and "GetNetworks E p s = (Val (Inr (Some nws)), s\<lparr>trace := trace s @ [CallGetNetworks sid]\<rparr>)"
    using assms by (simp_all add: client_calls prog_simps)
  with assms show ?thesis
    using image.resolve_Name_unique [of r n E p s imgs _ img x]
      network.resolve_Name_unique [of r n E p s nws _ nw y] by simp
qed

text \<open>
  A network given by a regular expression is the first one in the listing whose name matches; if
  none does, the lookup fails. Nothing but the listing is read.
\<close>

lemma getNetworkID_regex_first_match:
  assumes "cl_InstanceID p = Some sid" and "res_Type r = ''RegEx''" and "res_RegEx r = Some re"
    and "e_regexp E re = Inr matches" and "e_GetNetworks E (trace s) sid = Inr (Some nws)"
    and "\<forall>nw\<in>set nws. nw_Name nw \<noteq> None \<and> nw_NetworkID nw \<noteq> None"
  shows "getNetworkID E p r s =
    (Val (case List.find (\<lambda>nw. matches (the (nw_Name nw))) nws of
        None \<Rightarrow> Inl (PlainError (''failed to find an network ID with RegEx '' @ re))
      | Some nw \<Rightarrow> Inr (the (nw_NetworkID nw))), s\<lparr>trace := trace s @ [CallGetNetworks sid]\<rparr>)"
proof -
  have "findP (\<lambda>nw. bnd (deref (nw_Name nw)) (\<lambda>n. ret (matches n))) nws u
      = (Val (List.find (\<lambda>nw. matches (the (nw_Name nw))) nws), u)" for u :: "'a world_scheme"
    using assms(6) by (intro findP_pure) (auto simp: prog_simps)
  moreover have "nw_NetworkID nw \<noteq> None"
    if "List.find (\<lambda>nw. matches (the (nw_Name nw))) nws = Some nw" for nw
    using that assms(6) by (auto simp: find_Some_iff)
  ultimately show ?thesis
    using assms(1-5)
    by (auto simp: getNetworkID_def client_calls prog_simps split: option.split simp del: append_Cons)
qed

end
