(* ===== verification/Dhcp_Cache.thy ===== *)
theory Dhcp_Cache
  imports World
begin

text \<open>
  \<open>pkg/actuators/machine/caching.go\<close> and the store it is kept in: the cache from VM names to the IP
  addresses read from DHCP leases. The store is client-go's \<open>ExpirationCache\<close> with a TTL policy
  (\<open>cache.NewTTLStore(CacheKeyFunc, CacheTTL)\<close> in \<open>cmd/manager/main.go\<close>); its vendored source is
  modelled, without the lock, since each operation holds it from start to end. Entries expire when
  they are read. The locale \<open>ttl_store\<close> is what the reconciler relies on.
\<close>

section \<open>Definitions\<close>

definition CacheTTL :: int where
  "CacheTTL = 20 * 60 * 1000000000"

record vmIP =
  vm_name :: string
  vm_ip :: string

text \<open>\<open>CacheKeyFunc\<close> always answers a nil error.\<close>

definition CacheKeyFunc :: "vmIP \<Rightarrow> string" where
  "CacheKeyFunc obj = vm_name obj"

record TimestampedEntry =
  te_Obj :: vmIP
  te_Timestamp :: int

record cache_world = world +
  dhcpIPCacheStore :: "string \<rightharpoonup> TimestampedEntry"

definition IsExpired :: "env \<Rightarrow> int \<Rightarrow> TimestampedEntry \<Rightarrow> ('x cache_world_scheme, bool) prog" where
  "IsExpired E ttl entry =
     (if ttl > 0 then bnd (Now E) (\<lambda>now. ret (now - te_Timestamp entry > ttl)) else ret False)"

definition cache_GetByKey :: "env \<Rightarrow> string \<Rightarrow> ('x cache_world_scheme, vmIP option) prog" where
  "cache_GetByKey E key =
     bnd (gets (\<lambda>s. dhcpIPCacheStore s key)) (\<lambda>item.
       case item of
         None \<Rightarrow> ret None
       | Some timestampedItem \<Rightarrow>
           bnd (IsExpired E CacheTTL timestampedItem) (\<lambda>expired.
             if expired
             then bnd (modify (\<lambda>s. s\<lparr>dhcpIPCacheStore := (dhcpIPCacheStore s)(key := None)\<rparr>)) (\<lambda>_. ret None)
             else ret (Some (te_Obj timestampedItem))))"

definition cache_Add :: "env \<Rightarrow> vmIP \<Rightarrow> ('x cache_world_scheme, unit) prog" where
  "cache_Add E obj =
     bnd (Now E) (\<lambda>now.
       modify (\<lambda>s. s\<lparr>dhcpIPCacheStore :=
         (dhcpIPCacheStore s)(CacheKeyFunc obj \<mapsto> \<lparr>te_Obj = obj, te_Timestamp = now\<rparr>)\<rparr>))"

definition cache_Delete :: "vmIP \<Rightarrow> ('x cache_world_scheme, unit) prog" where
  "cache_Delete obj = modify (\<lambda>s. s\<lparr>dhcpIPCacheStore := (dhcpIPCacheStore s)(CacheKeyFunc obj := None)\<rparr>)"

section \<open>The contract\<close>

datatype cache_op = OpAdd vmIP | OpGet string | OpDelete vmIP

locale ttl_store =
  fixes add :: "vmIP \<Rightarrow> ('s, unit) prog"
    and get :: "string \<Rightarrow> ('s, vmIP option) prog"
    and remove :: "vmIP \<Rightarrow> ('s, unit) prog"
    and view :: "'s \<Rightarrow> string \<rightharpoonup> (vmIP \<times> int)"
    and clock :: "'s \<Rightarrow> int"
    and ttl :: int
  assumes add_law: "\<exists>t. add v s = (Val (), t) \<and> view t = (view s)(vm_name v \<mapsto> (v, clock s))"
    and get_law: "\<exists>t. get k s = (Val (case view s k of None \<Rightarrow> None
          | Some (v, ts) \<Rightarrow> if clock s - ts > ttl then None else Some v), t)
        \<and> (view t = view s \<and> (\<forall>v ts. view s k = Some (v, ts) \<longrightarrow> clock s - ts \<le> ttl)
           \<or> view t = (view s)(k := None) \<and> (\<exists>v ts. view s k = Some (v, ts) \<and> clock s - ts > ttl))"
    and remove_law: "\<exists>t. remove v s = (Val (), t) \<and> view t = (view s)(vm_name v := None)"
begin

fun step :: "cache_op \<Rightarrow> 's \<Rightarrow> 's" where
  "step (OpAdd v) s = snd (add v s)"
| "step (OpGet k) s = snd (get k s)"
| "step (OpDelete v) s = snd (remove v s)"

lemma get_after_remove: "snd (remove v s) = t \<Longrightarrow> fst (get (vm_name v) t) = Val None"
  using remove_law [of v s] get_law [of "vm_name v" t] by auto

text \<open>
  An entry that was added with time stamp \<open>ts\<close> stays, through operations that neither add nor delete
  its key, until it is too old; reads of it or of other keys do not matter.
\<close>

lemma entry_survives:
  assumes mono: "\<And>op s. clock s \<le> clock (step op s)"
    and "list_all (\<lambda>op. case op of OpAdd w \<Rightarrow> vm_name w \<noteq> vm_name v | OpGet _ \<Rightarrow> True
           | OpDelete w \<Rightarrow> vm_name w \<noteq> vm_name v) ops"
    and "view s (vm_name v) = Some (v, ts) \<or> view s (vm_name v) = None \<and> clock s - ts > ttl"
  shows "let t = fold step ops s in
    view t (vm_name v) = Some (v, ts) \<or> view t (vm_name v) = None \<and> clock t - ts > ttl"
  using assms(2,3)
proof (induction ops arbitrary: s)
  case (Cons op ops)
  let ?P = "\<lambda>t. view t (vm_name v) = Some (v, ts) \<or> view t (vm_name v) = None \<and> clock t - ts > ttl"
  have later: "clock s - ts > ttl \<Longrightarrow> clock (step op s) - ts > ttl"
    using mono [of s op] by linarith
  have "?P (step op s)"
  proof (cases op)
    case (OpAdd w)
    then show ?thesis using add_law [of w s] Cons.prems later by auto
  next
    case (OpGet k)
    then show ?thesis
      using get_law [of k s] Cons.prems later by (cases "vm_name v = k") auto
  next
    case (OpDelete w)
    then show ?thesis using remove_law [of w s] Cons.prems later by auto
  qed
  with Cons.IH [of "step op s"] Cons.prems show ?case by simp
qed simp

lemma get_after_add:
  assumes mono: "\<And>op s. clock s \<le> clock (step op s)"
    and others: "list_all (\<lambda>op. case op of OpAdd w \<Rightarrow> vm_name w \<noteq> vm_name v | OpGet _ \<Rightarrow> True
           | OpDelete w \<Rightarrow> vm_name w \<noteq> vm_name v) ops"
  shows "let u = fold step ops (snd (add v s)) in
    fst (get (vm_name v) u) = Val (if clock u - clock s > ttl then None else Some v)"
proof -
  let ?u = "fold step ops (snd (add v s))"
  have "view (snd (add v s)) (vm_name v) = Some (v, clock s)"
    using add_law [of v s] by auto
  with entry_survives [OF mono others, of "snd (add v s)" "clock s"]
  have "view ?u (vm_name v) = Some (v, clock s) \<or> view ?u (vm_name v) = None \<and> clock ?u - clock s > ttl"
    by (simp add: Let_def)
  then show ?thesis using get_law [of "vm_name v" ?u] by auto
qed

end

section \<open>The code's cache\<close>

definition cache_view :: "'x cache_world_scheme \<Rightarrow> string \<rightharpoonup> (vmIP \<times> int)" where
  "cache_view s k = map_option (\<lambda>e. (te_Obj e, te_Timestamp e)) (dhcpIPCacheStore s k)"

lemma cache_GetByKey_run:
  "cache_GetByKey E k s =
     (case dhcpIPCacheStore s k of
        None \<Rightarrow> (Val None, s)
      | Some e \<Rightarrow> (let t = s\<lparr>trace := trace s @ [TimeNow]\<rparr> in
          if e_Now E (trace s) - te_Timestamp e > CacheTTL
          then (Val None, t\<lparr>dhcpIPCacheStore := (dhcpIPCacheStore s)(k := None)\<rparr>)
          else (Val (Some (te_Obj e)), t)))"
  by (simp add: cache_GetByKey_def IsExpired_def basic_calls prog_simps CacheTTL_def Let_def
      split: option.split)

lemma cache_Add_run:
  "cache_Add E v s = (Val (), s\<lparr>trace := trace s @ [TimeNow],
     dhcpIPCacheStore := (dhcpIPCacheStore s)(vm_name v \<mapsto> \<lparr>te_Obj = v, te_Timestamp = e_Now E (trace s)\<rparr>)\<rparr>)"
  by (simp add: cache_Add_def basic_calls prog_simps CacheKeyFunc_def)

lemma cache_Delete_run:
  "cache_Delete v s = (Val (), s\<lparr>dhcpIPCacheStore := (dhcpIPCacheStore s)(vm_name v := None)\<rparr>)"
  by (simp add: cache_Delete_def prog_simps CacheKeyFunc_def)

interpretation dhcp: ttl_store "cache_Add E" "cache_GetByKey E" cache_Delete cache_view
    "\<lambda>s. e_Now E (trace s)" CacheTTL for E :: env
proof
  fix v :: vmIP and k and s :: "'x cache_world_scheme"
  show "\<exists>t. cache_Add E v s = (Val (), t) \<and>
      cache_view t = (cache_view s)(vm_name v \<mapsto> (v, e_Now E (trace s)))"
    by (auto simp: cache_Add_run cache_view_def fun_eq_iff)
  show "\<exists>t. cache_Delete v s = (Val (), t) \<and> cache_view t = (cache_view s)(vm_name v := None)"
    by (auto simp: cache_Delete_run cache_view_def fun_eq_iff)
  show "\<exists>t. cache_GetByKey E k s = (Val (case cache_view s k of None \<Rightarrow> None
          | Some (v, ts) \<Rightarrow> if e_Now E (trace s) - ts > CacheTTL then None else Some v), t)
        \<and> (cache_view t = cache_view s \<and>
             (\<forall>v ts. cache_view s k = Some (v, ts) \<longrightarrow> e_Now E (trace s) - ts \<le> CacheTTL)
           \<or> cache_view t = (cache_view s)(k := None) \<and>
             (\<exists>v ts. cache_view s k = Some (v, ts) \<and> e_Now E (trace s) - ts > CacheTTL))"
    by (cases "dhcpIPCacheStore s k") (auto simp: cache_GetByKey_run cache_view_def Let_def fun_eq_iff)
qed

lemma keeps_cache [keeps_intros]:
  assumes "P TimeNow"
  shows "keeps (calls_in P) (cache_GetByKey E k)" "keeps (calls_in P) (cache_Add E v)"
    and "keeps (calls_in P) (cache_Delete w)"
  using assms
  by (auto simp: keeps_def calls_in_def cache_GetByKey_run cache_Add_run cache_Delete_run Let_def
      split: option.split)

section \<open>What a read answers\<close>

definition cache_step :: "env \<Rightarrow> cache_op \<Rightarrow> 'x cache_world_scheme \<Rightarrow> 'x cache_world_scheme" where
  "cache_step E op s = (case op of OpAdd v \<Rightarrow> snd (cache_Add E v s)
     | OpGet k \<Rightarrow> snd (cache_GetByKey E k s) | OpDelete v \<Rightarrow> snd (cache_Delete v s))"

lemma cache_step_eq: "cache_step E = dhcp.step E"
proof (intro ext)
  show "cache_step E op s = dhcp.step E op s" for op and s :: "'x cache_world_scheme"
    by (cases op) (simp_all add: cache_step_def)
qed

lemma cache_step_clock:
  assumes "\<forall>h c. e_Now E h \<le> e_Now E (h @ [c])"
  shows "e_Now E (trace s) \<le> e_Now E (trace (cache_step E op s))"
  using assms
  by (auto simp: cache_step_def cache_Add_run cache_GetByKey_run cache_Delete_run Let_def
      split: cache_op.split option.split)

text \<open>
  C34. If the clock does not go back, then after \<open>Add\<close> of an IP for a VM and any sequence of operations
  that does not add or delete that VM again (reads of any key included), a read for the VM answers
  that IP for 20 minutes from the \<open>Add\<close>, and nothing from then on.
\<close>

theorem cache_read_after_add:
  assumes "\<forall>h c. e_Now E h \<le> e_Now E (h @ [c])"
    and "list_all (\<lambda>op. case op of OpAdd w \<Rightarrow> vm_name w \<noteq> vm_name v | OpGet _ \<Rightarrow> True
           | OpDelete w \<Rightarrow> vm_name w \<noteq> vm_name v) ops"
    and "u = fold (cache_step E) ops (snd (cache_Add E v s))"
  shows "fst (cache_GetByKey E (vm_name v) u) =
    Val (if e_Now E (trace u) - e_Now E (trace s) > 20 * 60 * 10 ^ 9 then None else Some v)"
  using dhcp.get_after_add [OF cache_step_clock [OF assms(1), unfolded cache_step_eq] assms(2), of s]
    assms(3)
  by (simp add: Let_def cache_step_eq CacheTTL_def)

theorem cache_read_after_add_witness:
  "fst (cache_GetByKey base_env ''vm-0'' (fold (cache_step base_env) [OpGet ''vm-0'', OpDelete \<lparr>vm_name = ''b'', vm_ip = []\<rparr>]
      (snd (cache_Add base_env \<lparr>vm_name = ''vm-0'', vm_ip = ''10.0.0.1''\<rparr>
         \<lparr>trace = [], osenv = Map.empty, dhcpIPCacheStore = Map.empty\<rparr>))))
   = Val (Some \<lparr>vm_name = ''vm-0'', vm_ip = ''10.0.0.1''\<rparr>)"
  by (subst cache_read_after_add [where v = "\<lparr>vm_name = ''vm-0'', vm_ip = ''10.0.0.1''\<rparr>"
        and s = "\<lparr>trace = [], osenv = Map.empty, dhcpIPCacheStore = Map.empty\<rparr>"
        and ops = "[OpGet ''vm-0'', OpDelete \<lparr>vm_name = ''b'', vm_ip = []\<rparr>]", simplified])
    (simp_all add: base_env_def cache_step_def cache_Add_run cache_GetByKey_run cache_Delete_run Let_def)

end
