(* ===== verification/Machine_Scope.thy ===== *)
theory Machine_Scope
  imports Instances Dhcp_Cache
begin

text \<open>
  \<open>pkg/actuators/machine/machine_scope.go\<close> and \<open>pkg/options/options.go\<close>. A scope holds two objects
  that the reconciler changes in place, the machine and the decoded provider status: they are fields
  of the state, beside the DHCP cache that all scopes share. What a scope does not change (the cloud
  client, the copy of the machine that patches are computed against, the provider spec) is the record
  \<open>machineScope\<close>.
\<close>

section \<open>Definitions\<close>

record scope_world = cache_world +
  machine :: Machine
  providerStatus :: PowerVSMachineProviderStatus

record machineScope =
  powerVSClient_of :: powerVSClient
  machineToBePatched :: Machine
  providerSpec :: "PowerVSMachineProviderConfig option"

definition GetDebugMode :: "env \<Rightarrow> bool" where
  "GetDebugMode E = (e_Debug E = Some True)"

definition newMachineScope :: "env \<Rightarrow> ('x scope_world_scheme, machineScope) errprog" where
  "newMachineScope E =
     bnd (gets machine) (\<lambda>m.
       case ProviderSpecFromRawExtension E (m_ProviderSpec m) of
         Inl err \<Rightarrow> fail (MachineError InvalidConfiguration (''failed to get machine config: '' @ Error err))
       | Inr spec \<Rightarrow>
           (case ProviderStatusFromRawExtension E (ProviderStatus (m_Status m)) of
              Inl err \<Rightarrow> fail (MachineError InvalidConfiguration
                           (''failed to get machine provider status: '' @ Error err))
            | Inr status \<Rightarrow>
                bnd (modify (\<lambda>s. s\<lparr>providerStatus := status\<rparr>)) (\<lambda>_.
                bnd (deref spec) (\<lambda>sp.
                let credentialsSecretName = (case CredentialsSecret sp of None \<Rightarrow> [] | Some n \<Rightarrow> n) in
                bndE (case ServiceInstanceID status of
                        Some sid \<Rightarrow> ok (Some sid)
                      | None \<Rightarrow>
                          bndE (mapErr (\<lambda>err. MachineError InvalidConfiguration
                                   (''failed creating minimalPowerVS client Error: '' @ Error err))
                                 (NewMinimalPowerVSClient E)) (\<lambda>minimalPowerVSClient.
                          bndE (mapErr (\<lambda>err. MachineError InvalidConfiguration
                                   (''error getting ServiceInstance ID, Error: '' @ Error err))
                                 (getServiceInstanceID E (ServiceInstance sp))) (\<lambda>serviceInstanceID.
                          bnd (modify (\<lambda>s. s\<lparr>providerStatus :=
                                 (providerStatus s)\<lparr>ServiceInstanceID := serviceInstanceID\<rparr>\<rparr>)) (\<lambda>_.
                            ok serviceInstanceID)))) (\<lambda>serviceInstanceID.
                bnd (deref serviceInstanceID) (\<lambda>sid.
                bndE (mapErr (\<lambda>err. MachineError InvalidConfiguration
                         (''failed to create powervs client: '' @ Error err))
                       (NewValidatedClient E credentialsSecretName (m_Namespace m) sid (GetDebugMode E))) (\<lambda>client.
                bnd (gets machine) (\<lambda>m'.
                  ok \<lparr>powerVSClient_of = client, machineToBePatched = m', providerSpec = spec\<rparr>))))))))"

definition patchMachine :: "env \<Rightarrow> machineScope \<Rightarrow> ('x scope_world_scheme, unit) errprog" where
  "patchMachine E sc =
     bnd (gets providerStatus) (\<lambda>ps.
       case RawExtensionFromProviderStatus E (Some ps) of
         Inl err \<Rightarrow> fail (MachineError InvalidConfiguration
                      (''failed to get machine provider status: '' @ Error err))
       | Inr raw \<Rightarrow>
           bnd (modify (\<lambda>s. s\<lparr>machine := (machine s)\<lparr>m_Status :=
                  (m_Status (machine s))\<lparr>ProviderStatus := Some raw\<rparr>\<rparr>\<rparr>)) (\<lambda>_.
           bnd (gets machine) (\<lambda>m.
           let statusCopy = m_Status m in
           bndE (do_call (KubePatchMachine m (machineToBePatched sc))
                   (\<lambda>h. e_PatchMachine E h m (machineToBePatched sc))) (\<lambda>m'.
           bnd (modify (\<lambda>s. s\<lparr>machine := m'\<lparr>m_Status := statusCopy\<rparr>\<rparr>)) (\<lambda>_.
           bnd (gets machine) (\<lambda>m2.
           bndE (do_call (KubePatchMachineStatus m2 (machineToBePatched sc))
                   (\<lambda>h. e_PatchMachineStatus E h m2 (machineToBePatched sc))) (\<lambda>m3.
           bnd (modify (\<lambda>s. s\<lparr>machine := m3\<rparr>)) ok)))))))"

definition getUserData :: "env \<Rightarrow> machineScope \<Rightarrow> ('x scope_world_scheme, string) errprog" where
  "getUserData E sc =
     (case providerSpec sc of
        None \<Rightarrow> ok []
      | Some sp \<Rightarrow>
          (case UserDataSecret sp of
             None \<Rightarrow> ok []
           | Some name \<Rightarrow>
               bnd (gets (\<lambda>s. m_Namespace (machine s))) (\<lambda>ns.
               bndE (do_call (KubeGetSecret ns name) (\<lambda>h. e_GetSecret E h ns name)) (\<lambda>data.
                 case data ''userData'' of
                   None \<Rightarrow> fail (PlainError (''secret '' @ ns @ ''/'' @ name @ '' missing userData key''))
                 | Some userData \<Rightarrow> ok userData))))"

definition setProviderStatus :: "env \<Rightarrow> PVMInstance option \<Rightarrow> Condition \<Rightarrow> ('x scope_world_scheme, unit) prog" where
  "setProviderStatus E inst condition =
     bnd (modify (\<lambda>s. s\<lparr>providerStatus :=
            (case inst of
               None \<Rightarrow> (providerStatus s)\<lparr>InstanceID := None, InstanceState := None\<rparr>
             | Some i \<Rightarrow> (providerStatus s)\<lparr>InstanceID := PvmInstanceID i, InstanceState := InstanceStatus i\<rparr>)\<rparr>)) (\<lambda>_.
     bnd (gets (\<lambda>s. Conditions (providerStatus s))) (\<lambda>conditions.
     bnd (setPowerVSMachineProviderCondition E condition conditions) (\<lambda>conditions'.
       modify (\<lambda>s. s\<lparr>providerStatus := (providerStatus s)\<lparr>Conditions := conditions'\<rparr>\<rparr>))))"

section \<open>Which calls the operations make\<close>

text \<open>What setting up a scope reads: credentials, endpoints, the service instance.\<close>

fun setup_call :: "call \<Rightarrow> bool" where
  "setup_call (KubeGetSecret _ _) = True"
| "setup_call (KubeGetInfrastructure _) = True"
| "setup_call (CallNewSDKClient _ _) = True"
| "setup_call (CallGetResourceInstance _) = True"
| "setup_call (CallListResourceInstances _ _) = True"
| "setup_call (CallAuthenticate _ _) = True"
| "setup_call _ = False"

context world_inv
begin

lemma keeps_builders [keeps_intros]:
  assumes "\<And>c. setup_call c \<Longrightarrow> P c"
  shows "keeps R (NewMinimalPowerVSClient E)"
    and "keeps R (NewValidatedClient E secretName namespace sid debug)"
    and "keeps R (getServiceInstanceID E r)"
  unfolding NewMinimalPowerVSClient_def NewValidatedClient_def getServiceInstanceID_def
    GetCloudServiceInstanceByName_def resolveEndpoints_def getAccount_def
  by (intro keeps_intros assms setup_call.simps[THEN iffD2] TrueI)+

end

lemma keeps_newMachineScope [keeps_intros]:
  assumes "\<And>c. setup_call c \<Longrightarrow> P c"
  shows "keeps (calls_in P) (newMachineScope E)"
  unfolding newMachineScope_def
  by (intro keeps_intros keeps_modify_trace assms) simp_all

lemma keeps_patchMachine [keeps_intros]:
  "(\<And>m b. P (KubePatchMachine m b)) \<Longrightarrow> (\<And>m b. P (KubePatchMachineStatus m b)) \<Longrightarrow>
   keeps (calls_in P) (patchMachine E sc)"
  unfolding patchMachine_def by (intro keeps_intros keeps_modify_trace) simp_all

lemma keeps_getUserData [keeps_intros]:
  "(\<And>n m. P (KubeGetSecret n m)) \<Longrightarrow> keeps (calls_in P) (getUserData E sc)"
  unfolding getUserData_def by (intro keeps_intros) simp_all

lemma keeps_setProviderStatus [keeps_intros]:
  "P TimeNow \<Longrightarrow> keeps (calls_in P) (setProviderStatus E inst c)"
  unfolding setProviderStatus_def by (intro keeps_intros keeps_modify_trace) simp_all

section \<open>A new scope\<close>

lemma same_rest_scope:
  fixes s t :: "'x scope_world_scheme"
  assumes "same_rest s t"
  shows "machine t = machine s" "providerStatus t = providerStatus s"
    "dhcpIPCacheStore t = dhcpIPCacheStore s"
  using assms by (cases s, cases t, simp add: same_rest_def)+

lemma builder_rest:
  fixes s t :: "'x scope_world_scheme"
  assumes "NewMinimalPowerVSClient E s = (r, t) \<or> getServiceInstanceID E res s = (r', t)
    \<or> NewValidatedClient E secretName namespace sid debug s = (r, t)"
  shows "machine t = machine s" "providerStatus t = providerStatus s"
    "dhcpIPCacheStore t = dhcpIPCacheStore s"
proof -
  have "same_rest s t"
    using assms keepsD [OF rest.keeps_builders(1)] keepsD [OF rest.keeps_builders(2)]
      keepsD [OF rest.keeps_builders(3)] by blast
  then show "machine t = machine s" "providerStatus t = providerStatus s"
    "dhcpIPCacheStore t = dhcpIPCacheStore s"
    by (simp_all add: same_rest_scope)
qed

lemma NewValidatedClient_ok:
  assumes "NewValidatedClient E secretName namespace sid debug s = (Val (Inr c), t)"
  shows "cl_InstanceID c = Some sid \<and> (\<exists>url. cl_VPC c = Some url)"
  using assms
  by (auto simp: NewValidatedClient_def Let_def fail_run ok_run
      elim!: bndE_okE bnd_ValE split: option.splits sum.splits)

lemma service_instance_ok:
  fixes s t :: "'x scope_world_scheme"
  assumes "(case ServiceInstanceID status of
      Some sid \<Rightarrow> ok (Some sid)
    | None \<Rightarrow>
        bndE (mapErr f (NewMinimalPowerVSClient E)) (\<lambda>minimalPowerVSClient.
        bndE (mapErr g (getServiceInstanceID E res)) (\<lambda>serviceInstanceID.
        bnd (modify (\<lambda>s. s\<lparr>providerStatus := (providerStatus s)\<lparr>ServiceInstanceID := serviceInstanceID\<rparr>\<rparr>)) (\<lambda>_.
          ok serviceInstanceID)))) s = (Val (Inr sido), t)"
    and "providerStatus s = status"
  shows "providerStatus t = status\<lparr>ServiceInstanceID := sido\<rparr> \<and> ServiceInstanceID status \<in> {None, sido}
    \<and> machine t = machine s \<and> dhcpIPCacheStore t = dhcpIPCacheStore s"
proof (cases "ServiceInstanceID status")
  case None
  then obtain c u v where min: "NewMinimalPowerVSClient E s = (Val (Inr c), u)"
      and get: "getServiceInstanceID E res u = (Val (Inr sido), v)"
      and t: "t = v\<lparr>providerStatus := (providerStatus v)\<lparr>ServiceInstanceID := sido\<rparr>\<rparr>"
    using assms(1) by (auto simp: modify_run ok_run elim!: bndE_okE bnd_ValE)
  show ?thesis
    using builder_rest [OF disjI1 [OF min]] builder_rest [OF disjI2 [OF disjI1 [OF get]]] t None assms(2)
    by simp
next
  case (Some sid)
  with assms show ?thesis by (auto simp: ok_run)
qed

text \<open>
  C32. A scope is complete: it has a provider spec, a client built for a service instance, that
  service instance in the provider status (the one the status already had, if any), and as the base
  of its patches the machine as it was. Building it changes neither the machine nor the DHCP cache.
\<close>

theorem newMachineScope_complete:
  assumes "newMachineScope E s = (Val (Inr sc), t)"
  shows "\<exists>sp sid status. providerSpec sc = Some sp
    \<and> ProviderStatusFromRawExtension E (ProviderStatus (m_Status (machine s))) = Inr status
    \<and> providerStatus t = status\<lparr>ServiceInstanceID := Some sid\<rparr>
    \<and> ServiceInstanceID status \<in> {None, Some sid}
    \<and> cl_InstanceID (powerVSClient_of sc) = Some sid \<and> cl_VPC (powerVSClient_of sc) \<noteq> None
    \<and> machineToBePatched sc = machine s \<and> machine t = machine s
    \<and> dhcpIPCacheStore t = dhcpIPCacheStore s"
proof -
  obtain sp status sid u client v where status: "ProviderStatusFromRawExtension E (ProviderStatus (m_Status (machine s))) = Inr status"
    and sido: "providerStatus u = status\<lparr>ServiceInstanceID := Some sid\<rparr>" "ServiceInstanceID status \<in> {None, Some sid}"
      "machine u = machine s" "dhcpIPCacheStore u = dhcpIPCacheStore s"
    and client: "NewValidatedClient E (case CredentialsSecret sp of None \<Rightarrow> [] | Some n \<Rightarrow> n) (m_Namespace (machine s)) sid
      (GetDebugMode E) u = (Val (Inr client), v)"
    and sc: "sc = \<lparr>powerVSClient_of = client, machineToBePatched = machine v, providerSpec = Some sp\<rparr>" "t = v"
    using assms
    by (auto simp: newMachineScope_def Let_def gets_run modify_run ok_run fail_run
        elim!: bndE_okE bnd_ValE split: sum.splits dest!: service_instance_ok)
  with builder_rest [OF disjI2 [OF disjI2 [OF client]]] NewValidatedClient_ok [OF client] show ?thesis
    by auto
qed

definition demo_scope_world :: scope_world where
  "demo_scope_world = \<lparr>trace = [], osenv = Map.empty, dhcpIPCacheStore = Map.empty, machine = demo_machine,
     providerStatus = zero_status\<rparr>"

definition demo_scope :: machineScope where
  "demo_scope = \<lparr>powerVSClient_of = \<lparr>cl_region = ''dal'', cl_zone = ''dal12'', cl_InstanceID = Some ''S'',
     cl_VPC = Some ''https://us-south.iaas.cloud.ibm.com/v1'', cl_rcURL = []\<rparr>,
     machineToBePatched = demo_machine, providerSpec = Some demo_config\<rparr>"

lemma demo_newMachineScope:
  "\<exists>t. newMachineScope (demo_env status) demo_scope_world = (Val (Inr demo_scope), t)"
  by (simp add: newMachineScope_def ProviderSpecFromRawExtension_def ProviderStatusFromRawExtension_def
      NewValidatedClient_def GetAPIKey_def apiKeyFromSecret_def getAndSetServiceEndpoints_def
      resolveEndpoints_def getAccount_def NewSDKClient_def endpoint_def HasPrefix_def Let_def prog_simps
      demo_scope_def demo_scope_world_def demo_defs)

theorem newMachineScope_complete_witness:
  "\<exists>t. newMachineScope (demo_env ''ACTIVE'') demo_scope_world = (Val (Inr demo_scope), t)
     \<and> ServiceInstanceID (providerStatus t) = Some ''S'' \<and> machine t = demo_machine"
proof -
  obtain t where run: "newMachineScope (demo_env ''ACTIVE'') demo_scope_world = (Val (Inr demo_scope), t)"
    using demo_newMachineScope by blast
  from newMachineScope_complete [OF run] run show ?thesis
    by (auto simp: demo_scope_def demo_scope_world_def)
qed

section \<open>Patching\<close>

text \<open>
  C33. A patch that succeeds sends two requests, both computed against the machine as it was when the
  scope was built: the machine, then its status. Although the answer to the first overwrites the
  object in memory, the status sent second is the status the scope computed, with the encoded
  provider status in it.
\<close>

theorem patchMachine_sends_status:
  assumes "patchMachine E sc s = (Val (Inr ()), t)"
  shows "\<exists>raw m m1 m2. e_marshalStatus E (providerStatus s) = Inr raw
    \<and> m = (machine s)\<lparr>m_Status := (m_Status (machine s))\<lparr>ProviderStatus := Some raw\<rparr>\<rparr>
    \<and> e_PatchMachine E (trace s) m (machineToBePatched sc) = Inr m1
    \<and> m2 = m1\<lparr>m_Status := m_Status m\<rparr>
    \<and> e_PatchMachineStatus E (trace s @ [KubePatchMachine m (machineToBePatched sc)]) m2 (machineToBePatched sc)
        = Inr (machine t)
    \<and> trace t = trace s @ [KubePatchMachine m (machineToBePatched sc), KubePatchMachineStatus m2 (machineToBePatched sc)]
    \<and> providerStatus t = providerStatus s"
  using assms
  by (auto simp: patchMachine_def RawExtensionFromProviderStatus_def prog_simps Let_def
      split: sum.splits)

theorem patchMachine_sends_status_witness:
  "\<exists>t m m2. patchMachine (demo_env []) demo_scope demo_scope_world = (Val (Inr ()), t)
     \<and> trace t = [KubePatchMachine m demo_machine, KubePatchMachineStatus m2 demo_machine]
     \<and> m_Status m2 = m_Status m \<and> m_ResourceVersion (machine t) = ''2''"
proof -
  obtain t where run: "patchMachine (demo_env []) demo_scope demo_scope_world = (Val (Inr ()), t)"
      and rv: "m_ResourceVersion (machine t) = ''2''"
    by (simp add: patchMachine_def RawExtensionFromProviderStatus_def prog_simps Let_def demo_scope_def
        demo_scope_world_def demo_defs)
  from patchMachine_sends_status [OF run] run rv show ?thesis
    by (auto simp: demo_scope_def demo_scope_world_def)
qed

section \<open>User data and status\<close>

lemma setProviderStatus_run:
  fixes s :: "'x scope_world_scheme"
  obtains cs t where "setProviderStatus E inst c s = (Val (), t)"
    "providerStatus t = (providerStatus s)\<lparr>InstanceID := Option.bind inst PvmInstanceID,
       InstanceState := Option.bind inst InstanceStatus, Conditions := cs\<rparr>"
    "condition_of cs = (condition_of (Conditions (providerStatus s)))(cond_Type c \<mapsto>
       merged_condition c (condition_of (Conditions (providerStatus s)) (cond_Type c))
         (e_Now E (trace s)) (e_Now E (trace s @ [TimeNow])))"
    "conditions_wf (Conditions (providerStatus s)) \<Longrightarrow> conditions_wf cs"
    "machine t = machine s" "dhcpIPCacheStore t = dhcpIPCacheStore s"
proof -
  define u where "u = s\<lparr>providerStatus := (case inst of
      None \<Rightarrow> (providerStatus s)\<lparr>InstanceID := None, InstanceState := None\<rparr>
    | Some i \<Rightarrow> (providerStatus s)\<lparr>InstanceID := PvmInstanceID i, InstanceState := InstanceStatus i\<rparr>)\<rparr>"
  have u: "Conditions (providerStatus u) = Conditions (providerStatus s)" "trace u = trace s"
      "machine u = machine s" "dhcpIPCacheStore u = dhcpIPCacheStore s"
      "(providerStatus u)\<lparr>Conditions := cs\<rparr> = (providerStatus s)\<lparr>InstanceID := Option.bind inst PvmInstanceID,
        InstanceState := Option.bind inst InstanceStatus, Conditions := cs\<rparr>" for cs
    by (simp_all add: u_def split: option.split)
  obtain cs v where set: "setPowerVSMachineProviderCondition E c (Conditions (providerStatus s)) u = (Val cs, v)"
    using pvs.set_returns by blast
  have "same_rest u v"
    using keepsD [OF rest.keeps_setPowerVSMachineProviderCondition set] by simp
  then have v: "providerStatus v = providerStatus u" "machine v = machine u"
      "dhcpIPCacheStore v = dhcpIPCacheStore u"
    by (simp_all add: same_rest_scope)
  have "setProviderStatus E inst c s = (Val (), v\<lparr>providerStatus := (providerStatus v)\<lparr>Conditions := cs\<rparr>\<rparr>)"
    using set u(1) by (simp add: setProviderStatus_def prog_simps u_def)
  with that v u pvs.set_get [OF set] pvs.set_wf [OF _ set] show thesis by simp
qed

end
