(* ===== verification/Load_Balancers.thy ===== *)
theory Load_Balancers
  imports Machine_Scope
begin

text \<open>
  The load balancer part of \<open>pkg/actuators/machine/reconciler.go\<close>: finding the load balancers named
  in the provider spec, registering a machine's IP with their pools and deregistering it. A Go map is
  an association list with distinct keys; the order in which \<open>range\<close> visits it is the environment's
  choice. The paged listing interprets \<open>page_source\<close>.
\<close>

section \<open>Definitions\<close>

record loadBalanacerOptions =
  opt_id :: string
  opt_pools :: "LoadBalancerPoolReference list"
  opt_state :: string

definition requeueAfterSeconds :: nat where
  "requeueAfterSeconds = 20"

definition loadBalancerActiveState :: string where
  "loadBalancerActiveState = ''active''"

definition lb_page ::
    "env \<Rightarrow> powerVSClient \<Rightarrow> string \<Rightarrow> (LoadBalancer list \<times> 'x world_scheme, bool \<times> string) errprog" where
  "lb_page E client start =
     bndE (outer (ListLoadBalancers E client (start_option start))) (\<lambda>loadBalancers.
       case loadBalancers of
         Some c \<Rightarrow>
           bnd (modify (\<lambda>(acc, s). (acc @ LoadBalancers c, s))) (\<lambda>_.
             case Next c of
               Some href \<Rightarrow> bnd (deref href) (\<lambda>u. if u \<noteq> [] then ok (False, u) else ok (True, []))
             | None \<Rightarrow> ok (True, []))
       | None \<Rightarrow> ok (True, []))"

definition add_lb ::
    "string list \<Rightarrow> LoadBalancer \<Rightarrow> (string \<times> loadBalanacerOptions) list
      \<Rightarrow> ('x world_scheme, (string \<times> loadBalanacerOptions) list) prog" where
  "add_lb loadBalancerNames lb lbMap =
     bnd (deref (lb_Name lb)) (\<lambda>name.
       if name \<in> set loadBalancerNames then
         bnd (deref (lb_ID lb)) (\<lambda>ident.
         bnd (deref (lb_ProvisioningStatus lb)) (\<lambda>status.
           ret (AList.update name \<lparr>opt_id = ident, opt_pools = lb_Pools lb, opt_state = status\<rparr> lbMap)))
       else ret lbMap)"

definition getLoadBalancers ::
    "env \<Rightarrow> powerVSClient \<Rightarrow> string list \<Rightarrow> ('x world_scheme, (string \<times> loadBalanacerOptions) list) errprog" where
  "getLoadBalancers E client loadBalancerNames =
     bndE (mapErr (Errorf_v ''error listing loadbalancer '')
            (with_list (PagingHelper E (lb_page E client)))) (\<lambda>loadBalancersList.
       if loadBalancersList = [] then fail (PlainError ''no loadbalancer is retrieved'')
       else
         bnd (foldP (add_lb loadBalancerNames) loadBalancersList []) (\<lambda>lbMap.
           if length lbMap \<noteq> length loadBalancerNames
           then fail (PlainError (''not able to find all '' @ Sprint_slice loadBalancerNames
                  @ '' loadbalancer in cloud''))
           else ok lbMap))"

text \<open>The loop over the members: the port of the last target member, and whether the IP is one.\<close>

definition scan_member :: "string \<Rightarrow> LoadBalancerPoolMember \<Rightarrow> int \<times> bool \<Rightarrow> ('x world_scheme, int \<times> bool) prog" where
  "scan_member internalIP member = (\<lambda>(targetPort, alreadyRegistered).
     case mem_Target member of
       OtherTarget \<Rightarrow> ret (targetPort, alreadyRegistered)
     | MemberTarget address \<Rightarrow>
         bnd (deref (mem_Port member)) (\<lambda>port.
         bnd (deref address) (\<lambda>a. ret (port, a = internalIP \<or> alreadyRegistered))))"

definition register_pool ::
    "env \<Rightarrow> powerVSClient \<Rightarrow> string \<Rightarrow> loadBalanacerOptions \<Rightarrow> LoadBalancerPoolReference \<Rightarrow> ('x world_scheme, unit) errprog" where
  "register_pool E client internalIP lbOptions pool =
     bnd (deref (pool_Name pool)) (\<lambda>poolName.
       if poolName = ''bootstrap-node'' then ok ()
       else
         bnd (deref (pool_ID pool)) (\<lambda>poolID.
         bndE (mapErr (Errorf_v (''failed to list '' @ poolName @ '' LoadBalancer pool error: ''))
                (ListLoadBalancerPoolMembers E client (opt_id lbOptions) poolID)) (\<lambda>l.
         bnd (deref l) (\<lambda>members.
         bnd (foldP (scan_member internalIP) members (0, False)) (\<lambda>(targetPort, alreadyRegistered).
           if alreadyRegistered then ok ()
           else
             bndE (mapErr (Errorf_v (''error getting loadbalancer details with id: '' @ opt_id lbOptions @ '' error: ''))
                    (GetLoadBalancer E client (opt_id lbOptions))) (\<lambda>b.
             bnd (deref b) (\<lambda>loadBalancer.
             bnd (deref (lb_ProvisioningStatus loadBalancer)) (\<lambda>status.
               if status \<noteq> loadBalancerActiveState then fail (RequeueAfterError requeueAfterSeconds)
               else
                 bnd (deref (lb_ID loadBalancer)) (\<lambda>lbID.
                   mapErr (Errorf_v ''error creating LoadBalacner pool member '')
                     (CreateLoadBalancerPoolMember E client lbID poolID targetPort internalIP))))))))))"

definition deregister_member ::
    "env \<Rightarrow> powerVSClient \<Rightarrow> string \<Rightarrow> string \<Rightarrow> string \<Rightarrow> LoadBalancerPoolMember \<Rightarrow> ('x world_scheme, unit) errprog" where
  "deregister_member E client internalIP lbID poolID member =
     (case mem_Target member of
        OtherTarget \<Rightarrow> ok ()
      | MemberTarget address \<Rightarrow>
          bnd (deref address) (\<lambda>a.
            if a = internalIP then
              bnd (deref (mem_ID member)) (\<lambda>memberID.
                mapErr (Errorf_v ''error deleting LoadBalacner pool member '')
                  (DeleteLoadBalancerPoolMember E client lbID poolID memberID))
            else ok ()))"

definition deregister_pool ::
    "env \<Rightarrow> powerVSClient \<Rightarrow> string \<Rightarrow> loadBalanacerOptions \<Rightarrow> LoadBalancerPoolReference \<Rightarrow> ('x world_scheme, unit) errprog" where
  "deregister_pool E client internalIP lbOptions pool =
     bnd (deref (pool_Name pool)) (\<lambda>poolName.
     bnd (deref (pool_ID pool)) (\<lambda>poolID.
     bndE (mapErr (Errorf_v (''failed to list '' @ poolName @ '' LoadBalancer pool error: ''))
            (ListLoadBalancerPoolMembers E client (opt_id lbOptions) poolID)) (\<lambda>l.
     bnd (deref l) (\<lambda>members.
       forE (deregister_member E client internalIP (opt_id lbOptions) poolID) members))))"

text \<open>What both loops over the load balancers do before they turn to the pools.\<close>

definition each_pool ::
    "(loadBalanacerOptions \<Rightarrow> LoadBalancerPoolReference \<Rightarrow> ('x world_scheme, unit) errprog)
      \<Rightarrow> string \<times> loadBalanacerOptions \<Rightarrow> ('x world_scheme, unit) errprog" where
  "each_pool body = (\<lambda>(lbName, lbOptions).
     if opt_state lbOptions \<noteq> loadBalancerActiveState
     then fail (PlainError (''cannot update load balancer '' @ lbName @ '', load balancer is not in ''
            @ loadBalancerActiveState @ '' state''))
     else if opt_pools lbOptions = []
     then fail (PlainError (''no pools exist for the load balancer '' @ lbName))
     else forE (body lbOptions) (opt_pools lbOptions))"

definition createLoadBalancerPoolMember ::
    "env \<Rightarrow> powerVSClient \<Rightarrow> (string \<times> loadBalanacerOptions) list \<Rightarrow> string \<Rightarrow> ('x world_scheme, unit) errprog" where
  "createLoadBalancerPoolMember E client lbMap internalIP =
     bnd (gets (\<lambda>s. range_order (e_rank E (trace s)) lbMap))
       (forE (each_pool (register_pool E client internalIP)))"

definition deleteLoadBalancerPoolMember ::
    "env \<Rightarrow> powerVSClient \<Rightarrow> (string \<times> loadBalanacerOptions) list \<Rightarrow> string \<Rightarrow> ('x world_scheme, unit) errprog" where
  "deleteLoadBalancerPoolMember E client lbMap internalIP =
     bnd (gets (\<lambda>s. range_order (e_rank E (trace s)) lbMap))
       (forE (each_pool (deregister_pool E client internalIP)))"

definition registerWithApplicationLoadBalancers ::
    "env \<Rightarrow> powerVSClient \<Rightarrow> string list \<Rightarrow> string \<Rightarrow> ('x world_scheme, unit) errprog" where
  "registerWithApplicationLoadBalancers E client loadBalancerNames internalIP =
     bndE (mapErr (Errorf_v ''failed to get loadbalancers details from cloud '')
            (getLoadBalancers E client loadBalancerNames)) (\<lambda>lbMap.
       createLoadBalancerPoolMember E client lbMap internalIP)"

definition deregisterNetworkLoadBalancers ::
    "env \<Rightarrow> powerVSClient \<Rightarrow> string list \<Rightarrow> string \<Rightarrow> ('x world_scheme, unit) errprog" where
  "deregisterNetworkLoadBalancers E client loadBalancerNames internalIP =
     bndE (mapErr (Errorf_v ''failed to get loadbalancers details from cloud '')
            (getLoadBalancers E client loadBalancerNames)) (\<lambda>lbMap.
       deleteLoadBalancerPoolMember E client lbMap internalIP)"

definition applicationLoadBalancerNames :: "LoadBalancerReference list \<Rightarrow> string list" where
  "applicationLoadBalancerNames refs = map lbr_Name (filter (\<lambda>r. lbr_Type r = ''Application'') refs)"

definition updateLoadBalancers :: "env \<Rightarrow> machineScope \<Rightarrow> string \<Rightarrow> ('x scope_world_scheme, unit) errprog" where
  "updateLoadBalancers E r internalIP =
     bnd (deref (providerSpec r)) (\<lambda>spec.
       if SpecLoadBalancers spec = [] then ok ()
       else if applicationLoadBalancerNames (SpecLoadBalancers spec) = [] then ok ()
       else
         bnd (gets (\<lambda>s. m_Name (machine s))) (\<lambda>name.
           mapErr (Errorf_v (name @ '': Failed to register application load balancers: ''))
             (registerWithApplicationLoadBalancers E (powerVSClient_of r)
                (applicationLoadBalancerNames (SpecLoadBalancers spec)) internalIP)))"

definition removeFromApplicationLoadBalancers :: "env \<Rightarrow> machineScope \<Rightarrow> string \<Rightarrow> ('x scope_world_scheme, unit) errprog" where
  "removeFromApplicationLoadBalancers E r internalIP =
     bnd (deref (providerSpec r)) (\<lambda>spec.
       if SpecLoadBalancers spec = [] then ok ()
       else if applicationLoadBalancerNames (SpecLoadBalancers spec) = [] then ok ()
       else deregisterNetworkLoadBalancers E (powerVSClient_of r)
              (applicationLoadBalancerNames (SpecLoadBalancers spec)) internalIP)"

section \<open>The listing as a source of pages\<close>

definition lb_fetch ::
    "env \<Rightarrow> powerVSClient \<Rightarrow> string \<Rightarrow> ('x world_scheme, LoadBalancer list \<times> string option) errprog" where
  "lb_fetch E client start =
     bndE (ListLoadBalancers E client (start_option start)) (\<lambda>r.
       case r of
         None \<Rightarrow> ok ([], None)
       | Some c \<Rightarrow>
           (case Next c of
              None \<Rightarrow> ok (LoadBalancers c, None)
            | Some href \<Rightarrow> bnd (deref href) (\<lambda>u. ok (LoadBalancers c, if u \<noteq> [] then Some u else None))))"

lemma lb_fetch_run:
  "lb_fetch E client start s =
     (case cl_VPC client of
        None \<Rightarrow> (Panic, s)
      | Some _ \<Rightarrow>
         (let st = start_option start; t = s\<lparr>trace := trace s @ [CallListLoadBalancers st]\<rparr> in
          case e_ListLoadBalancers E (trace s) st of
            Inl e \<Rightarrow> (Val (Inl e), t)
          | Inr None \<Rightarrow> (Val (Inr ([], None)), t)
          | Inr (Some c) \<Rightarrow> (case Next c of
                None \<Rightarrow> (Val (Inr (LoadBalancers c, None)), t)
              | Some None \<Rightarrow> (Panic, t)
              | Some (Some u) \<Rightarrow> (Val (Inr (LoadBalancers c, if u \<noteq> [] then Some u else None)), t))))"
  by (simp add: lb_fetch_def ListLoadBalancers_def prog_simps Let_def split: sum.split option.split)

lemma lb_page_run:
  "lb_page E client start (acc, s) =
     (case cl_VPC client of
        None \<Rightarrow> (Panic, (acc, s))
      | Some _ \<Rightarrow>
         (let st = start_option start; t = s\<lparr>trace := trace s @ [CallListLoadBalancers st]\<rparr> in
          case e_ListLoadBalancers E (trace s) st of
            Inl e \<Rightarrow> (Val (Inl e), (acc, t))
          | Inr None \<Rightarrow> (Val (Inr (True, [])), (acc, t))
          | Inr (Some c) \<Rightarrow> (case Next c of
                None \<Rightarrow> (Val (Inr (True, [])), (acc @ LoadBalancers c, t))
              | Some None \<Rightarrow> (Panic, (acc @ LoadBalancers c, t))
              | Some (Some u) \<Rightarrow> (Val (Inr (if u \<noteq> [] then (False, u) else (True, []))),
                  (acc @ LoadBalancers c, t)))))"
  by (simp add: lb_page_def ListLoadBalancers_def outer_def prog_simps Let_def split: sum.split option.split)

interpretation lb: page_source "lb_fetch E client" "lb_page E client" for E :: env and client :: powerVSClient
proof
  fix start s items link t acc
  assume "lb_fetch E client start s = (Val (Inr (items, link)), t)"
  then show "lb_page E client start (acc, s) =
      (Val (Inr (case link of None \<Rightarrow> (True, []) | Some u \<Rightarrow> (False, u))), (acc @ items, t))"
    by (auto simp: lb_fetch_run lb_page_run Let_def split: sum.splits option.splits if_splits)
next
  fix start s e t acc
  assume "lb_fetch E client start s = (Val (Inl e), t)"
  then show "\<exists>acc'. lb_page E client start (acc, s) = (Val (Inl e), (acc', t))"
    by (auto simp: lb_fetch_run lb_page_run Let_def split: sum.splits option.splits if_splits)
next
  fix start s t acc
  assume "lb_fetch E client start s = (Panic, t)"
  then show "\<exists>acc'. lb_page E client start (acc, s) = (Panic, (acc', t))"
    by (auto simp: lb_fetch_run lb_page_run Let_def split: sum.splits option.splits if_splits)
next
  show "lb_fetch E client start s \<noteq> (OutOfFuel, t)" for start s t
    by (auto simp: lb_fetch_run Let_def split: sum.split option.split)
next
  show "lb_fetch E client start s \<noteq> (Val (Inr (items, Some [])), t)" for start s items t
    by (auto simp: lb_fetch_run Let_def split: sum.split option.split)
qed

section \<open>Which calls the operations make\<close>

fun lb_read :: "call \<Rightarrow> bool" where
  "lb_read (CallListLoadBalancers _) = True"
| "lb_read (CallGetLoadBalancer _) = True"
| "lb_read (CallListPoolMembers _ _) = True"
| "lb_read _ = False"

context world_inv
begin

lemma keeps_lb_page [keeps_intros]:
  assumes "\<And>c. lb_read c \<Longrightarrow> P c"
  shows "keeps (\<lambda>p q. R (snd p) (snd q)) (lb_page E client start)"
  unfolding lb_page_def
  by (intro lifted_intros keeps_outer keeps_append keeps_intros assms) simp

lemma keeps_getLoadBalancers [keeps_intros]:
  assumes "\<And>c. lb_read c \<Longrightarrow> P c"
  shows "keeps R (getLoadBalancers E client names)"
  unfolding getLoadBalancers_def add_lb_def
  by (intro keeps_intros assms)

lemma keeps_scan_member [keeps_intros]: "keeps R (scan_member ip m acc)"
  unfolding scan_member_def by (cases "mem_Target m") (auto intro!: keeps_intros split: prod.split)

lemma keeps_register_pool [keeps_intros]:
  assumes "\<And>c. lb_read c \<Longrightarrow> P c" and "\<And>lb pool port. P (CallCreatePoolMember lb pool port ip)"
  shows "keeps R (register_pool E client ip opts pool)"
  unfolding register_pool_def by (intro keeps_intros assms) simp_all

lemma keeps_deregister_member [keeps_intros]:
  assumes "\<And>lb pool m. P (CallDeletePoolMember lb pool m)"
  shows "keeps R (deregister_member E client ip lb pool m)"
  unfolding deregister_member_def by (cases "mem_Target m") (auto intro!: keeps_intros assms)

lemma keeps_deregister_pool [keeps_intros]:
  assumes "\<And>c. lb_read c \<Longrightarrow> P c" and "\<And>lb pool m. P (CallDeletePoolMember lb pool m)"
  shows "keeps R (deregister_pool E client ip opts pool)"
  unfolding deregister_pool_def by (intro keeps_intros assms) simp_all

lemma keeps_each_pool [keeps_intros]:
  "(\<And>opts pool. keeps R (body opts pool)) \<Longrightarrow> keeps R (each_pool body x)"
  unfolding each_pool_def by (intro keeps_intros)

lemma keeps_createLoadBalancerPoolMember [keeps_intros]:
  assumes "\<And>c. lb_read c \<Longrightarrow> P c" and "\<And>lb pool port. P (CallCreatePoolMember lb pool port ip)"
  shows "keeps R (createLoadBalancerPoolMember E client lbMap ip)"
  unfolding createLoadBalancerPoolMember_def by (intro keeps_intros assms)

lemma keeps_deleteLoadBalancerPoolMember [keeps_intros]:
  assumes "\<And>c. lb_read c \<Longrightarrow> P c" and "\<And>lb pool m. P (CallDeletePoolMember lb pool m)"
  shows "keeps R (deleteLoadBalancerPoolMember E client lbMap ip)"
  unfolding deleteLoadBalancerPoolMember_def by (intro keeps_intros assms)

lemma keeps_registerWithApplicationLoadBalancers [keeps_intros]:
  assumes "\<And>c. lb_read c \<Longrightarrow> P c" and "\<And>lb pool port. P (CallCreatePoolMember lb pool port ip)"
  shows "keeps R (registerWithApplicationLoadBalancers E client names ip)"
  unfolding registerWithApplicationLoadBalancers_def by (intro keeps_intros assms)

lemma keeps_deregisterNetworkLoadBalancers [keeps_intros]:
  assumes "\<And>c. lb_read c \<Longrightarrow> P c" and "\<And>lb pool m. P (CallDeletePoolMember lb pool m)"
  shows "keeps R (deregisterNetworkLoadBalancers E client names ip)"
  unfolding deregisterNetworkLoadBalancers_def by (intro keeps_intros assms)

end

lemma keeps_updateLoadBalancers [keeps_intros]:
  assumes "\<And>c. lb_read c \<Longrightarrow> P c" and "\<And>lb pool port. P (CallCreatePoolMember lb pool port ip)"
  shows "keeps (calls_in P) (updateLoadBalancers E r ip)" and "keeps same_rest (updateLoadBalancers E r ip)"
  unfolding updateLoadBalancers_def by (intro keeps_intros; simp add: assms)+

lemma keeps_removeFromApplicationLoadBalancers [keeps_intros]:
  assumes "\<And>c. lb_read c \<Longrightarrow> P c" and "\<And>lb pool m. P (CallDeletePoolMember lb pool m)"
  shows "keeps (calls_in P) (removeFromApplicationLoadBalancers E r ip)"
    and "keeps same_rest (removeFromApplicationLoadBalancers E r ip)"
  unfolding removeFromApplicationLoadBalancers_def by (intro keeps_intros; simp add: assms)+

section \<open>Finding the load balancers\<close>

definition lb_options :: "LoadBalancer \<Rightarrow> loadBalanacerOptions" where
  "lb_options lb = \<lparr>opt_id = the (lb_ID lb), opt_pools = lb_Pools lb, opt_state = the (lb_ProvisioningStatus lb)\<rparr>"

text \<open>The load balancer a name stands for: the last one of that name in the listing.\<close>

definition named_lb :: "LoadBalancer list \<Rightarrow> string \<Rightarrow> LoadBalancer option" where
  "named_lb lbs name = List.find (\<lambda>lb. lb_Name lb = Some name) (rev lbs)"

definition lb_wf :: "LoadBalancer \<Rightarrow> bool" where
  "lb_wf lb \<longleftrightarrow> lb_Name lb \<noteq> None \<and> lb_ID lb \<noteq> None \<and> lb_ProvisioningStatus lb \<noteq> None"

lemma find_append_None: "List.find P xs = None \<Longrightarrow> List.find P (xs @ ys) = List.find P ys"
  by (induction xs) (auto split: if_splits)

lemma find_append_Some: "List.find P xs = Some x \<Longrightarrow> List.find P (xs @ ys) = Some x"
  by (induction xs) (auto split: if_splits)

lemma named_lb_Cons:
  "named_lb (lb # lbs) name = (case named_lb lbs name of Some x \<Rightarrow> Some x
     | None \<Rightarrow> if lb_Name lb = Some name then Some lb else None)"
  by (auto simp: named_lb_def find_append_None find_append_Some split: option.split)

lemma named_lb_None: "named_lb lbs name = None \<longleftrightarrow> Some name \<notin> lb_Name ` set lbs"
  by (auto simp: named_lb_def find_None_iff image_iff)

lemma add_lb_ok:
  "add_lb names lb m0 s = (Val m1, t) \<Longrightarrow> t = s \<and> m1 = (if \<exists>n \<in> set names. lb_Name lb = Some n
     then AList.update (the (lb_Name lb)) (lb_options lb) m0 else m0)"
  by (auto simp: add_lb_def lb_options_def prog_simps split: option.splits if_splits)

lemma foldP_add_lb:
  assumes "foldP (add_lb names) lbs m0 s = (Val m, t)" and "distinct (map fst m0)"
  shows "t = s \<and> distinct (map fst m)
    \<and> map_of m = (\<lambda>k. if k \<in> set names \<and> named_lb lbs k \<noteq> None
          then map_option lb_options (named_lb lbs k) else map_of m0 k)"
  using assms
proof (induction lbs arbitrary: m0)
  case Nil
  then show ?case by (simp add: prog_simps named_lb_def)
next
  case (Cons lb lbs)
  from Cons.prems(1) obtain m1 u where step: "add_lb names lb m0 s = (Val m1, u)"
      and fold: "foldP (add_lb names) lbs m1 u = (Val m, t)"
    by (auto elim: bnd_ValE)
  from add_lb_ok [OF step] have m1: "m1 = (if \<exists>n \<in> set names. lb_Name lb = Some n
      then AList.update (the (lb_Name lb)) (lb_options lb) m0 else m0)"
    and rest: "foldP (add_lb names) lbs m1 s = (Val m, t)"
    using fold by simp_all
  have "distinct (map fst m1)" using Cons.prems(2) by (simp add: m1 distinct_update)
  from Cons.IH [OF rest this] show ?case
    by (auto simp: m1 fun_eq_iff named_lb_Cons update_conv' split: option.splits)
qed

lemma foldP_add_lb_returns:
  "\<forall>lb\<in>set lbs. lb_wf lb \<Longrightarrow> \<exists>m. foldP (add_lb names) lbs m0 s = (Val m, s)"
  by (induction lbs arbitrary: m0) (auto simp: add_lb_def lb_wf_def prog_simps)

lemma length_keys_eq:
  assumes "distinct (map fst m)" and "fst ` set m \<subseteq> set names"
  shows "length m = length names \<longleftrightarrow> distinct names \<and> set names = fst ` set m"
proof -
  have card: "card (fst ` set m) = length m" using distinct_card [OF assms(1)] by simp
  have le: "card (fst ` set m) \<le> card (set names)" "card (set names) \<le> length names"
    using assms(2) by (auto intro: card_mono card_length)
  show ?thesis
  proof
    assume "length m = length names"
    with card le have "card (set names) = length names" "card (fst ` set m) = card (set names)" by auto
    with assms(2) show "distinct names \<and> set names = fst ` set m"
      by (metis List.finite_set card_distinct card_subset_eq)
  next
    assume "distinct names \<and> set names = fst ` set m"
    with card show "length m = length names" by (metis distinct_card)
  qed
qed

lemma lbMap_keys:
  assumes "map_of m = (\<lambda>k. if k \<in> set names \<and> named_lb lbs k \<noteq> None
      then map_option lb_options (named_lb lbs k) else None)"
  shows "fst ` set m = {k \<in> set names. named_lb lbs k \<noteq> None}"
proof -
  have "fst ` set m = {k. map_of m k \<noteq> None}" by (auto simp: map_of_eq_None_iff)
  then show ?thesis by (auto simp: assms)
qed

lemma getLoadBalancers_run:
  assumes "page_chain E (lb_fetch E client) n [] s lbs t" and "n \<le> e_fuel E"
  shows "getLoadBalancers E client names s =
    (if lbs = [] then (Val (Inl (PlainError ''no loadbalancer is retrieved'')), t)
     else bnd (foldP (add_lb names) lbs []) (\<lambda>lbMap.
           if length lbMap \<noteq> length names
           then fail (PlainError (''not able to find all '' @ Sprint_slice names @ '' loadbalancer in cloud''))
           else ok lbMap) t)"
proof -
  have "with_list (PagingHelper E (lb_page E client)) s = (Val (Inr lbs), t)"
    using assms lb.with_list_PagingHelper_iff by blast
  then show ?thesis by (simp add: getLoadBalancers_def bndE_run mapErr_run fail_run)
qed

text \<open>
  C29. When the VPC service serves its load balancers as a chain of pages within the fuel, each with
  name, ID and status, \<open>getLoadBalancers\<close> succeeds exactly if the list is not empty, the names asked
  for are distinct and each is in the list. The map it answers has these names as keys and maps each
  to the ID, pools and status of its load balancer.
\<close>

theorem getLoadBalancers_finds_all:
  assumes "page_chain E (lb_fetch E client) n [] s lbs t" and "n \<le> e_fuel E" and "\<forall>lb\<in>set lbs. lb_wf lb"
  shows "if lbs \<noteq> [] \<and> distinct names \<and> (\<forall>k\<in>set names. named_lb lbs k \<noteq> None)
    then \<exists>m. getLoadBalancers E client names s = (Val (Inr m), t) \<and> distinct (map fst m)
       \<and> map_of m = (\<lambda>k. if k \<in> set names then map_option lb_options (named_lb lbs k) else None)
    else \<exists>e. getLoadBalancers E client names s = (Val (Inl e), t)"
proof -
  obtain m where fold: "foldP (add_lb names) lbs [] t = (Val m, t)"
    using foldP_add_lb_returns [OF assms(3)] by blast
  have dist: "distinct (map fst m)" and map: "map_of m = (\<lambda>k. if k \<in> set names \<and> named_lb lbs k \<noteq> None
      then map_option lb_options (named_lb lbs k) else None)"
    using foldP_add_lb [OF fold] by (simp_all cong: if_cong)
  note keys = lbMap_keys [OF map]
  have len: "length m = length names \<longleftrightarrow> distinct names \<and> (\<forall>k\<in>set names. named_lb lbs k \<noteq> None)"
    unfolding length_keys_eq [OF dist, of names, unfolded keys, simplified] by auto
  show ?thesis
    using dist map len fold
    by (auto simp: getLoadBalancers_run [OF assms(1,2)] bnd_run ok_run fail_run fun_eq_iff)
qed

text \<open>A VPC service for the examples: one load balancer with one pool, which keeps what was created.\<close>

definition demo_lb :: LoadBalancer where
  "demo_lb = \<lparr>lb_ID = Some ''lb-1'', lb_Name = Some ''api'', lb_ProvisioningStatus = Some ''active'',
     lb_Pools = [\<lparr>pool_ID = Some ''p-1'', pool_Name = Some ''web''\<rparr>]\<rparr>"

fun demo_members :: "call list \<Rightarrow> string \<Rightarrow> string \<Rightarrow> LoadBalancerPoolMember list" where
  "demo_members [] lb pool = []"
| "demo_members (CallCreatePoolMember l p port a # h) lb pool =
     (if l = lb \<and> p = pool
      then \<lparr>mem_ID = Some a, mem_Port = Some port, mem_Target = MemberTarget (Some a)\<rparr> # demo_members h lb pool
      else demo_members h lb pool)"
| "demo_members (_ # h) lb pool = demo_members h lb pool"

definition demo_lb_env :: env where
  "demo_lb_env = (demo_env ''ACTIVE'')\<lparr>
     e_ListLoadBalancers := \<lambda>_ _. Inr (Some \<lparr>LoadBalancers = [demo_lb], Next = None\<rparr>),
     e_GetLoadBalancer := \<lambda>_ i. Inr (Some (demo_lb\<lparr>lb_ID := Some i\<rparr>)),
     e_ListPoolMembers := \<lambda>h lb pool. Inr (Some
       (\<lparr>mem_ID = Some ''m-0'', mem_Port = Some 6443, mem_Target = MemberTarget (Some ''10.0.0.9'')\<rparr>
        # demo_members h lb pool)),
     e_CreatePoolMember := \<lambda>_ _ _ _ _. Inr (), e_DeletePoolMember := \<lambda>_ _ _ _. Inr ()\<rparr>"

theorem getLoadBalancers_finds_all_witness:
  "\<exists>m t. getLoadBalancers demo_lb_env demo_client [''api''] demo_world = (Val (Inr m), t)
     \<and> map_of m ''api'' = Some (lb_options demo_lb)"
proof -
  have "page_chain demo_lb_env (lb_fetch demo_lb_env demo_client) (Suc 0) [] demo_world [demo_lb]
      (demo_world\<lparr>trace := [CallListLoadBalancers None]\<rparr>)"
    by (rule last_page) (simp add: lb_fetch_run demo_lb_env_def demo_client_def demo_world_def Let_def
        start_option_def)
  from getLoadBalancers_finds_all [OF this, of "[''api'']"] show ?thesis
    by (auto simp: demo_lb_env_def demo_env_def base_env_def demo_lb_def lb_wf_def named_lb_def)
qed

section \<open>Registering\<close>

definition registered :: "string \<Rightarrow> LoadBalancerPoolMember list \<Rightarrow> bool" where
  "registered ip members \<longleftrightarrow> (\<exists>m\<in>set members. mem_Target m = MemberTarget (Some ip))"

lemma registered_Cons [simp]:
  "registered ip (m # ms) \<longleftrightarrow> mem_Target m = MemberTarget (Some ip) \<or> registered ip ms"
  by (simp add: registered_def)

lemma registered_Nil [simp]: "\<not> registered ip []"
  by (simp add: registered_def)

lemma foldP_scan_member:
  "foldP (scan_member ip) ms (p0, b0) s = (Val (p, b), t) \<Longrightarrow> t = s \<and> (b \<longleftrightarrow> b0 \<or> registered ip ms)"
proof (induction ms arbitrary: p0 b0)
  case Nil
  then show ?case by (simp add: prog_simps)
next
  case (Cons m ms)
  from Cons.prems obtain p1 b1 u where step: "scan_member ip m (p0, b0) s = (Val (p1, b1), u)"
      and rest: "foldP (scan_member ip) ms (p1, b1) u = (Val (p, b), t)"
    by (auto elim: bnd_ValE)
  from step have "u = s \<and> (b1 \<longleftrightarrow> b0 \<or> mem_Target m = MemberTarget (Some ip))"
    by (auto simp: scan_member_def prog_simps split: member_target.splits option.splits)
  with Cons.IH rest show ?case by auto
qed

lemma reading_scan_member [keeps_intros]: "keeps unchanged (scan_member ip m acc)"
  unfolding scan_member_def by (cases "mem_Target m") (auto intro!: keeps_intros split: prod.split)

text \<open>What registering with one pool does, when it succeeds and when the IP is there already.\<close>

lemma register_pool_ok:
  assumes "register_pool E client ip opts pool s = (Val (Inr ()), t)"
    and "pool_Name pool \<noteq> Some ''bootstrap-node''"
  shows "\<exists>pid ms. pool_ID pool = Some pid \<and> e_ListPoolMembers E (trace s) (opt_id opts) pid = Inr (Some ms)
    \<and> (if registered ip ms then trace t = trace s @ [CallListPoolMembers (opt_id opts) pid]
       else \<exists>lb lbid port h. h = trace s @ [CallListPoolMembers (opt_id opts) pid]
          \<and> e_GetLoadBalancer E h (opt_id opts) = Inr (Some lb)
          \<and> lb_ID lb = Some lbid \<and> lb_ProvisioningStatus lb = Some ''active''
          \<and> e_CreatePoolMember E (h @ [CallGetLoadBalancer (opt_id opts)]) lbid pid port ip = Inr ()
          \<and> trace t = h @ [CallGetLoadBalancer (opt_id opts), CallCreatePoolMember lbid pid port ip])"
  using assms
  by (auto simp: register_pool_def client_calls prog_simps loadBalancerActiveState_def
      split: run_splits dest!: foldP_scan_member)

lemma register_pool_quiet:
  assumes "register_pool E client ip opts pool s = (r, t)"
    and "\<forall>pid l. pool_ID pool = Some pid \<longrightarrow> e_ListPoolMembers E (trace s) (opt_id opts) pid = Inr l \<longrightarrow>
      (\<exists>ms. l = Some ms \<and> registered ip ms)"
  shows "\<exists>tr. trace t = trace s @ tr \<and> list_all lb_read tr"
proof -
  have pure: "foldP (scan_member ip) ms acc u = (o1, v) \<Longrightarrow> v = u" for ms acc o1 and u v :: "'a world_scheme"
    by (rule reading_run [where m = "foldP (scan_member ip) ms acc"]) (intro keeps_intros)
  show ?thesis
    using assms
    by (auto simp: register_pool_def client_calls prog_simps split: run_splits
        dest: foldP_scan_member pure)
qed

text \<open>A successful loop over the load balancers has run its body on every pool of every one.\<close>

lemma each_pool_elem:
  assumes "forE (each_pool body) entries s = (Val (Inr ()), t)"
    and "\<And>opts pool. keeps (calls_in Q) (body opts pool)"
    and "(name, opts) \<in> set entries" and "pool \<in> set (opt_pools opts)"
  shows "\<exists>u v. calls_in Q s u \<and> body opts pool u = (Val (Inr ()), v) \<and> calls_in Q v t
    \<and> opt_state opts = ''active''"
proof -
  obtain u v where uv: "calls_in Q s u" "each_pool body (name, opts) u = (Val (Inr ()), v)"
      "calls_in Q v t"
    using calls.forE_elem [OF calls.keeps_each_pool [OF assms(2)] assms(1,3)] by blast
  then have act: "opt_state opts = ''active''" and loop: "forE (body opts) (opt_pools opts) u = (Val (Inr ()), v)"
    by (auto simp: each_pool_def fail_run loadBalancerActiveState_def split: if_splits)
  obtain u' v' where "calls_in Q u u'" "body opts pool u' = (Val (Inr ()), v')" "calls_in Q v' v"
    using calls.forE_elem [OF assms(2) loop assms(4)] by blast
  with uv act show ?thesis by (blast intro: calls.R_trans)
qed

text \<open>
  C26. When registering an IP succeeds, then for each pool of each load balancer of the map, except a pool
  named \<open>bootstrap-node\<close>, which is skipped, the load balancer was active, the members were listed, and either
  the IP was among them or, right after, a member with this IP was created in this pool, with success.
\<close>

theorem createLoadBalancerPoolMember_complete:
  assumes "createLoadBalancerPoolMember E client lbMap ip s = (Val (Inr ()), t)"
    and "(name, opts) \<in> set lbMap" and "pool \<in> set (opt_pools opts)"
    and "pool_Name pool \<noteq> Some ''bootstrap-node''"
  shows "opt_state opts = ''active'' \<and> (\<exists>pid h rest ms. pool_ID pool = Some pid
    \<and> trace t = h @ CallListPoolMembers (opt_id opts) pid # rest
    \<and> e_ListPoolMembers E h (opt_id opts) pid = Inr (Some ms)
    \<and> (registered ip ms \<or> (\<exists>lbid port h' rest'.
          h' = h @ [CallListPoolMembers (opt_id opts) pid, CallGetLoadBalancer (opt_id opts)]
        \<and> trace t = h' @ CallCreatePoolMember lbid pid port ip # rest'
        \<and> e_CreatePoolMember E h' lbid pid port ip = Inr ())))"
proof -
  have "keeps (calls_in (\<lambda>_. True)) (register_pool E client ip o1 p1)" for o1 p1
    by (intro keeps_intros) simp_all
  then obtain u v where run: "register_pool E client ip opts pool u = (Val (Inr ()), v)"
      and v: "calls_in (\<lambda>_. True) v t" and act: "opt_state opts = ''active''"
    using each_pool_elem [where Q = "\<lambda>_. True", of "register_pool E client ip" "range_order (e_rank E (trace s)) lbMap" s t name opts pool]
      assms by (auto simp: createLoadBalancerPoolMember_def bnd_run gets_run)
  from v obtain rest where "trace t = trace v @ rest" by (auto simp: calls_in_def)
  with register_pool_ok [OF run assms(4)] act show ?thesis
    by (fastforce split: if_splits)
qed

lemma demo_register:
  "\<exists>t. createLoadBalancerPoolMember demo_lb_env demo_client [(''api'', lb_options demo_lb)] ''10.0.0.1'' demo_world
     = (Val (Inr ()), t)
   \<and> trace t = [CallListPoolMembers ''lb-1'' ''p-1'', CallGetLoadBalancer ''lb-1'',
       CallCreatePoolMember ''lb-1'' ''p-1'' 6443 ''10.0.0.1'']"
  by (simp add: createLoadBalancerPoolMember_def each_pool_def register_pool_def scan_member_def range_order_def
      client_calls prog_simps lb_options_def loadBalancerActiveState_def demo_lb_env_def demo_lb_def
      demo_client_def demo_world_def)

theorem createLoadBalancerPoolMember_complete_witness:
  "\<exists>t pid h rest. createLoadBalancerPoolMember demo_lb_env demo_client [(''api'', lb_options demo_lb)] ''10.0.0.1''
       demo_world = (Val (Inr ()), t)
     \<and> trace t = h @ CallListPoolMembers ''lb-1'' pid # rest"
proof -
  obtain t where run: "createLoadBalancerPoolMember demo_lb_env demo_client [(''api'', lb_options demo_lb)]
      ''10.0.0.1'' demo_world = (Val (Inr ()), t)"
    using demo_register by blast
  have "opt_id (lb_options demo_lb) = ''lb-1''" by (simp add: lb_options_def demo_lb_def)
  with createLoadBalancerPoolMember_complete [OF run, of "''api''" "lb_options demo_lb"
      "\<lparr>pool_ID = Some ''p-1'', pool_Name = Some ''web''\<rparr>"] run
  show ?thesis by (auto simp: lb_options_def demo_lb_def)
qed

section \<open>Registering twice\<close>

text \<open>
  What is needed of the VPC service: as long as no member is deleted, a listing of a pool that
  answers shows every IP that an earlier listing of the pool showed or that was created in it with
  success; and a load balancer read by its ID has that ID.
\<close>

definition no_delete :: "call \<Rightarrow> bool" where
  "no_delete c = (case c of CallDeletePoolMember _ _ _ \<Rightarrow> False | _ \<Rightarrow> True)"

definition pool_lists :: "env \<Rightarrow> string \<Rightarrow> call list \<Rightarrow> string \<Rightarrow> string \<Rightarrow> bool" where
  "pool_lists E ip h lb pool \<longleftrightarrow> (\<forall>l. e_ListPoolMembers E h lb pool = Inr l \<longrightarrow> (\<exists>ms. l = Some ms \<and> registered ip ms))"

definition service_remembers :: "env \<Rightarrow> string \<Rightarrow> bool" where
  "service_remembers E ip \<longleftrightarrow>
     (\<forall>h h' lb pool ms. e_ListPoolMembers E h lb pool = Inr (Some ms) \<longrightarrow> registered ip ms \<longrightarrow>
        list_all no_delete h' \<longrightarrow> pool_lists E ip (h @ h') lb pool)
   \<and> (\<forall>h h' lb pool port. e_CreatePoolMember E h lb pool port ip = Inr () \<longrightarrow> list_all no_delete h' \<longrightarrow>
        pool_lists E ip (h @ CallCreatePoolMember lb pool port ip # h') lb pool)
   \<and> (\<forall>h ident lb. e_GetLoadBalancer E h ident = Inr (Some lb) \<longrightarrow> lb_ID lb \<in> {None, Some ident})"

lemma registered_stays:
  assumes rem: "service_remembers E ip"
    and run: "createLoadBalancerPoolMember E client lbMap ip s = (Val (Inr ()), t)"
    and "(name, opts) \<in> set lbMap" "pool \<in> set (opt_pools opts)"
    and "pool_Name pool \<noteq> Some ''bootstrap-node''" "pool_ID pool = Some pid"
    and "list_all no_delete h'"
  shows "pool_lists E ip (trace t @ h') (opt_id opts) pid"
proof -
  have "keeps (calls_in no_delete) (register_pool E client ip o1 p1)" for o1 p1
    by (intro keeps_intros) (auto simp: no_delete_def elim: lb_read.elims)
  then obtain u v where pool: "register_pool E client ip opts pool u = (Val (Inr ()), v)"
      and "calls_in no_delete v t"
    using each_pool_elem [where Q = no_delete, of "register_pool E client ip"
        "range_order (e_rank E (trace s)) lbMap" s t name opts pool] assms(2-4)
    by (auto simp: createLoadBalancerPoolMember_def bnd_run gets_run)
  then obtain rest where t: "trace t = trace v @ rest" "list_all no_delete (rest @ h')"
    using assms(7) by (auto simp: calls_in_def)
  from register_pool_ok [OF pool assms(5)] assms(6)
  obtain ms where ms: "e_ListPoolMembers E (trace u) (opt_id opts) pid = Inr (Some ms)"
    and v: "if registered ip ms then trace v = trace u @ [CallListPoolMembers (opt_id opts) pid]
       else \<exists>lb lbid port h. h = trace u @ [CallListPoolMembers (opt_id opts) pid]
          \<and> e_GetLoadBalancer E h (opt_id opts) = Inr (Some lb)
          \<and> lb_ID lb = Some lbid \<and> lb_ProvisioningStatus lb = Some ''active''
          \<and> e_CreatePoolMember E (h @ [CallGetLoadBalancer (opt_id opts)]) lbid pid port ip = Inr ()
          \<and> trace v = h @ [CallGetLoadBalancer (opt_id opts), CallCreatePoolMember lbid pid port ip]"
    by auto
  show ?thesis
  proof (cases "registered ip ms")
    case True
    have "pool_lists E ip (trace u @ (CallListPoolMembers (opt_id opts) pid # rest @ h')) (opt_id opts) pid"
      using rem ms True t(2) unfolding service_remembers_def by (simp add: no_delete_def)
    with v True t(1) show ?thesis by simp
  next
    case False
    with v obtain lb lbid port h where get: "e_GetLoadBalancer E h (opt_id opts) = Inr (Some lb)" "lb_ID lb = Some lbid"
        and create: "e_CreatePoolMember E (h @ [CallGetLoadBalancer (opt_id opts)]) lbid pid port ip = Inr ()"
        and tv: "trace v = h @ [CallGetLoadBalancer (opt_id opts), CallCreatePoolMember lbid pid port ip]"
      by auto
    have "lbid = opt_id opts" using rem get unfolding service_remembers_def by fastforce
    then have "pool_lists E ip ((h @ [CallGetLoadBalancer (opt_id opts)]) @
        CallCreatePoolMember (opt_id opts) pid port ip # (rest @ h')) (opt_id opts) pid"
      using rem create t(2) unfolding service_remembers_def by blast
    with tv t(1) \<open>lbid = opt_id opts\<close> show ?thesis by simp
  qed
qed

text \<open>
  C27. Registering is idempotent: once an IP has been registered with success, registering it again
  with the same load balancers only reads, whatever the second run returns, provided the service
  shows the members it has and nobody removes the IP in between.
\<close>

theorem createLoadBalancerPoolMember_idempotent:
  assumes "service_remembers E ip"
    and "createLoadBalancerPoolMember E client lbMap ip s = (Val (Inr ()), t)"
    and "createLoadBalancerPoolMember E client lbMap ip t = (r, u)"
  shows "\<exists>tr. trace u = trace t @ tr \<and> list_all lb_read tr"
proof -
  define I where "I v \<longleftrightarrow> (\<exists>tr. trace v = trace t @ tr \<and> list_all lb_read tr)" for v :: "'a world_scheme"
  have quiet: "I w" if lb: "(name, opts) \<in> set lbMap" "pool \<in> set (opt_pools opts)" and v: "I v"
      and run: "register_pool E client ip opts pool v = (o1, w)" for name opts pool v o1 w
  proof (cases "pool_Name pool = Some ''bootstrap-node''")
    case True
    with v run show ?thesis by (auto simp: register_pool_def bnd_run deref_run ok_run)
  next
    case False
    obtain tr where tr: "trace v = trace t @ tr" "list_all lb_read tr" using v I_def by blast
    then have "list_all no_delete tr" by (auto simp: list_all_iff no_delete_def split: call.splits)
    then have "\<forall>pid. pool_ID pool = Some pid \<longrightarrow> pool_lists E ip (trace v) (opt_id opts) pid"
      using registered_stays [OF assms(1,2) lb False] tr(1) by simp
    then obtain tr' where "trace w = trace v @ tr'" "list_all lb_read tr'"
      using register_pool_quiet [OF run] unfolding pool_lists_def by blast
    with tr show ?thesis by (auto simp: I_def)
  qed
  have entry: "I w" if x: "x \<in> set lbMap" and v: "I v" and run: "each_pool (register_pool E client ip) x v = (o1, w)"
    for x v o1 w
  proof -
    obtain name opts where eq: "x = (name, opts)" by (cases x)
    have "forE (register_pool E client ip opts) (opt_pools opts) v = (o1, w) \<Longrightarrow> I w"
      using forE_inv [of "opt_pools opts" I "register_pool E client ip opts" v o1 w] quiet x v unfolding eq by blast
    with run v show ?thesis by (auto simp: eq each_pool_def fail_run split: if_splits)
  qed
  have "I t" by (simp add: I_def)
  moreover have "forE (each_pool (register_pool E client ip)) (range_order (e_rank E (trace t)) lbMap) t = (r, u)"
    using assms(3) by (simp add: createLoadBalancerPoolMember_def bnd_run gets_run)
  ultimately have "I u"
    using forE_inv [of "range_order (e_rank E (trace t)) lbMap" I "each_pool (register_pool E client ip)" t r u] entry
    by auto
  then show ?thesis by (simp add: I_def)
qed

lemma demo_members_append: "demo_members (h @ h') lb pool = demo_members h lb pool @ demo_members h' lb pool"
  by (induction h lb pool rule: demo_members.induct) simp_all

lemma demo_remembers: "service_remembers demo_lb_env ip"
  by (auto simp: service_remembers_def pool_lists_def demo_lb_env_def demo_members_append registered_def)

theorem createLoadBalancerPoolMember_idempotent_witness:
  "\<exists>t r u tr. createLoadBalancerPoolMember demo_lb_env demo_client [(''api'', lb_options demo_lb)] ''10.0.0.1''
       demo_world = (Val (Inr ()), t)
     \<and> CallCreatePoolMember ''lb-1'' ''p-1'' 6443 ''10.0.0.1'' \<in> set (trace t)
     \<and> createLoadBalancerPoolMember demo_lb_env demo_client [(''api'', lb_options demo_lb)] ''10.0.0.1'' t = (r, u)
     \<and> trace u = trace t @ tr \<and> list_all lb_read tr"
proof -
  obtain t where run: "createLoadBalancerPoolMember demo_lb_env demo_client [(''api'', lb_options demo_lb)]
      ''10.0.0.1'' demo_world = (Val (Inr ()), t)"
    and tr: "CallCreatePoolMember ''lb-1'' ''p-1'' 6443 ''10.0.0.1'' \<in> set (trace t)"
    using demo_register by (metis list.set_intros)
  obtain r u where again: "createLoadBalancerPoolMember demo_lb_env demo_client [(''api'', lb_options demo_lb)]
      ''10.0.0.1'' t = (r, u)" by fastforce
  from createLoadBalancerPoolMember_idempotent [OF demo_remembers run again] run tr again show ?thesis by blast
qed

section \<open>Deregistering\<close>

lemma deregister_member_ok:
  assumes "deregister_member E client ip lb pid m s = (Val (Inr ()), t)"
  shows "if mem_Target m = MemberTarget (Some ip)
    then \<exists>mid. mem_ID m = Some mid \<and> e_DeletePoolMember E (trace s) lb pid mid = Inr ()
       \<and> trace t = trace s @ [CallDeletePoolMember lb pid mid]
    else t = s"
  using assms
  by (auto simp: deregister_member_def client_calls prog_simps split: run_splits member_target.splits)

lemma deregister_pool_ok:
  assumes "deregister_pool E client ip opts pool u = (Val (Inr ()), v)"
  shows "\<exists>pid ms w. pool_ID pool = Some pid
    \<and> e_ListPoolMembers E (trace u) (opt_id opts) pid = Inr (Some ms)
    \<and> trace w = trace u @ [CallListPoolMembers (opt_id opts) pid]
    \<and> forE (deregister_member E client ip (opt_id opts) pid) ms w = (Val (Inr ()), v)"
proof -
  from assms obtain pid ms where "pool_ID pool = Some pid"
      and "e_ListPoolMembers E (trace u) (opt_id opts) pid = Inr (Some ms)"
      and "forE (deregister_member E client ip (opt_id opts) pid) ms
         (u\<lparr>trace := trace u @ [CallListPoolMembers (opt_id opts) pid]\<rparr>) = (Val (Inr ()), v)"
    by (auto simp: deregister_pool_def client_calls do_call_run elim!: bnd_ValE bndE_okE)
  then show ?thesis
    by (intro exI [of _ pid] exI [of _ ms]
        exI [of _ "u\<lparr>trace := trace u @ [CallListPoolMembers (opt_id opts) pid]\<rparr>"]) simp
qed

text \<open>
  C28. When deregistering an IP succeeds, for each pool of each load balancer of the map (the
  bootstrap pool too) the members were listed, and every member with this IP was then deleted from
  this pool, with success.
\<close>

theorem deleteLoadBalancerPoolMember_complete:
  assumes "deleteLoadBalancerPoolMember E client lbMap ip s = (Val (Inr ()), t)"
    and "(name, opts) \<in> set lbMap" and "pool \<in> set (opt_pools opts)"
  shows "opt_state opts = ''active'' \<and> (\<exists>pid h rest ms. pool_ID pool = Some pid
    \<and> trace t = h @ CallListPoolMembers (opt_id opts) pid # rest
    \<and> e_ListPoolMembers E h (opt_id opts) pid = Inr (Some ms)
    \<and> (\<forall>m\<in>set ms. mem_Target m = MemberTarget (Some ip) \<longrightarrow>
         (\<exists>mid h' rest'. mem_ID m = Some mid
           \<and> trace t = h @ CallListPoolMembers (opt_id opts) pid # h' @ CallDeletePoolMember (opt_id opts) pid mid # rest'
           \<and> e_DeletePoolMember E (h @ CallListPoolMembers (opt_id opts) pid # h') (opt_id opts) pid mid = Inr ())))"
proof -
  let ?R = "calls_in (\<lambda>_. True)"
  have "keeps ?R (deregister_pool E client ip o1 p1)" for o1 p1
    by (intro keeps_intros) simp_all
  then obtain u v where run: "deregister_pool E client ip opts pool u = (Val (Inr ()), v)"
      and v: "?R v t" and act: "opt_state opts = ''active''"
    using each_pool_elem [where Q = "\<lambda>_. True", of "deregister_pool E client ip"
        "range_order (e_rank E (trace s)) lbMap" s t name opts pool] assms
    by (auto simp: deleteLoadBalancerPoolMember_def bnd_run gets_run)
  from deregister_pool_ok [OF run] obtain pid ms w where pid: "pool_ID pool = Some pid"
      and ms: "e_ListPoolMembers E (trace u) (opt_id opts) pid = Inr (Some ms)"
      and w: "trace w = trace u @ [CallListPoolMembers (opt_id opts) pid]"
      and loop: "forE (deregister_member E client ip (opt_id opts) pid) ms w = (Val (Inr ()), v)"
    by blast
  have km: "keeps ?R (deregister_member E client ip (opt_id opts) pid m)" for m
    by (intro keeps_intros) simp
  have "?R w t" using keepsD [OF calls.keeps_forE [OF km] loop] v by (rule calls.R_trans)
  then obtain rest where rest: "trace t = trace u @ CallListPoolMembers (opt_id opts) pid # rest"
    using w by (auto simp: calls_in_def)
  have "\<exists>mid h' rest'. mem_ID m = Some mid
      \<and> trace t = trace u @ CallListPoolMembers (opt_id opts) pid # h' @ CallDeletePoolMember (opt_id opts) pid mid # rest'
      \<and> e_DeletePoolMember E (trace u @ CallListPoolMembers (opt_id opts) pid # h') (opt_id opts) pid mid = Inr ()"
    if m: "m \<in> set ms" "mem_Target m = MemberTarget (Some ip)" for m
  proof -
    obtain a b where ab: "?R w a" "deregister_member E client ip (opt_id opts) pid m a = (Val (Inr ()), b)" "?R b v"
      using calls.forE_elem [OF km loop m(1)] by blast
    from ab(1) obtain h' where "trace a = trace u @ CallListPoolMembers (opt_id opts) pid # h'"
      using w by (auto simp: calls_in_def)
    moreover from ab(3) v obtain rest' where "trace t = trace b @ rest'" by (auto simp: calls_in_def)
    moreover from deregister_member_ok [OF ab(2)] m(2) obtain mid where "mem_ID m = Some mid"
        "e_DeletePoolMember E (trace a) (opt_id opts) pid mid = Inr ()"
        "trace b = trace a @ [CallDeletePoolMember (opt_id opts) pid mid]"
      by auto
    ultimately show ?thesis
      by (intro exI [of _ mid] exI [of _ h'] exI [of _ rest']) simp
  qed
  with act pid ms rest show ?thesis by blast
qed

theorem deleteLoadBalancerPoolMember_complete_witness:
  "\<exists>t rest h. deleteLoadBalancerPoolMember demo_lb_env demo_client [(''api'', lb_options demo_lb)] ''10.0.0.9''
       demo_world = (Val (Inr ()), t)
     \<and> trace t = h @ CallDeletePoolMember ''lb-1'' ''p-1'' ''m-0'' # rest"
proof -
  obtain t where run: "deleteLoadBalancerPoolMember demo_lb_env demo_client [(''api'', lb_options demo_lb)]
      ''10.0.0.9'' demo_world = (Val (Inr ()), t)"
    by (simp add: deleteLoadBalancerPoolMember_def each_pool_def deregister_pool_def deregister_member_def
        range_order_def client_calls prog_simps lb_options_def loadBalancerActiveState_def demo_lb_env_def
        demo_lb_def demo_client_def demo_world_def)
  let ?m = "\<lparr>mem_ID = Some ''m-0'', mem_Port = Some 6443, mem_Target = MemberTarget (Some ''10.0.0.9'')\<rparr>"
  have opts: "opt_id (lb_options demo_lb) = ''lb-1''"
      "opt_pools (lb_options demo_lb) = [\<lparr>pool_ID = Some ''p-1'', pool_Name = Some ''web''\<rparr>]"
    by (simp_all add: lb_options_def demo_lb_def)
  have member: "e_ListPoolMembers demo_lb_env h lb pool = Inr (Some ms) \<Longrightarrow> ?m \<in> set ms" for h lb pool ms
    by (auto simp: demo_lb_env_def)
  have "\<exists>h' mid rest'. mem_ID ?m = Some mid \<and> trace t = h' @ CallDeletePoolMember ''lb-1'' ''p-1'' mid # rest'"
    using deleteLoadBalancerPoolMember_complete [OF run, of "''api''" "lb_options demo_lb"
      "\<lparr>pool_ID = Some ''p-1'', pool_Name = Some ''web''\<rparr>"] member opts
    by (simp, metis Cons_eq_appendI append_assoc LoadBalancerPoolMember.select_convs(1,3) option.inject)
  with run show ?thesis by auto
qed

section \<open>Requeueing\<close>

text \<open>
  C38. \<open>createLoadBalancerPoolMember\<close> asks to be requeued after 20 seconds when a load balancer turns
  out to be busy, but \<open>updateLoadBalancers\<close> passes on the text of the error only: no error it returns
  is a request to requeue.
\<close>

theorem updateLoadBalancers_never_requeues:
  assumes "updateLoadBalancers E r ip s = (Val (Inl e), t)"
  shows "errors_As_RequeueAfter e = None"
  using assms by (auto simp: updateLoadBalancers_def prog_simps split: run_splits)

definition busy_lb_env :: env where
  "busy_lb_env = demo_lb_env\<lparr>e_GetLoadBalancer := \<lambda>_ i. Inr (Some (demo_lb\<lparr>lb_ID := Some i,
     lb_ProvisioningStatus := Some ''update_pending''\<rparr>)), e_ListPoolMembers := \<lambda>_ _ _. Inr (Some [])\<rparr>"

theorem updateLoadBalancers_never_requeues_witness:
  "\<exists>e t u. createLoadBalancerPoolMember busy_lb_env demo_client [(''api'', lb_options demo_lb)] ''10.0.0.1''
       demo_scope_world = (Val (Inl (RequeueAfterError 20)), u)
     \<and> updateLoadBalancers busy_lb_env (demo_scope\<lparr>providerSpec := Some (demo_config\<lparr>SpecLoadBalancers :=
         [\<lparr>lbr_Name = ''api'', lbr_Type = ''Application''\<rparr>]\<rparr>)\<rparr>) ''10.0.0.1'' demo_scope_world = (Val (Inl e), t)
     \<and> errors_As_RequeueAfter e = None"
proof -
  let ?sc = "demo_scope\<lparr>providerSpec := Some (demo_config\<lparr>SpecLoadBalancers :=
         [\<lparr>lbr_Name = ''api'', lbr_Type = ''Application''\<rparr>]\<rparr>)\<rparr>"
  have 1: "\<exists>u. createLoadBalancerPoolMember busy_lb_env c [(''api'', lb_options demo_lb)] ''10.0.0.1''
       s = (Val (Inl (RequeueAfterError 20)), u)" if "cl_VPC c \<noteq> None" for c and s :: scope_world
    using that
    by (auto simp: createLoadBalancerPoolMember_def each_pool_def register_pool_def scan_member_def range_order_def
        client_calls prog_simps lb_options_def loadBalancerActiveState_def busy_lb_env_def demo_lb_env_def
        demo_lb_def requeueAfterSeconds_def split: run_splits)
  have names: "applicationLoadBalancerNames [\<lparr>lbr_Name = ''api'', lbr_Type = ''Application''\<rparr>] = [''api'']"
    by (simp add: applicationLoadBalancerNames_def)
  obtain v where 3: "getLoadBalancers busy_lb_env (powerVSClient_of demo_scope) [''api''] demo_scope_world
      = (Val (Inr [(''api'', lb_options demo_lb)]), v)"
    by (simp add: getLoadBalancers_def PagingHelper_def with_list_def lb_page_run add_lb_def prog_simps busy_lb_env_def
        demo_lb_env_def demo_env_def base_env_def demo_lb_def demo_scope_def Let_def eval_nat_numeral lb_options_def)
  obtain u where 4: "createLoadBalancerPoolMember busy_lb_env (powerVSClient_of demo_scope)
      [(''api'', lb_options demo_lb)] ''10.0.0.1'' v = (Val (Inl (RequeueAfterError 20)), u)"
    using 1 [of "powerVSClient_of demo_scope" v] by (auto simp: demo_scope_def)
  have 2: "updateLoadBalancers busy_lb_env ?sc ''10.0.0.1'' demo_scope_world = (Val (Inl (Errorf_v
      (''vm-0'' @ '': Failed to register application load balancers: '') (RequeueAfterError 20))), u)"
    using 3 4 names
    by (simp add: updateLoadBalancers_def registerWithApplicationLoadBalancers_def prog_simps demo_scope_def
        demo_scope_world_def demo_machine_def)
  from updateLoadBalancers_never_requeues [OF 2] 2 1 show ?thesis by (auto simp: demo_client_def)
qed

end
