(* ===== verification/Reconciler.thy ===== *)
theory Reconciler
  imports Load_Balancers
begin

text \<open>
  \<open>pkg/actuators/machine/reconciler.go\<close>: the four operations on a machine and the steps they are
  made of. A reconciler is its scope, so the operations take the \<open>machineScope\<close> and work on the state
  of \<open>Machine_Scope\<close>. Logging is left out; what a log line dereferences is not.
\<close>

section \<open>Definitions\<close>

definition masterLabel :: string where
  "masterLabel = ''node-role.kubernetes.io/master''"

definition isMaster :: "env \<Rightarrow> ('x scope_world_scheme, bool) errprog" where
  "isMaster E =
     bnd (gets machine) (\<lambda>m.
       case NodeRef (m_Status m) of
         None \<Rightarrow> ok False
       | Some (ns, name) \<Rightarrow>
           bnd (do_call (KubeGetNode ns name) (\<lambda>h. e_GetNode E h ns name)) (\<lambda>r.
             case r of
               Inl err \<Rightarrow> fail (PlainError (''failed to get node from machine '' @ m_Name m))
             | Inr labels \<Rightarrow> if labels masterLabel \<noteq> None then ok True else ok False))"

definition setProviderID :: "env \<Rightarrow> machineScope \<Rightarrow> PVMInstance option \<Rightarrow> ('x scope_world_scheme, unit) errprog" where
  "setProviderID E r inst =
     (case inst of
        None \<Rightarrow> ok ()
      | Some i \<Rightarrow>
          bnd (gets machine) (\<lambda>m.
            case ProviderStatusFromRawExtension E (ProviderStatus (m_Status m)) of
              Inl err \<Rightarrow> fail (MachineError InvalidConfiguration
                           (''failed to get machine provider status: '' @ Error err))
            | Inr status \<Rightarrow>
                (case ServiceInstanceID status of
                   None \<Rightarrow> fail (PlainError ''serviceInstanceID is empty, Cannot set providerID'')
                 | Some serviceInstanceID \<Rightarrow>
                     bnd (deref (PvmInstanceID i)) (\<lambda>vm.
                     let providerID = FormatProviderID (GetRegion (powerVSClient_of r))
                           (GetZone (powerVSClient_of r)) serviceInstanceID vm in
                     if m_ProviderID m = Some providerID then ok ()
                     else bnd (modify (\<lambda>s. s\<lparr>machine := (machine s)\<lparr>m_ProviderID := Some providerID\<rparr>\<rparr>)) ok))))"

text \<open>\<open>if m == nil { m = make(map[string]string) }\<close> and \<open>m[k] = v\<close> when a condition holds.\<close>

definition made :: "strmap option \<Rightarrow> strmap" where
  "made m = (case m of None \<Rightarrow> Map.empty | Some f \<Rightarrow> f)"

definition put_if :: "bool \<Rightarrow> string \<Rightarrow> string \<Rightarrow> strmap \<Rightarrow> strmap" where
  "put_if b k v m = (if b then m(k \<mapsto> v) else m)"

definition setMachineCloudProviderSpecifics ::
    "machineScope \<Rightarrow> PVMInstance option \<Rightarrow> ('x scope_world_scheme, unit) errprog" where
  "setMachineCloudProviderSpecifics r inst =
     (case inst of
        None \<Rightarrow> ok ()
      | Some i \<Rightarrow>
          let region = GetRegion (powerVSClient_of r); zone = GetZone (powerVSClient_of r) in
          bnd (modify (\<lambda>s. s\<lparr>machine := (machine s)\<lparr>
              m_SpecLabels := Some (made (m_SpecLabels (machine s))),
              m_Annotations := Some
                (case InstanceStatus i of
                   None \<Rightarrow> made (m_Annotations (machine s))
                 | Some st \<Rightarrow> (made (m_Annotations (machine s)))(''machine.openshift.io/instance-state'' \<mapsto> st)),
              m_Labels := Some
                (put_if (SysType i \<noteq> []) ''machine.openshift.io/instance-type'' (SysType i)
                  (put_if (zone \<noteq> []) ''machine.openshift.io/zone'' zone
                    (put_if (region \<noteq> []) ''machine.openshift.io/region'' region
                      (made (m_Labels (machine s))))))\<rparr>\<rparr>)) ok)"

definition requeueIfInstanceBuilding :: "env \<Rightarrow> PVMInstance option \<Rightarrow> ('x scope_world_scheme, unit) errprog" where
  "requeueIfInstanceBuilding E inst =
     bnd (deref inst) (\<lambda>i.
       if InstanceStatus i = Some InstanceStateNameBuild
       then bnd (setProviderStatus E (Some i) conditionBuild) (\<lambda>_. fail (RequeueAfterError requeueAfterSeconds))
       else ok ())"

definition getMachineInstance :: "env \<Rightarrow> machineScope \<Rightarrow> ('x scope_world_scheme, PVMInstance option) errprog" where
  "getMachineInstance E r =
     bnd (gets (\<lambda>s. (InstanceID (providerStatus s), m_Name (machine s)))) (\<lambda>(instanceID, name).
       let byName = GetInstanceByName E (powerVSClient_of r) name in
       case instanceID of
         Some ident \<Rightarrow>
           if ident \<noteq> [] then
             bnd (GetInstance E (powerVSClient_of r) ident) (\<lambda>res.
               case res of Inl err \<Rightarrow> byName | Inr i \<Rightarrow> ok i)
           else byName
       | None \<Rightarrow> byName)"

definition network_addresses :: "PVMInstanceNetwork \<Rightarrow> NodeAddress list" where
  "network_addresses network =
     (if TrimSpace (net_ExternalIP network) \<noteq> []
      then [\<lparr>addr_Type = NodeExternalIP, addr_Address = TrimSpace (net_ExternalIP network)\<rparr>] else [])
   @ (if TrimSpace (net_IPAddress network) \<noteq> []
      then [\<lparr>addr_Type = NodeInternalIP, addr_Address = TrimSpace (net_IPAddress network)\<rparr>] else [])"

definition set_addresses :: "NodeAddress list \<Rightarrow> ('x scope_world_scheme, unit) prog" where
  "set_addresses addrs = modify (\<lambda>s. s\<lparr>machine := (machine s)\<lparr>m_Status :=
     (m_Status (machine s))\<lparr>Addresses := addrs\<rparr>\<rparr>\<rparr>)"

text \<open>The IP of a VM by its lease: the part of \<open>setMachineAddresses\<close> that asks the DHCP server.\<close>

definition dhcp_lease_ip ::
    "env \<Rightarrow> machineScope \<Rightarrow> string \<Rightarrow> PVMInstanceNetwork list \<Rightarrow> ('x scope_world_scheme, string) errprog" where
  "dhcp_lease_ip E r server networks =
     bnd (gets (\<lambda>s. m_Name (machine s))) (\<lambda>name.
     bnd (deref (providerSpec r)) (\<lambda>spec.
     bndE (mapErr (Errorf_v (''failed to fetch network id from network resource for VM: '' @ name @ '' error: ''))
            (getNetworkID E (powerVSClient_of r) (Network spec))) (\<lambda>networkID.
       case List.find (\<lambda>n. net_NetworkID n = networkID) (rev networks) of
         None \<Rightarrow> fail (PlainError (''failed to get network attached to VM '' @ server @ '' with id '' @ networkID))
       | Some pvmNetwork \<Rightarrow>
           bndE (mapErr (Errorf_v ''failed to get DHCP server error: '') (GetDHCPServers E (powerVSClient_of r))) (\<lambda>servers.
           bnd (findP (\<lambda>sv. bnd (deref (dhcp_Network sv)) (\<lambda>n. bnd (deref n) (\<lambda>ident. ret (ident = networkID)))) servers) (\<lambda>found.
             case found of
               None \<Rightarrow> fail (PlainError (''DHCP server detailis not found for network with ID '' @ networkID))
             | Some sv \<Rightarrow>
                 bnd (deref (dhcp_ID sv)) (\<lambda>serverID.
                 bnd (GetDHCPServerByID E (powerVSClient_of r) serverID) (\<lambda>res.
                   case res of
                     Inl err \<Rightarrow> fail (Errorf_v (''failed to get DHCP server details with DHCP server ID: ''
                                  @ serverID @ '' error: '') err)
                   | Inr None \<Rightarrow> fail (PlainError (''failed to get DHCP server details with DHCP server ID: ''
                                  @ serverID @ '' error: <nil>''))
                   | Inr (Some details) \<Rightarrow>
                       bnd (findP (\<lambda>lease. bnd (deref (InstanceMacAddress lease))
                               (\<lambda>mac. ret (mac = net_MacAddress pvmNetwork))) (Leases details)) (\<lambda>lease.
                         case lease of
                           Some l \<Rightarrow> bnd (deref (InstanceIP l)) ok
                         | None \<Rightarrow> bnd (deref (detail_ID details)) (\<lambda>ident.
                             fail (PlainError (''failed to get internal IP, DHCP lease not found for VM '' @ server
                               @ '' with MAC '' @ net_MacAddress pvmNetwork @ '' in DHCP network '' @ ident)))))))))))"

definition setMachineAddresses :: "env \<Rightarrow> machineScope \<Rightarrow> PVMInstance option \<Rightarrow> ('x scope_world_scheme, unit) errprog" where
  "setMachineAddresses E r inst =
     (case inst of
        None \<Rightarrow> ok ()
      | Some i \<Rightarrow>
          bnd (deref (ServerName i)) (\<lambda>server.
          let networkAddresses = \<lparr>addr_Type = NodeInternalDNS, addr_Address = server\<rparr>
                # concat (map network_addresses (Networks i)) in
          bnd (set_addresses networkAddresses) (\<lambda>_.
            if length networkAddresses > 1 then ok ()
            else
              bnd (cache_GetByKey E server) (\<lambda>obj.
                case obj of
                  Some v \<Rightarrow>
                    bnd (set_addresses (networkAddresses @ [\<lparr>addr_Type = NodeInternalIP, addr_Address = vm_ip v\<rparr>])) ok
                | None \<Rightarrow>
                    bndE (dhcp_lease_ip E r server (Networks i)) (\<lambda>internalIP.
                    bnd (cache_Add E \<lparr>vm_name = server, vm_ip = internalIP\<rparr>) (\<lambda>_.
                    bnd (set_addresses (networkAddresses @
                           [\<lparr>addr_Type = NodeInternalIP, addr_Address = internalIP\<rparr>])) ok))))))"

definition getMachineInternalIP :: "('x scope_world_scheme, string) prog" where
  "getMachineInternalIP =
     gets (\<lambda>s. case List.find (\<lambda>a. addr_Type a = NodeInternalIP) (Addresses (m_Status (machine s))) of
        Some a \<Rightarrow> addr_Address a | None \<Rightarrow> [])"

definition create :: "env \<Rightarrow> machineScope \<Rightarrow> ('x scope_world_scheme, unit) errprog" where
  "create E r =
     bnd (gets machine) (\<lambda>m.
       case validateMachine m of
         Inl err \<Rightarrow> fail (Errorf_w (m_Name m @ '': failed validating machine provider spec: '') err)
       | Inr _ \<Rightarrow>
           bnd (isMaster E) (\<lambda>master.
           bndE (case master of
                   Inl err \<Rightarrow> ok ()
                 | Inr b \<Rightarrow>
                     if \<not> b then mapErr (Errorf_w ''unable to remove stopped machines: '')
                                    (removeStoppedMachine E (powerVSClient_of r) m)
                     else ok ()) (\<lambda>_.
           bndE (mapErr (Errorf_w ''failed to get user data: '') (getUserData E r)) (\<lambda>userData.
           bnd (deref (providerSpec r)) (\<lambda>spec.
           bndE (onErr (launchInstance E (powerVSClient_of r) m spec userData) (\<lambda>err.
                   bnd (setProviderStatus E None (conditionFailed\<lparr>cond_Message := Error err\<rparr>)) (\<lambda>_.
                     fail (Errorf_w ''failed to launch instance: '' err)))) (\<lambda>inst.
             requeueIfInstanceBuilding E inst))))))"

definition delete :: "env \<Rightarrow> machineScope \<Rightarrow> ('x scope_world_scheme, unit) errprog" where
  "delete E r =
     bnd (getMachineInstance E r) (\<lambda>res.
     bnd (gets machine) (\<lambda>m.
       case res of
         Inl err \<Rightarrow>
           if err \<noteq> ErrorInstanceNotFound
           then bnd (RegisterFailed FailedInstanceDelete (m_Name m) (m_Namespace m) ''error getting existing instance'')
                  (\<lambda>_. fail err)
           else bnd (cache_Delete \<lparr>vm_name = m_Name m, vm_ip = []\<rparr>) ok
       | Inr existingInstance \<Rightarrow>
           bnd getMachineInternalIP (\<lambda>internalIP.
           bndE (if internalIP \<noteq> [] then
                   onErr (removeFromApplicationLoadBalancers E r internalIP) (\<lambda>err.
                     bnd (RegisterFailed FailedInstanceDelete (m_Name m) (m_Namespace m) (Error err)) (\<lambda>_.
                     bnd (deref existingInstance) (\<lambda>i.
                     bnd (deref (ServerName i)) (\<lambda>server.
                       fail (Errorf_w (''failed to deregister instance '' @ server @ '' from load balancers: '') err)))))
                 else ok ()) (\<lambda>_.
           bnd (deref existingInstance) (\<lambda>i.
           bnd (deref (PvmInstanceID i)) (\<lambda>vm.
           bndE (onErr (DeleteInstance E (powerVSClient_of r) vm) (\<lambda>err.
                   bnd (RegisterFailed FailedInstanceDelete (m_Name m) (m_Namespace m) ''failed to delete instance'') (\<lambda>_.
                     fail (Errorf_w ''failed to delete instaces: '' err)))) (\<lambda>_.
             bnd (cache_Delete \<lparr>vm_name = m_Name m, vm_ip = []\<rparr>) ok)))))))"

definition update :: "env \<Rightarrow> machineScope \<Rightarrow> ('x scope_world_scheme, unit) errprog" where
  "update E r =
     bnd (gets machine) (\<lambda>m.
       case validateMachine m of
         Inl err \<Rightarrow> fail (Errorf_v (m_Name m @ '': failed validating machine provider spec: '') err)
       | Inr _ \<Rightarrow>
           bndE (onErr (getMachineInstance E r) (\<lambda>err.
                   bnd (RegisterFailed FailedInstanceUpdate (m_Name m) (m_Namespace m)
                          ''error getting existing instance'') (\<lambda>_. fail err))) (\<lambda>existingInstance.
           bndE (mapErr (Errorf_w ''failed to update machine object with providerID: '')
                  (setProviderID E r existingInstance)) (\<lambda>_.
           bndE (mapErr (Errorf_w ''failed to set machine cloud provider specifics: '')
                  (setMachineCloudProviderSpecifics r existingInstance)) (\<lambda>_.
           bnd (setProviderStatus E existingInstance conditionSuccess) (\<lambda>_.
           bnd (setMachineAddresses E r existingInstance) (\<lambda>_.
           bnd getMachineInternalIP (\<lambda>internalIP.
           bndE (if internalIP \<noteq> [] then
                   onErr (updateLoadBalancers E r internalIP) (\<lambda>err.
                     bnd (RegisterFailed FailedInstanceCreate (m_Name m) (m_Namespace m) (Error err)) (\<lambda>_.
                       fail (Errorf_w ''failed to update load balancers: '' err)))
                 else ok ()) (\<lambda>_.
             requeueIfInstanceBuilding E existingInstance))))))))"

definition exists_op :: "env \<Rightarrow> machineScope \<Rightarrow> ('x scope_world_scheme, bool) errprog" where
  "exists_op E r =
     bnd (getMachineInstance E r) (\<lambda>res.
     bnd (gets machine) (\<lambda>m.
       let gone =
         (case m_ProviderID m of
            Some providerID \<Rightarrow>
              if providerID \<noteq> [] then
                bnd (case LastUpdated (m_Status m) of
                       None \<Rightarrow> ret True
                     | Some lu \<Rightarrow> bnd (Now E) (\<lambda>now. ret (lu + int requeueAfterSeconds * 1000000000 > now))) (\<lambda>recent.
                  if recent then fail (RequeueAfterError requeueAfterSeconds) else ok False)
              else ok False
          | None \<Rightarrow> ok False) in
       case res of
         Inl err \<Rightarrow>
           if err \<noteq> ErrorInstanceNotFound
           then bnd (RegisterFailed FailedInstanceUpdate (m_Name m) (m_Namespace m) ''error getting existing instance'')
                  (\<lambda>_. fail err)
           else gone
       | Inr None \<Rightarrow> gone
       | Inr (Some _) \<Rightarrow> ok True))"

section \<open>Which calls the operations make\<close>

fun dhcp_read :: "call \<Rightarrow> bool" where
  "dhcp_read (CallGetDHCPServers _) = True"
| "dhcp_read (CallGetDHCPServer _ _) = True"
| "dhcp_read _ = False"

fun local_call :: "call \<Rightarrow> bool" where
  "local_call (Metric _ _ _ _) = True"
| "local_call TimeNow = True"
| "local_call _ = False"

definition exists_call :: "call \<Rightarrow> bool" where
  "exists_call c \<longleftrightarrow> service_read c \<or> local_call c"

definition update_call :: "call \<Rightarrow> bool" where
  "update_call c \<longleftrightarrow> service_read c \<or> dhcp_read c \<or> lb_read c \<or> local_call c
     \<or> (\<exists>lb pool port ip. c = CallCreatePoolMember lb pool port ip)"

definition delete_call :: "call \<Rightarrow> bool" where
  "delete_call c \<longleftrightarrow> service_read c \<or> lb_read c \<or> local_call c
     \<or> (\<exists>sid vm. c = CallDeleteInstance sid vm) \<or> (\<exists>lb pool m. c = CallDeletePoolMember lb pool m)"

definition create_call :: "call \<Rightarrow> bool" where
  "create_call c \<longleftrightarrow> service_read c \<or> local_call c \<or> (\<exists>ns n. c = KubeGetNode ns n) \<or> (\<exists>ns n. c = KubeGetSecret ns n)
     \<or> (\<exists>sid vm. c = CallDeleteInstance sid vm) \<or> (\<exists>sid p. c = CallCreateInstance sid p)"

lemmas call_class_defs = exists_call_def update_call_def delete_call_def create_call_def

lemma keeps_steps [keeps_intros]:
  "keeps (calls_in P) getMachineInternalIP"
  "keeps (calls_in P) (set_addresses addrs)"
  "keeps (calls_in P) (setProviderID E r inst)"
  "keeps (calls_in P) (setMachineCloudProviderSpecifics r inst)"
  "P TimeNow \<Longrightarrow> keeps (calls_in P) (requeueIfInstanceBuilding E inst)"
  "(\<And>ns n. P (KubeGetNode ns n)) \<Longrightarrow> keeps (calls_in P) (isMaster E)"
  "P (Metric k n ns m) \<Longrightarrow> keeps (calls_in P) (RegisterFailed k n ns m)"
  "P TimeNow \<Longrightarrow> keeps (calls_in P) (Now E)"
  unfolding getMachineInternalIP_def set_addresses_def setProviderID_def setMachineCloudProviderSpecifics_def
    requeueIfInstanceBuilding_def isMaster_def RegisterFailed_def Now_def
  by (intro keeps_intros keeps_modify_trace; simp)+

lemma keeps_getMachineInstance [keeps_intros]:
  assumes "\<And>c. service_read c \<Longrightarrow> P c"
  shows "keeps (calls_in P) (getMachineInstance E r)"
  unfolding getMachineInstance_def by (intro keeps_intros assms; simp)

lemma keeps_dhcp_lease_ip [keeps_intros]:
  assumes "\<And>c. service_read c \<Longrightarrow> P c" "\<And>c. dhcp_read c \<Longrightarrow> P c"
  shows "keeps (calls_in P) (dhcp_lease_ip E r server nets)"
  unfolding dhcp_lease_ip_def by (intro keeps_intros; simp add: assms)

lemma keeps_setMachineAddresses [keeps_intros]:
  assumes "\<And>c. service_read c \<Longrightarrow> P c" "\<And>c. dhcp_read c \<Longrightarrow> P c" "P TimeNow"
  shows "keeps (calls_in P) (setMachineAddresses E r inst)"
  unfolding setMachineAddresses_def by (intro keeps_intros; simp add: assms)

lemma keeps_exists [keeps_intros]: "(\<And>c. exists_call c \<Longrightarrow> P c) \<Longrightarrow> keeps (calls_in P) (exists_op E r)"
  unfolding exists_op_def by (intro keeps_intros; simp add: exists_call_def)

lemma keeps_update [keeps_intros]: "(\<And>c. update_call c \<Longrightarrow> P c) \<Longrightarrow> keeps (calls_in P) (update E r)"
  unfolding update_def by (intro keeps_intros; simp add: update_call_def)

lemma keeps_delete [keeps_intros]: "(\<And>c. delete_call c \<Longrightarrow> P c) \<Longrightarrow> keeps (calls_in P) (delete E r)"
  unfolding delete_def by (intro keeps_intros; simp add: delete_call_def)

lemma keeps_create [keeps_intros]: "(\<And>c. create_call c \<Longrightarrow> P c) \<Longrightarrow> keeps (calls_in P) (create E r)"
  unfolding create_def by (intro keeps_intros; simp add: create_call_def)

section \<open>Creating\<close>

definition is_create :: "call \<Rightarrow> bool" where
  "is_create c \<longleftrightarrow> (\<exists>sid p. c = CallCreateInstance sid p)"

definition is_delete :: "call \<Rightarrow> bool" where
  "is_delete c \<longleftrightarrow> (\<exists>sid vm. c = CallDeleteInstance sid vm)"

lemma at_most_launchInstance: "at_most is_create 1 (launchInstance E p m cfg ud)"
proof -
  have create: "at_most is_create 1 (CreateInstance E p c)" for c
    using at_most_bnd [OF at_most_none [OF calls.keeps_deref] at_most_do_call]
    by (simp add: CreateInstance_def)
  have "at_most is_create (0 + (0 + (1 + 0))) (launchInstance E p m cfg ud)"
    unfolding launchInstance_def
    by (intro at_most_case_sum at_most_bndE at_most_mapErr create at_most_leaf)
       (intro keeps_intros; simp add: is_create_def)+
  then show ?thesis by simp
qed

lemma at_most_create: "at_most is_create 1 (create E r)"
proof -
  have "at_most is_create (0 + (0 + (0 + (0 + (0 + ((1 + 0) + 0)))))) (create E r)"
    unfolding create_def
    by (intro at_most_bnd at_most_case_sum at_most_bndE at_most_onErr at_most_launchInstance at_most_leaf)
       (intro keeps_intros; simp add: is_create_def)+
  then show ?thesis by simp
qed

lemma at_most_removeStoppedMachine: "at_most is_delete 1 (removeStoppedMachine E p m)"
proof -
  have delete: "at_most is_delete 1 (DeleteInstance E p i)" for i
    using at_most_bnd [OF at_most_none [OF calls.keeps_deref] at_most_do_call]
    by (simp add: DeleteInstance_def)
  have "at_most is_delete (0 + (0 + (0 + 1))) (removeStoppedMachine E p m)"
    unfolding removeStoppedMachine_def
    by (intro at_most_bnd at_most_case_sum at_most_case_option at_most_if delete at_most_leaf)
       (intro keeps_intros; simp add: is_delete_def)+
  then show ?thesis by simp
qed

lemma at_most_create_delete: "at_most is_delete 1 (create E r)"
proof -
  have "at_most is_delete (0 + (0 + (1 + (0 + (0 + (0 + 0)))))) (create E r)"
    unfolding create_def
    by (intro at_most_bnd at_most_case_sum at_most_bndE at_most_if at_most_mapErr at_most_removeStoppedMachine
          at_most_leaf)
       (intro keeps_intros; simp add: is_delete_def)+
  then show ?thesis by simp
qed

text \<open>
  However the cloud and the API server answer, one \<open>create\<close> sends at most one request to create a
  VM and at most one to delete a VM, and changes nothing else in the cloud.
\<close>

lemma create_at_most_one:
  assumes "create E r s = (x, t)"
  shows "\<exists>tr. trace t = trace s @ tr \<and> length (filter is_create tr) \<le> 1 \<and> length (filter is_delete tr) \<le> 1
    \<and> list_all (\<lambda>c. cloud_write c \<longrightarrow> is_create c \<or> is_delete c) tr"
proof -
  have "keeps (calls_in create_call) (create E r)" by (intro keeps_intros; assumption)
  from keepsD [OF this assms] obtain tr where tr: "trace t = trace s @ tr" "list_all create_call tr"
    by (auto simp: calls_in_def)
  have "cloud_write c \<longrightarrow> is_create c \<or> is_delete c" if "create_call c" for c
    using that by (cases c) (auto simp: create_call_def is_create_def is_delete_def)
  with tr(2) have "list_all (\<lambda>c. cloud_write c \<longrightarrow> is_create c \<or> is_delete c) tr"
    by (simp add: list_all_iff)
  with at_mostD [OF at_most_create assms] at_mostD [OF at_most_create_delete assms] tr(1) show ?thesis
    by auto
qed

lemma isMaster_run:
  "isMaster E s = (case NodeRef (m_Status (machine s)) of
      None \<Rightarrow> (Val (Inr False), s)
    | Some (ns, n) \<Rightarrow> (case e_GetNode E (trace s) ns n of
          Inl _ \<Rightarrow> (Val (Inl (PlainError (''failed to get node from machine '' @ m_Name (machine s)))),
                    s\<lparr>trace := trace s @ [KubeGetNode ns n]\<rparr>)
        | Inr labels \<Rightarrow> (Val (Inr (labels masterLabel \<noteq> None)), s\<lparr>trace := trace s @ [KubeGetNode ns n]\<rparr>)))"
  by (auto simp: isMaster_def prog_simps split: option.split sum.split)

lemma isMaster_returns: "\<exists>master u. isMaster E s = (Val master, u)"
  by (auto simp: isMaster_run split: option.split sum.split)

text \<open>
  What a creation deletes, it deletes while it removes a stopped machine, and it comes to that exactly if
  the machine is valid and is not taken for a master.
\<close>

lemma create_delete_split:
  fixes s t :: "'x scope_world_scheme"
  assumes "create E r s = (x, t)"
  shows "if validateMachine (machine s) = Inr () \<and> fst (isMaster E s) = Val (Inr False)
    then \<exists>y v. removeStoppedMachine E (powerVSClient_of r) (machine s) (snd (isMaster E s)) = (y, v)
      \<and> calls_in (\<lambda>c. \<not> is_delete c) v t
    else calls_in (\<lambda>c. \<not> is_delete c) s t"
proof -
  let ?N = "\<lambda>c. \<not> is_delete c"
  let ?stop = "removeStoppedMachine E (powerVSClient_of r) (machine s)"
  define rest :: "('x scope_world_scheme, unit) errprog" where
    "rest = bndE (mapErr (Errorf_w ''failed to get user data: '') (getUserData E r)) (\<lambda>userData.
           bnd (deref (providerSpec r)) (\<lambda>spec.
           bndE (onErr (launchInstance E (powerVSClient_of r) (machine s) spec userData) (\<lambda>err.
                   bnd (setProviderStatus E None (conditionFailed\<lparr>cond_Message := Error err\<rparr>)) (\<lambda>_.
                     fail (Errorf_w ''failed to launch instance: '' err)))) (\<lambda>inst.
             requeueIfInstanceBuilding E inst)))"
  have eq: "create E r s = (case validateMachine (machine s) of
      Inl err \<Rightarrow> (Val (Inl (Errorf_w (m_Name (machine s) @ '': failed validating machine provider spec: '') err)), s)
    | Inr _ \<Rightarrow> bnd (isMaster E) (\<lambda>master. bndE (case master of Inl err \<Rightarrow> ok ()
        | Inr b \<Rightarrow> if \<not> b then mapErr (Errorf_w ''unable to remove stopped machines: '') ?stop else ok ()) (\<lambda>_. rest)) s)"
    by (simp add: create_def rest_def bnd_run gets_run fail_run split: sum.split)
  have rest: "calls_in ?N u v" if "rest u = (o1, v)" for u v o1
  proof -
    have "keeps (calls_in ?N) rest" unfolding rest_def by (intro keeps_intros; simp add: is_delete_def)
    with that show ?thesis using keepsD by fast
  qed
  obtain master u where m: "isMaster E s = (Val master, u)"
    using isMaster_returns by blast
  have "keeps (calls_in ?N) (isMaster E)" by (intro keeps_intros; simp add: is_delete_def)
  then have su: "calls_in ?N s u" using m keepsD by fast
  show ?thesis
  proof (cases "master = Inr False \<and> validateMachine (machine s) = Inr ()")
    case True
    obtain y v where "?stop u = (y, v)" by (cases "?stop u")
    moreover have "calls_in ?N v t"
      using assms eq m True calculation rest
      by (auto simp: bnd_run bndE_run mapErr_run split: run_splits intro: calls.R_refl)
    ultimately show ?thesis using m True by simp
  next
    case False
    have "calls_in ?N s t"
      using assms eq m False rest su
      by (auto simp: bnd_run split: sum.splits if_splits intro: calls.R_refl calls.R_trans)
    then show ?thesis using m False by auto
  qed
qed

lemma create_delete_cases:
  fixes s t :: "'x scope_world_scheme"
  assumes "create E r s = (x, t)"
  shows "calls_in (\<lambda>c. \<not> is_delete c) s t \<or>
    (\<exists>u y v. isMaster E s = (Val (Inr False), u)
       \<and> removeStoppedMachine E (powerVSClient_of r) (machine s) u = (y, v) \<and> calls_in (\<lambda>c. \<not> is_delete c) v t)"
  using create_delete_split [OF assms] by (cases "isMaster E s") (auto split: if_splits)

lemma no_delete_in: "list_all (\<lambda>c. \<not> is_delete c) tr \<Longrightarrow> CallDeleteInstance sid vm \<notin> set tr"
  by (auto simp: list_all_iff is_delete_def)

lemma isMaster_False_iff:
  "isMaster E s = (Val (Inr False), u) \<longleftrightarrow>
    (\<exists>reads. u = s\<lparr>trace := trace s @ reads\<rparr> \<and>
      (case NodeRef (m_Status (machine s)) of None \<Rightarrow> reads = []
       | Some (ns, n) \<Rightarrow> reads = [KubeGetNode ns n]
           \<and> (\<exists>labels. e_GetNode E (trace s) ns n = Inr labels \<and> labels masterLabel = None)))"
  by (auto simp: isMaster_run split: option.splits sum.splits)

text \<open>
  C5. Which VM \<open>create\<close> deletes, exactly: it sends the deletion of \<open>vm\<close> if and only if the machine is valid, it
  either has no node reference or its node could be read and carries no master label, and the VM of its
  name that is read next is \<open>vm\<close> and shut off. So a machine whose node carries the master label loses no
  VM, and neither does one whose node cannot be read; but a machine without a node reference is not taken for a
  master and loses its stopped VM, whatever its role.
\<close>

theorem create_deletes_iff:
  fixes s t :: "'x scope_world_scheme"
  assumes "create E r s = (x, t)" and "trace t = trace s @ tr"
  shows "CallDeleteInstance sid vm \<in> set tr \<longleftrightarrow>
    validateMachine (machine s) = Inr () \<and> cl_InstanceID (powerVSClient_of r) = Some sid \<and>
    (\<exists>reads inst u.
       (case NodeRef (m_Status (machine s)) of None \<Rightarrow> reads = []
        | Some (ns, n) \<Rightarrow> reads = [KubeGetNode ns n]
            \<and> (\<exists>labels. e_GetNode E (trace s) ns n = Inr labels \<and> labels masterLabel = None))
       \<and> GetInstanceByName E (powerVSClient_of r) (m_Name (machine s)) (s\<lparr>trace := trace s @ reads\<rparr>)
           = (Val (Inr (Some inst)), u)
       \<and> InstanceStatus inst = Some ''SHUTOFF'' \<and> PvmInstanceID inst = Some vm)" (is "?D \<longleftrightarrow> ?valid \<and> ?sid \<and> ?stopped")
proof (cases "?valid \<and> fst (isMaster E s) = Val (Inr False)")
  case False
  then have "\<not> ?D" using create_delete_split [OF assms(1)] assms(2) no_delete_in by (auto simp: calls_in_def)
  moreover have "\<not> (?valid \<and> ?stopped)"
  proof
    assume "?valid \<and> ?stopped"
    then have ?valid "\<exists>u. isMaster E s = (Val (Inr False), u)" unfolding isMaster_False_iff by blast+
    with False show False by auto
  qed
  ultimately show ?thesis by blast
next
  case True
  then obtain u y v where m: "isMaster E s = (Val (Inr False), u)"
      and stop: "removeStoppedMachine E (powerVSClient_of r) (machine s) u = (y, v)"
      and vt: "calls_in (\<lambda>c. \<not> is_delete c) v t"
    using create_delete_split [OF assms(1)] by (cases "isMaster E s") auto
  have "keeps (calls_in (\<lambda>c. \<not> is_delete c)) (isMaster E)" by (intro keeps_intros; simp add: is_delete_def)
  from keepsD [OF this m] have su: "calls_in (\<lambda>c. \<not> is_delete c) s u" .
  have "keeps (calls_in (\<lambda>_. True)) (removeStoppedMachine E (powerVSClient_of r) (machine s))"
    by (intro keeps_intros; simp)
  from keepsD [OF this stop] obtain tr2 where tr2: "trace v = trace u @ tr2" by (auto simp: calls_in_def)
  have "?D \<longleftrightarrow> CallDeleteInstance sid vm \<in> set tr2"
    using assms(2) su vt tr2 no_delete_in by (auto simp: calls_in_def)
  also have "\<dots> \<longleftrightarrow> ?sid \<and> (\<exists>inst w. GetInstanceByName E (powerVSClient_of r) (m_Name (machine s)) u
      = (Val (Inr (Some inst)), w) \<and> InstanceStatus inst = Some ''SHUTOFF'' \<and> PvmInstanceID inst = Some vm)"
    by (rule removeStoppedMachine_deletes_iff [OF stop tr2])
  also have "\<dots> \<longleftrightarrow> ?sid \<and> ?stopped"
  proof -
    let ?no_master = "\<lambda>reads. case NodeRef (m_Status (machine s)) of None \<Rightarrow> reads = []
      | Some (ns, n) \<Rightarrow> reads = [KubeGetNode ns n]
          \<and> (\<exists>labels. e_GetNode E (trace s) ns n = Inr labels \<and> labels masterLabel = None)"
    obtain reads where u: "u = s\<lparr>trace := trace s @ reads\<rparr>" and reads: "?no_master reads"
      using m unfolding isMaster_False_iff by blast
    have "?no_master reads' \<longleftrightarrow> reads' = reads" for reads'
      using reads by (cases "NodeRef (m_Status (machine s))") auto
    then show ?thesis by (simp add: u)
  qed
  finally show ?thesis using True by blast
qed

lemma demo_create:
  "\<exists>t. create (demo_env ''SHUTOFF'') demo_scope demo_scope_world = (Val (Inr ()), t)
     \<and> CallDeleteInstance ''S'' ''id-0'' \<in> set (trace t)"
  by (simp add: create_def isMaster_run validateMachine_def lookup_label_def removeStoppedMachine_def
      GetInstanceByName_def getUserData_def launchInstance_def processorValue_def getImageID_def getNetworkID_def
      requeueIfInstanceBuilding_def client_calls prog_simps demo_scope_def demo_scope_world_def demo_defs
      InstanceStateNameShutoff_def InstanceStateNameBuild_def)

theorem create_deletes_iff_witness:
  "\<exists>t inst u. create (demo_env ''SHUTOFF'') demo_scope demo_scope_world = (Val (Inr ()), t)
     \<and> NodeRef (m_Status (machine demo_scope_world)) = None
     \<and> CallDeleteInstance ''S'' ''id-0'' \<in> set (trace t)
     \<and> CallDeleteInstance ''S'' ''id-1'' \<notin> set (trace t)
     \<and> GetInstanceByName (demo_env ''SHUTOFF'') (powerVSClient_of demo_scope) ''vm-0'' demo_scope_world
         = (Val (Inr (Some inst)), u) \<and> InstanceStatus inst = Some ''SHUTOFF''"
proof -
  obtain t where run: "create (demo_env ''SHUTOFF'') demo_scope demo_scope_world = (Val (Inr ()), t)"
      and del: "CallDeleteInstance ''S'' ''id-0'' \<in> set (trace t)"
    using demo_create by blast
  have app: "trace t = trace demo_scope_world @ trace t" and name: "m_Name (machine demo_scope_world) = ''vm-0''"
      and node: "NodeRef (m_Status (machine demo_scope_world)) = None"
    by (simp_all add: demo_scope_world_def demo_machine_def)
  note iff = create_deletes_iff [OF run app, of "''S''", unfolded node name]
  from iff [of "''id-0''"] del obtain inst u where
      got: "GetInstanceByName (demo_env ''SHUTOFF'') (powerVSClient_of demo_scope) ''vm-0'' demo_scope_world
        = (Val (Inr (Some inst)), u)" "InstanceStatus inst = Some ''SHUTOFF''" "PvmInstanceID inst = Some ''id-0''"
    by auto
  with iff [of "''id-1''"] have "CallDeleteInstance ''S'' ''id-1'' \<notin> set (trace t)" by auto
  with run del node got show ?thesis by blast
qed

section \<open>Deleting\<close>

definition machine_ip :: "Machine \<Rightarrow> string" where
  "machine_ip m = (case List.find (\<lambda>a. addr_Type a = NodeInternalIP) (Addresses (m_Status m)) of
     Some a \<Rightarrow> addr_Address a | None \<Rightarrow> [])"

lemma getMachineInternalIP_run: "getMachineInternalIP s = (Val (machine_ip (machine s)), s)"
  by (simp add: getMachineInternalIP_def machine_ip_def gets_run)

lemma rest_getMachineInstance: "keeps same_rest (getMachineInstance E r)"
  unfolding getMachineInstance_def by (intro keeps_intros TrueI)

lemma getMachineInstance_rest:
  fixes s u :: "'x scope_world_scheme"
  assumes "getMachineInstance E r s = (x, u)"
  shows "machine u = machine s" "providerStatus u = providerStatus s" "dhcpIPCacheStore u = dhcpIPCacheStore s"
  using keepsD [OF rest_getMachineInstance assms] by (simp_all add: same_rest_scope)

lemma removeFromApplicationLoadBalancers_rest:
  fixes s u :: "'x scope_world_scheme"
  assumes "removeFromApplicationLoadBalancers E r ip s = (x, u)"
  shows "machine u = machine s" "dhcpIPCacheStore u = dhcpIPCacheStore s"
  using keepsD [OF keeps_removeFromApplicationLoadBalancers(2) [where P = "\<lambda>_. True"] assms]
  by (simp_all add: same_rest_scope)

text \<open>
  C8. When \<open>delete\<close> succeeds, either there is no VM for the machine and nothing was changed, or the
  machine's IP, if it has one, was deregistered from the load balancers with success, then the VM was
  deleted with success, and that was the last call. In both cases the cached IP of the machine is
  forgotten and no other cache entry touched.
\<close>

theorem delete_success:
  fixes s t :: "'x scope_world_scheme"
  assumes "delete E r s = (Val (Inr ()), t)"
  shows "dhcpIPCacheStore t = (dhcpIPCacheStore s)(m_Name (machine s) := None) \<and>
   (\<exists>u. getMachineInstance E r s = (Val (Inl ErrorInstanceNotFound), u) \<and> trace t = trace u
    \<or> (\<exists>inst vm sid v. getMachineInstance E r s = (Val (Inr (Some inst)), u)
        \<and> (if machine_ip (machine s) \<noteq> []
            then removeFromApplicationLoadBalancers E r (machine_ip (machine s)) u = (Val (Inr ()), v) else v = u)
        \<and> PvmInstanceID inst = Some vm \<and> cl_InstanceID (powerVSClient_of r) = Some sid
        \<and> e_DeleteInstance E (trace v) sid vm = Inr () \<and> trace t = trace v @ [CallDeleteInstance sid vm]))"
proof -
  obtain o1 u where inst: "getMachineInstance E r s = (o1, u)" by (cases "getMachineInstance E r s")
  note same = getMachineInstance_rest [OF inst]
  show ?thesis
    using assms inst same
    by (auto simp: delete_def bnd_run bndE_run onErr_run gets_run fail_run ok_run deref_run RegisterFailed_def
        DeleteInstance_def do_call_run getMachineInternalIP_run cache_Delete_run
        split: run_splits dest: removeFromApplicationLoadBalancers_rest)
qed

text \<open>A deletion either makes no request to delete a VM, or makes it after these steps.\<close>

lemma delete_delete_cases:
  fixes s t :: "'x scope_world_scheme"
  assumes "delete E r s = (x, t)"
  shows "calls_in (\<lambda>c. \<not> is_delete c) s t \<or>
    (\<exists>inst u v vm sid rest. getMachineInstance E r s = (Val (Inr (Some inst)), u) \<and> PvmInstanceID inst = Some vm
      \<and> (if machine_ip (machine s) \<noteq> []
          then removeFromApplicationLoadBalancers E r (machine_ip (machine s)) u = (Val (Inr ()), v) else v = u)
      \<and> calls_in (\<lambda>c. \<not> is_delete c) s v \<and> cl_InstanceID (powerVSClient_of r) = Some sid
      \<and> trace t = trace v @ CallDeleteInstance sid vm # rest \<and> list_all (\<lambda>c. \<not> is_delete c) rest)"
proof -
  let ?N = "\<lambda>c. \<not> is_delete c"
  obtain o1 u where inst: "getMachineInstance E r s = (o1, u)" by (cases "getMachineInstance E r s")
  have "keeps (calls_in ?N) (getMachineInstance E r)"
    by (intro keeps_intros) (auto simp: is_delete_def)
  from keepsD [OF this inst] have su: "calls_in ?N s u" .
  have km: "calls_in ?N a (a\<lparr>trace := trace a @ [Metric k n ns m]\<rparr>)" for k n ns m and a :: "'x scope_world_scheme"
    by (simp add: calls_in_def is_delete_def)
  have nm: "\<not> is_delete (Metric k n ns m)" for k n ns m by (simp add: is_delete_def)
  have kd: "calls_in ?N a (a\<lparr>dhcpIPCacheStore := c\<rparr>)" for c and a :: "'x scope_world_scheme"
    by (simp add: calls_in_def)
  show ?thesis
  proof (cases "\<exists>io. o1 = Val (Inr io)")
    case False
    have "calls_in ?N u t"
      using assms inst False
      by (auto simp: delete_def bnd_run gets_run RegisterFailed_def do_call_run cache_Delete_run fail_run ok_run
          split: run_splits intro: calls.R_refl km kd)
    with su show ?thesis by (blast intro: calls.R_trans)
  next
    case True
    then obtain io where io: "o1 = Val (Inr io)" by blast
    let ?ip = "machine_ip (machine s)"
    obtain y v where dereg: "(if ?ip \<noteq> [] then removeFromApplicationLoadBalancers E r ?ip else ok ()) u = (y, v)"
      by (cases "(if ?ip \<noteq> [] then removeFromApplicationLoadBalancers E r ?ip else ok ()) u")
    have "keeps (calls_in ?N) (if ?ip \<noteq> [] then removeFromApplicationLoadBalancers E r ?ip else ok ())"
      by (intro keeps_intros) (auto simp: is_delete_def)
    from keepsD [OF this dereg] have uv: "calls_in ?N u v" .
    then have sv: "calls_in ?N s v" using su by (blast intro: calls.R_trans)
    have eq: "machine u = machine s" using getMachineInstance_rest [OF inst] by simp
    show ?thesis
      using assms inst io dereg sv eq
      by (auto simp: delete_def bnd_run bndE_run onErr_run gets_run RegisterFailed_def do_call_run cache_Delete_run
          fail_run ok_run deref_run getMachineInternalIP_run DeleteInstance_def nm
          split: run_splits intro: calls.R_refl calls.R_trans [OF _ km])
  qed
qed

text \<open>
  C1. \<open>delete\<close> never deletes a VM whose IP may still be registered: whatever the outcome, a request to
  delete a VM is for the VM found for the machine, and it is made only after the machine's IP, if it
  has one, was deregistered from the load balancers with success.
\<close>

theorem delete_after_deregistration:
  fixes s t :: "'x scope_world_scheme"
  assumes "delete E r s = (x, t)" and "trace t = trace s @ tr" and "CallDeleteInstance sid vm \<in> set tr"
  shows "\<exists>inst u v rest. getMachineInstance E r s = (Val (Inr (Some inst)), u) \<and> PvmInstanceID inst = Some vm
    \<and> (if machine_ip (machine s) \<noteq> []
        then removeFromApplicationLoadBalancers E r (machine_ip (machine s)) u = (Val (Inr ()), v) else v = u)
    \<and> trace t = trace v @ CallDeleteInstance sid vm # rest"
proof -
  have drop: "CallDeleteInstance sid vm \<notin> set tr'" if "list_all (\<lambda>c. \<not> is_delete c) tr'" for tr'
    using that by (auto simp: list_all_iff is_delete_def)
  from assms drop obtain inst u v vm' sid' rest where 1: "getMachineInstance E r s = (Val (Inr (Some inst)), u)"
      "PvmInstanceID inst = Some vm'" "if machine_ip (machine s) \<noteq> []
        then removeFromApplicationLoadBalancers E r (machine_ip (machine s)) u = (Val (Inr ()), v) else v = u"
    and sv: "calls_in (\<lambda>c. \<not> is_delete c) s v"
    and t: "trace t = trace v @ CallDeleteInstance sid' vm' # rest" "list_all (\<lambda>c. \<not> is_delete c) rest"
    using delete_delete_cases [OF assms(1)] by (fastforce simp: calls_in_def)
  from sv t assms(2,3) drop have "sid' = sid \<and> vm' = vm" by (auto simp: calls_in_def)
  with 1 t show ?thesis by blast
qed

text \<open>A machine with an IP behind a load balancer, for the examples.\<close>

definition demo_lb_world :: scope_world where
  "demo_lb_world = demo_scope_world\<lparr>machine := demo_machine\<lparr>m_Status := (m_Status demo_machine)\<lparr>Addresses :=
     [\<lparr>addr_Type = NodeInternalDNS, addr_Address = ''vm-0''\<rparr>, \<lparr>addr_Type = NodeInternalIP, addr_Address = ''10.0.0.9''\<rparr>]\<rparr>\<rparr>,
     dhcpIPCacheStore := [''vm-0'' \<mapsto> \<lparr>te_Obj = \<lparr>vm_name = ''vm-0'', vm_ip = ''10.0.0.9''\<rparr>, te_Timestamp = 0\<rparr>]\<rparr>"

definition demo_lb_scope :: machineScope where
  "demo_lb_scope = demo_scope\<lparr>providerSpec := Some (demo_config\<lparr>SpecLoadBalancers :=
     [\<lparr>lbr_Name = ''api'', lbr_Type = ''Application''\<rparr>]\<rparr>)\<rparr>"

lemma demo_getMachineInstance:
  "\<exists>u. getMachineInstance demo_lb_env demo_lb_scope demo_lb_world = (Val (Inr (Some (demo_vm ''ACTIVE''))), u)"
  by (simp add: getMachineInstance_def GetInstanceByName_def client_calls prog_simps Let_def demo_lb_world_def
      demo_lb_scope_def demo_scope_world_def demo_scope_def demo_lb_env_def demo_defs)

lemma demo_delete:
  "\<exists>t. delete demo_lb_env demo_lb_scope demo_lb_world = (Val (Inr ()), t)
     \<and> CallDeletePoolMember ''lb-1'' ''p-1'' ''m-0'' \<in> set (trace t) \<and> CallDeleteInstance ''S'' ''id-0'' \<in> set (trace t)"
  by (simp add: delete_def getMachineInstance_def GetInstanceByName_def getMachineInternalIP_run machine_ip_def
      removeFromApplicationLoadBalancers_def deregisterNetworkLoadBalancers_def applicationLoadBalancerNames_def
      getLoadBalancers_def PagingHelper_def with_list_def lb_page_run add_lb_def deleteLoadBalancerPoolMember_def
      each_pool_def deregister_pool_def deregister_member_def loadBalancerActiveState_def range_order_def
      cache_Delete_run client_calls prog_simps Let_def eval_nat_numeral
      demo_lb_world_def demo_lb_scope_def demo_scope_world_def demo_scope_def demo_lb_env_def demo_lb_def demo_defs)

theorem delete_success_witness:
  "\<exists>t. delete demo_lb_env demo_lb_scope demo_lb_world = (Val (Inr ()), t) \<and> dhcpIPCacheStore t ''vm-0'' = None
     \<and> last (trace t) = CallDeleteInstance ''S'' ''id-0''"
proof -
  obtain t where run: "delete demo_lb_env demo_lb_scope demo_lb_world = (Val (Inr ()), t)"
    using demo_delete by blast
  have demo: "m_Name (machine demo_lb_world) = ''vm-0''" "PvmInstanceID (demo_vm ''ACTIVE'') = Some ''id-0''"
      "cl_InstanceID (powerVSClient_of demo_lb_scope) = Some ''S''"
    by (simp_all add: demo_lb_world_def demo_machine_def demo_vm_def demo_lb_scope_def demo_scope_def)
  from delete_success [OF run] run demo demo_getMachineInstance show ?thesis by auto
qed

theorem delete_after_deregistration_witness:
  "\<exists>t u v. delete demo_lb_env demo_lb_scope demo_lb_world = (Val (Inr ()), t)
     \<and> CallDeleteInstance ''S'' ''id-0'' \<in> set (trace t)
     \<and> removeFromApplicationLoadBalancers demo_lb_env demo_lb_scope ''10.0.0.9'' (u :: scope_world) = (Val (Inr ()), v)"
proof -
  obtain t where run: "delete demo_lb_env demo_lb_scope demo_lb_world = (Val (Inr ()), t)"
      and del: "CallDeleteInstance ''S'' ''id-0'' \<in> set (trace t)"
    using demo_delete by blast
  have app: "trace t = trace demo_lb_world @ trace t" and ip: "machine_ip (machine demo_lb_world) = ''10.0.0.9''"
    by (simp_all add: demo_lb_world_def demo_scope_world_def demo_machine_def machine_ip_def)
  from delete_after_deregistration [OF run app del] run del show ?thesis unfolding ip by auto
qed

section \<open>Updating\<close>

text \<open>Setting addresses changes the addresses of the machine and the cache, nothing else.\<close>

definition only_addresses :: "'x scope_world_scheme \<Rightarrow> 'x scope_world_scheme \<Rightarrow> bool" where
  "only_addresses s t \<longleftrightarrow> providerStatus t = providerStatus s \<and>
     (\<exists>addrs. machine t = (machine s)\<lparr>m_Status := (m_Status (machine s))\<lparr>Addresses := addrs\<rparr>\<rparr>)"

lemma only_addressesI:
  fixes s t :: "'x scope_world_scheme"
  assumes "machine t = machine s" "providerStatus t = providerStatus s"
  shows "only_addresses s t"
  unfolding only_addresses_def assms
  by (intro conjI refl exI [of _ "Addresses (m_Status (machine s))"]) (cases "machine s", simp)

interpretation addr: world_inv only_addresses "\<lambda>_. True"
proof
  fix s t u :: "'x scope_world_scheme" and c e
  show "only_addresses s s" "only_addresses s (s\<lparr>trace := trace s @ [c]\<rparr>)" "only_addresses s (s\<lparr>osenv := e\<rparr>)"
    by (simp_all add: only_addressesI)
  assume "only_addresses s t" "only_addresses t u"
  then show "only_addresses s u" by (auto simp: only_addresses_def)
qed

lemma addr_setMachineAddresses: "keeps only_addresses (setMachineAddresses E r inst)"
proof -
  have set: "keeps only_addresses (set_addresses addrs)" for addrs
    by (auto simp: keeps_def set_addresses_def modify_run only_addresses_def)
  have cache: "keeps only_addresses (cache_GetByKey E k)" "keeps only_addresses (cache_Add E v)" for k v
    by (auto simp: keeps_def cache_GetByKey_run cache_Add_run Let_def split: option.split intro!: only_addressesI)
  show ?thesis
    unfolding setMachineAddresses_def dhcp_lease_ip_def
    by (intro keeps_intros TrueI set cache)
qed

lemma setProviderID_ok:
  assumes "setProviderID E r (Some i) s = (Val (Inr ()), t)"
  shows "\<exists>status sid vm. ProviderStatusFromRawExtension E (ProviderStatus (m_Status (machine s))) = Inr status
    \<and> ServiceInstanceID status = Some sid \<and> PvmInstanceID i = Some vm
    \<and> machine t = (machine s)\<lparr>m_ProviderID := Some (FormatProviderID (cl_region (powerVSClient_of r))
         (cl_zone (powerVSClient_of r)) sid vm)\<rparr>
    \<and> providerStatus t = providerStatus s"
proof -
  have same: "m\<lparr>m_ProviderID := Some p\<rparr> = m" if "m_ProviderID m = Some p" for m :: Machine and p
    using that by (cases m) simp
  show ?thesis
    using assms
    by (auto simp: setProviderID_def GetRegion_def GetZone_def prog_simps Let_def same split: run_splits)
qed

lemma setMachineCloudProviderSpecifics_ok:
  assumes "setMachineCloudProviderSpecifics r (Some i) s = (Val (Inr ()), t)"
  shows "machine t = (machine s)\<lparr>
      m_SpecLabels := Some (made (m_SpecLabels (machine s))),
      m_Annotations := Some (case InstanceStatus i of None \<Rightarrow> made (m_Annotations (machine s))
        | Some st \<Rightarrow> (made (m_Annotations (machine s)))(''machine.openshift.io/instance-state'' \<mapsto> st)),
      m_Labels := Some (put_if (SysType i \<noteq> []) ''machine.openshift.io/instance-type'' (SysType i)
        (put_if (cl_zone (powerVSClient_of r) \<noteq> []) ''machine.openshift.io/zone'' (cl_zone (powerVSClient_of r))
          (put_if (cl_region (powerVSClient_of r) \<noteq> []) ''machine.openshift.io/region'' (cl_region (powerVSClient_of r))
            (made (m_Labels (machine s))))))\<rparr>
    \<and> providerStatus t = providerStatus s"
  using assms
  by (auto simp: setMachineCloudProviderSpecifics_def GetRegion_def GetZone_def prog_simps Let_def)

lemma setProviderStatus_success:
  assumes "setProviderStatus E (Some inst) conditionSuccess s = (Val (), t)"
  shows "machine t = machine s \<and> InstanceID (providerStatus t) = PvmInstanceID inst
    \<and> InstanceState (providerStatus t) = InstanceStatus inst
    \<and> (\<exists>x. condition_of (Conditions (providerStatus t)) ''MachineCreation'' = Some x
         \<and> cond_Reason x = ''MachineCreationSucceeded'')"
proof -
  have merged: "cond_Reason (merged_condition c old now later) = cond_Reason c" for c old now later
    by (auto simp: merged_condition_def shouldUpdateCondition_def split: option.split)
  obtain cs t' where run: "setProviderStatus E (Some inst) conditionSuccess s = (Val (), t')"
      and ps: "providerStatus t' = (providerStatus s)\<lparr>InstanceID := Option.bind (Some inst) PvmInstanceID,
       InstanceState := Option.bind (Some inst) InstanceStatus, Conditions := cs\<rparr>"
      and cs: "condition_of cs = (condition_of (Conditions (providerStatus s)))(cond_Type conditionSuccess \<mapsto>
       merged_condition conditionSuccess (condition_of (Conditions (providerStatus s)) (cond_Type conditionSuccess))
         (e_Now E (trace s)) (e_Now E (trace s @ [TimeNow])))"
      and m: "machine t' = machine s"
    by (rule setProviderStatus_run [of E "Some inst" conditionSuccess s])
  have "cond_Type conditionSuccess = ''MachineCreation''" "cond_Reason conditionSuccess = ''MachineCreationSucceeded''"
    by (simp_all add: conditionSuccess_def MachineCreation_def)
  with run ps cs m assms merged show ?thesis by auto
qed

lemma updateLoadBalancers_rest:
  fixes s u :: "'x scope_world_scheme"
  assumes "updateLoadBalancers E r ip s = (x, u)"
  shows "machine u = machine s" "providerStatus u = providerStatus s"
  using keepsD [OF keeps_updateLoadBalancers(2) [where P = "\<lambda>_. True"] assms]
  by (simp_all add: same_rest_scope)

text \<open>The steps of a successful update, in order.\<close>

lemma update_steps:
  assumes "update E r s = (Val (Inr ()), t)"
  obtains inst a b c d e o1 where
    "validateMachine (machine s) = Inr ()" "getMachineInstance E r s = (Val (Inr (Some inst)), a)"
    "setProviderID E r (Some inst) a = (Val (Inr ()), b)"
    "setMachineCloudProviderSpecifics r (Some inst) b = (Val (Inr ()), c)"
    "setProviderStatus E (Some inst) conditionSuccess c = (Val (), d)"
    "setMachineAddresses E r (Some inst) d = (Val o1, e)"
    "(if machine_ip (machine e) \<noteq> [] then updateLoadBalancers E r (machine_ip (machine e)) e = (Val (Inr ()), t)
      else t = e)"
    "InstanceStatus inst \<noteq> Some ''BUILD''"
proof -
  have req: "requeueIfInstanceBuilding E i u = (Val (Inr ()), t) \<Longrightarrow>
      \<exists>j. i = Some j \<and> InstanceStatus j \<noteq> Some ''BUILD'' \<and> t = u" for i u
    by (auto simp: requeueIfInstanceBuilding_def bnd_run deref_run ok_run fail_run InstanceStateNameBuild_def
        split: run_splits)
  have lbs: "(if p then onErr m (\<lambda>err. bnd (RegisterFailed k n ns (f err)) (\<lambda>_. fail (g err))) else ok ()) u = (Val (Inr ()), v)
      \<Longrightarrow> (if p then m u = (Val (Inr ()), v) else v = u)" for p k n ns f g u v and m :: "('a scope_world_scheme, unit) errprog"
    by (auto simp: onErr_run bnd_run RegisterFailed_def do_call_run fail_run ok_run split: run_splits)
  have get: "onErr m (\<lambda>err. bnd (RegisterFailed k n ns z) (\<lambda>_. fail err)) u = (Val (Inr i), v) \<Longrightarrow> m u = (Val (Inr i), v)"
    for k n ns z i u v and m :: "('a scope_world_scheme, PVMInstance option) errprog"
    by (auto simp: onErr_run bnd_run RegisterFailed_def do_call_run fail_run ok_run split: run_splits)
  from assms obtain i a b c d e f o1 where v: "validateMachine (machine s) = Inr ()"
    and 1: "getMachineInstance E r s = (Val (Inr i), a)" "setProviderID E r i a = (Val (Inr ()), b)"
    "setMachineCloudProviderSpecifics r i b = (Val (Inr ()), c)"
    "setProviderStatus E i conditionSuccess c = (Val (), d)" "setMachineAddresses E r i d = (Val o1, e)"
    and 2: "(if machine_ip (machine e) \<noteq> [] then updateLoadBalancers E r (machine_ip (machine e)) e = (Val (Inr ()), f)
      else f = e)" "requeueIfInstanceBuilding E i f = (Val (Inr ()), t)"
    by (auto simp: update_def gets_run fail_run getMachineInternalIP_run split: sum.splits
        elim!: bnd_ValE bndE_okE dest!: get lbs simp del: if_split)
  from req [OF 2(2)] obtain j where "i = Some j" "InstanceStatus j \<noteq> Some ''BUILD''" "t = f" by blast
  with that v 1 2(1) show thesis by blast
qed

text \<open>
  C7. When \<open>update\<close> succeeds, the machine is valid, its VM was found and is not being built, and the
  machine and its status reflect the VM: the provider ID is that of the VM in the service instance of
  the machine's stored status, the status has the VM's ID and state and the condition of success, the
  region label and the state annotation are set, and if the machine has an internal IP, it was
  registered with the load balancers with success.
\<close>

theorem update_success:
  fixes s t :: "'x scope_world_scheme"
  assumes "update E r s = (Val (Inr ()), t)"
  shows "\<exists>inst vm status sid a e. validateMachine (machine s) = Inr ()
    \<and> getMachineInstance E r s = (Val (Inr (Some inst)), a)
    \<and> PvmInstanceID inst = Some vm \<and> InstanceStatus inst \<noteq> Some ''BUILD''
    \<and> ProviderStatusFromRawExtension E (ProviderStatus (m_Status (machine s))) = Inr status
    \<and> ServiceInstanceID status = Some sid
    \<and> m_ProviderID (machine t) = Some (FormatProviderID (cl_region (powerVSClient_of r)) (cl_zone (powerVSClient_of r)) sid vm)
    \<and> InstanceID (providerStatus t) = Some vm \<and> InstanceState (providerStatus t) = InstanceStatus inst
    \<and> (\<exists>d. condition_of (Conditions (providerStatus t)) ''MachineCreation'' = Some d
         \<and> cond_Reason d = ''MachineCreationSucceeded'')
    \<and> (\<forall>st. InstanceStatus inst = Some st \<longrightarrow>
         lookup_label (m_Annotations (machine t)) ''machine.openshift.io/instance-state'' = Some st)
    \<and> (cl_region (powerVSClient_of r) \<noteq> [] \<longrightarrow>
         lookup_label (m_Labels (machine t)) ''machine.openshift.io/region'' = Some (cl_region (powerVSClient_of r)))
    \<and> (machine_ip (machine t) \<noteq> [] \<longrightarrow>
         updateLoadBalancers E r (machine_ip (machine t)) e = (Val (Inr ()), t))"
proof -
  from assms obtain inst a b c d e o1 where v: "validateMachine (machine s) = Inr ()"
    and get: "getMachineInstance E r s = (Val (Inr (Some inst)), a)"
    and pid: "setProviderID E r (Some inst) a = (Val (Inr ()), b)"
    and spec: "setMachineCloudProviderSpecifics r (Some inst) b = (Val (Inr ()), c)"
    and stat: "setProviderStatus E (Some inst) conditionSuccess c = (Val (), d)"
    and addr: "setMachineAddresses E r (Some inst) d = (Val o1, e)"
    and lbs: "if machine_ip (machine e) \<noteq> [] then updateLoadBalancers E r (machine_ip (machine e)) e = (Val (Inr ()), t)
      else t = e"
    and nb: "InstanceStatus inst \<noteq> Some ''BUILD''"
    by (rule update_steps)
  have a: "machine a = machine s" using getMachineInstance_rest [OF get] by simp
  from setProviderID_ok [OF pid] a obtain status sid vm where
    b: "ProviderStatusFromRawExtension E (ProviderStatus (m_Status (machine s))) = Inr status"
      "ServiceInstanceID status = Some sid" "PvmInstanceID inst = Some vm"
      "m_ProviderID (machine b) = Some (FormatProviderID (cl_region (powerVSClient_of r)) (cl_zone (powerVSClient_of r)) sid vm)"
    by auto
  note c = setMachineCloudProviderSpecifics_ok [OF spec]
  have d: "machine d = machine c" "InstanceID (providerStatus d) = Some vm"
      "InstanceState (providerStatus d) = InstanceStatus inst"
      "\<exists>x. condition_of (Conditions (providerStatus d)) ''MachineCreation'' = Some x
         \<and> cond_Reason x = ''MachineCreationSucceeded''"
    using setProviderStatus_success [OF stat] b(3) by auto
  from keepsD [OF addr_setMachineAddresses addr] have e: "providerStatus e = providerStatus d"
      "m_ProviderID (machine e) = m_ProviderID (machine d)" "m_Annotations (machine e) = m_Annotations (machine d)"
      "m_Labels (machine e) = m_Labels (machine d)"
    by (auto simp: only_addresses_def)
  have t: "machine t = machine e" "providerStatus t = providerStatus e"
    using lbs updateLoadBalancers_rest by (metis (full_types))+
  have annot: "\<forall>st. InstanceStatus inst = Some st \<longrightarrow>
      lookup_label (m_Annotations (machine t)) ''machine.openshift.io/instance-state'' = Some st"
    using c d(1) e t by (simp add: lookup_label_def)
  have region: "cl_region (powerVSClient_of r) \<noteq> [] \<longrightarrow>
      lookup_label (m_Labels (machine t)) ''machine.openshift.io/region'' = Some (cl_region (powerVSClient_of r))"
    using c d(1) e t by (simp add: lookup_label_def put_if_def)
  have pid_t: "m_ProviderID (machine t) = Some (FormatProviderID (cl_region (powerVSClient_of r))
      (cl_zone (powerVSClient_of r)) sid vm)"
    using b(4) c d(1) e t by simp
  have status_t: "InstanceID (providerStatus t) = Some vm" "InstanceState (providerStatus t) = InstanceStatus inst"
      "\<exists>x. condition_of (Conditions (providerStatus t)) ''MachineCreation'' = Some x
         \<and> cond_Reason x = ''MachineCreationSucceeded''"
    using d(2-4) e(1) t by simp_all
  have lb_t: "machine_ip (machine t) \<noteq> [] \<longrightarrow> updateLoadBalancers E r (machine_ip (machine t)) e = (Val (Inr ()), t)"
    using lbs t by (auto split: if_splits)
  obtain x where x: "condition_of (Conditions (providerStatus t)) ''MachineCreation'' = Some x"
      "cond_Reason x = ''MachineCreationSucceeded''"
    using status_t(3) by blast
  show ?thesis
    using v get b(3) nb b(1,2) pid_t status_t(1,2) x annot region lb_t by (intro exI conjI)
qed

lemma demo_update:
  "\<exists>t. update demo_lb_env demo_lb_scope demo_lb_world = (Val (Inr ()), t)"
  by (simp add: update_def validateMachine_def lookup_label_def getMachineInstance_def GetInstanceByName_def
      setProviderID_def ProviderStatusFromRawExtension_def FormatProviderID_def GetRegion_def GetZone_def
      setMachineCloudProviderSpecifics_def setProviderStatus_def setPowerVSMachineProviderCondition_def
      setMachineAddresses_def set_addresses_def cache_GetByKey_run CacheTTL_def Now_def getMachineInternalIP_run
      machine_ip_def updateLoadBalancers_def registerWithApplicationLoadBalancers_def
      applicationLoadBalancerNames_def getLoadBalancers_def PagingHelper_def with_list_def lb_page_run add_lb_def
      createLoadBalancerPoolMember_def each_pool_def register_pool_def scan_member_def loadBalancerActiveState_def
      range_order_def requeueIfInstanceBuilding_def InstanceStateNameBuild_def client_calls prog_simps Let_def
      eval_nat_numeral demo_lb_world_def demo_lb_scope_def demo_scope_world_def demo_scope_def demo_lb_env_def
      demo_lb_def demo_defs)

theorem update_success_witness:
  "\<exists>t. update demo_lb_env demo_lb_scope demo_lb_world = (Val (Inr ()), t)
     \<and> m_ProviderID (machine t) = Some ''ibmpowervs://dal/dal12/S/id-0''
     \<and> InstanceID (providerStatus t) = Some ''id-0''"
proof -
  obtain t where run: "update demo_lb_env demo_lb_scope demo_lb_world = (Val (Inr ()), t)"
    using demo_update by blast
  have demo: "PvmInstanceID (demo_vm ''ACTIVE'') = Some ''id-0''"
      "cl_region (powerVSClient_of demo_lb_scope) = ''dal''" "cl_zone (powerVSClient_of demo_lb_scope) = ''dal12''"
    by (simp_all add: demo_vm_def demo_lb_scope_def demo_scope_def)
  have status: "ProviderStatusFromRawExtension demo_lb_env (ProviderStatus (m_Status (machine demo_lb_world)))
      = Inr (zero_status\<lparr>ServiceInstanceID := Some ''S''\<rparr>)"
    by (simp add: ProviderStatusFromRawExtension_def demo_lb_world_def demo_machine_def demo_lb_env_def demo_env_def)
  from update_success [OF run] run demo status demo_getMachineInstance show ?thesis
    by (auto simp: FormatProviderID_def)
qed

section \<open>Existence\<close>

text \<open>
  C9. What \<open>exists\<close> answers: true only if the VM was found; false only if the lookup found none and the
  machine never had a provider ID or was last updated at least 20 seconds before, so that a VM that
  does not show yet is not taken for gone. The machine, its status and the cache stay as they are.
\<close>

theorem exists_answer:
  fixes s t :: "'x scope_world_scheme"
  assumes "exists_op E r s = (Val (Inr b), t)"
  shows "machine t = machine s \<and> providerStatus t = providerStatus s \<and> dhcpIPCacheStore t = dhcpIPCacheStore s \<and>
    (\<exists>u. if b then \<exists>inst. getMachineInstance E r s = (Val (Inr (Some inst)), u)
     else (getMachineInstance E r s = (Val (Inl ErrorInstanceNotFound), u) \<or> getMachineInstance E r s = (Val (Inr None), u))
       \<and> (m_ProviderID (machine s) \<in> {None, Some []}
          \<or> (\<exists>lu. LastUpdated (m_Status (machine s)) = Some lu \<and> lu + 20 * 10 ^ 9 \<le> e_Now E (trace u))))"
proof -
  obtain o1 u where inst: "getMachineInstance E r s = (o1, u)" by (cases "getMachineInstance E r s")
  show ?thesis
    using assms inst getMachineInstance_rest [OF inst]
    by (auto simp: exists_op_def bnd_run gets_run ok_run fail_run ret_run Now_def RegisterFailed_def do_call_run
        requeueAfterSeconds_def Let_def split: run_splits)
qed

theorem exists_answer_witness:
  "\<exists>t u inst. exists_op (demo_env ''ACTIVE'') demo_scope demo_scope_world = (Val (Inr True), t)
     \<and> getMachineInstance (demo_env ''ACTIVE'') demo_scope demo_scope_world = (Val (Inr (Some inst)), u)"
proof -
  obtain t where run: "exists_op (demo_env ''ACTIVE'') demo_scope demo_scope_world = (Val (Inr True), t)"
    by (simp add: exists_op_def getMachineInstance_def GetInstanceByName_def client_calls prog_simps Let_def
        demo_scope_world_def demo_scope_def demo_defs)
  from exists_answer [OF run] run show ?thesis by auto
qed

section \<open>Addresses\<close>

lemma dhcp_lease_ip_rest:
  fixes s u :: "'x scope_world_scheme"
  assumes "dhcp_lease_ip E r server nets s = (x, u)"
  shows "machine u = machine s" "providerStatus u = providerStatus s" "dhcpIPCacheStore u = dhcpIPCacheStore s"
proof -
  have "keeps same_rest (dhcp_lease_ip E r server nets)"
    unfolding dhcp_lease_ip_def by (intro keeps_intros TrueI)
  from keepsD [OF this assms] show "machine u = machine s" "providerStatus u = providerStatus s"
    "dhcpIPCacheStore u = dhcpIPCacheStore s" by (simp_all add: same_rest_scope)
qed

text \<open>
  C31. When setting the addresses of a VM succeeds, the machine's first address is the VM's name as
  internal DNS name. If the VM's networks have addresses, exactly those follow, without any call.
  Otherwise one internal IP follows: the one cached for the VM less than 20 minutes ago, or else the
  one of its DHCP lease, which is then cached under the VM's name.
\<close>

theorem setMachineAddresses_sources:
  fixes s t :: "'x scope_world_scheme"
  assumes "setMachineAddresses E r (Some i) s = (Val (Inr ()), t)"
  shows "\<exists>server rest. ServerName i = Some server
    \<and> Addresses (m_Status (machine t)) = \<lparr>addr_Type = NodeInternalDNS, addr_Address = server\<rparr> # rest
    \<and> (if concat (map network_addresses (Networks i)) \<noteq> []
       then rest = concat (map network_addresses (Networks i)) \<and> trace t = trace s
       else \<exists>ip. rest = [\<lparr>addr_Type = NodeInternalIP, addr_Address = ip\<rparr>]
         \<and> ((\<exists>e. dhcpIPCacheStore s server = Some e \<and> vm_ip (te_Obj e) = ip
               \<and> e_Now E (trace s) - te_Timestamp e \<le> CacheTTL \<and> trace t = trace s @ [TimeNow])
            \<or> (\<exists>u v. dhcp_lease_ip E r server (Networks i) (u :: 'x scope_world_scheme) = (Val (Inr ip), v)
               \<and> map_option te_Obj (dhcpIPCacheStore t server) = Some \<lparr>vm_name = server, vm_ip = ip\<rparr>)))"
  using assms
  by (auto simp: setMachineAddresses_def set_addresses_def bnd_run bndE_run deref_run modify_run ok_run
      cache_GetByKey_run cache_Add_run Let_def split: run_splits) blast+

theorem setMachineAddresses_sources_witness:
  "\<exists>t. setMachineAddresses demo_lb_env demo_lb_scope (Some (demo_vm ''ACTIVE'')) demo_lb_world = (Val (Inr ()), t)
     \<and> tl (Addresses (m_Status (machine t))) = [\<lparr>addr_Type = NodeInternalIP, addr_Address = ''10.0.0.9''\<rparr>]"
proof -
  obtain t where run: "setMachineAddresses demo_lb_env demo_lb_scope (Some (demo_vm ''ACTIVE'')) demo_lb_world
      = (Val (Inr ()), t)" and tr: "trace t = [TimeNow]"
      and cached: "dhcpIPCacheStore t ''vm-0'' = dhcpIPCacheStore demo_lb_world ''vm-0''"
    by (simp add: setMachineAddresses_def set_addresses_def prog_simps cache_GetByKey_run CacheTTL_def Let_def
        demo_lb_world_def demo_scope_world_def demo_lb_env_def demo_defs)
  have "ServerName (demo_vm ''ACTIVE'') = Some ''vm-0''" "Networks (demo_vm ''ACTIVE'') = []"
      "map_option te_Obj (dhcpIPCacheStore demo_lb_world ''vm-0'') = Some \<lparr>vm_name = ''vm-0'', vm_ip = ''10.0.0.9''\<rparr>"
    by (simp_all add: demo_vm_def demo_lb_world_def)
  with setMachineAddresses_sources [OF run] run cached show ?thesis by auto
qed

lemma dhcp_server_found:
  "findP (\<lambda>sv. bnd (deref (dhcp_Network sv)) (\<lambda>n. bnd (deref n) (\<lambda>ident. ret (ident = nid)))) servers s
     = (Val (Some sv), t) \<Longrightarrow> t = s \<and> sv \<in> set servers \<and> dhcp_Network sv = Some (Some nid)"
  by (drule findP_found, intro keeps_intros) (auto simp: bnd_run deref_run ret_run split: option.splits)

text \<open>
  An IP read from a DHCP server is the IP of the first lease there for the MAC address the VM has
  on its network: the network is the one the provider spec resolves to, the VM is attached to it, and
  the server is the first one of that network.
\<close>

lemma dhcp_lease_ip_of_vm:
  assumes "dhcp_lease_ip E r server nets s = (Val (Inr ip), t)"
  shows "\<exists>spec nid net sv ident d lease u v w servers.
     providerSpec r = Some spec \<and> getNetworkID E (powerVSClient_of r) (Network spec) s = (Val (Inr nid), u)
   \<and> net \<in> set nets \<and> net_NetworkID net = nid
   \<and> GetDHCPServers E (powerVSClient_of r) u = (Val (Inr servers), v)
   \<and> sv \<in> set servers \<and> dhcp_Network sv = Some (Some nid) \<and> dhcp_ID sv = Some ident
   \<and> GetDHCPServerByID E (powerVSClient_of r) ident v = (Val (Inr (Some d)), w) \<and> t = w
   \<and> lease \<in> set (Leases d) \<and> InstanceMacAddress lease = Some (net_MacAddress net) \<and> InstanceIP lease = Some ip"
proof -
  have net: "List.find (\<lambda>n. net_NetworkID n = nid) (rev nets) = Some net \<Longrightarrow>
      net \<in> set nets \<and> net_NetworkID net = nid" for nid net
    using find_SomeD [of _ "rev nets"] by fastforce
  show ?thesis
    using assms
    by (auto simp: dhcp_lease_ip_def gets_run fail_run ok_run split: option.splits sum.splits
        elim!: bnd_ValE bndE_okE dest!: dhcp_server_found findP_deref_found net) blast
qed

definition demo_dhcp_env :: env where
  "demo_dhcp_env = (demo_env ''ACTIVE'')\<lparr>
     e_GetDHCPServers := \<lambda>_ _. Inr [\<lparr>dhcp_ID = Some ''d-1'', dhcp_Network = Some (Some ''n-1'')\<rparr>],
     e_GetDHCPServer := \<lambda>_ _ i. Inr (Some \<lparr>detail_ID = Some i,
       Leases = [\<lparr>InstanceIP = Some ''10.0.0.1'', InstanceMacAddress = Some ''aa''\<rparr>,
                 \<lparr>InstanceIP = Some ''10.0.0.2'', InstanceMacAddress = Some ''bb''\<rparr>]\<rparr>)\<rparr>"

end
