(* ===== verification/Actuator.thy ===== *)
theory Actuator
  imports Reconciler
begin

text \<open>
  \<open>pkg/actuators/machine/actuator.go\<close>: the four operations the machine controller calls. Each builds
  a scope for the machine of the state, runs the reconciler's operation in it, patches the machine and
  records an event. The machine is the object the controller passed, which is changed in place.
\<close>

section \<open>Definitions\<close>

definition handleMachineError :: "goerr \<Rightarrow> string \<Rightarrow> ('x scope_world_scheme, 'a) errprog" where
  "handleMachineError err eventAction =
     bnd (if eventAction \<noteq> [] then emit_event ''Warning'' (''Failed'' @ eventAction) (Error err) else ret ())
       (\<lambda>_. fail err)"

definition scopeFail :: "Machine \<Rightarrow> goerr \<Rightarrow> goerr" where
  "scopeFail m err = Errorf_w (m_Name m @ '': failed to create scope for machine: '') err"

definition reconcilerFail :: "Machine \<Rightarrow> string \<Rightarrow> goerr \<Rightarrow> goerr" where
  "reconcilerFail m action err =
     Errorf_w (m_Name m @ '': reconciler failed to '' @ action @ '' machine: '') err"

text \<open>What the three operations that change things do when the reconciler has failed.\<close>

definition patchAndFail :: "env \<Rightarrow> machineScope \<Rightarrow> string \<Rightarrow> goerr \<Rightarrow> ('x scope_world_scheme, unit) errprog" where
  "patchAndFail E scope action err =
     bndE (patchMachine E scope) (\<lambda>_.
     bnd (gets machine) (\<lambda>m. handleMachineError (reconcilerFail m action err) action))"

definition Create :: "env \<Rightarrow> ('x scope_world_scheme, unit) errprog" where
  "Create E =
     bnd (newMachineScope E) (\<lambda>sc.
       case sc of
         Inl err \<Rightarrow> bnd (gets machine) (\<lambda>m. handleMachineError (scopeFail m err) ''Create'')
       | Inr scope \<Rightarrow>
           bnd (create E scope) (\<lambda>res.
             case res of
               Inl err \<Rightarrow> patchAndFail E scope ''Create'' err
             | Inr _ \<Rightarrow>
                 bnd (gets machine) (\<lambda>m.
                 bnd (emit_event ''Normal'' ''Create'' (''Created Machine '' @ m_Name m)) (\<lambda>_.
                   patchMachine E scope))))"

definition Exists :: "env \<Rightarrow> ('x scope_world_scheme, bool) errprog" where
  "Exists E =
     bnd (newMachineScope E) (\<lambda>sc.
       case sc of
         Inl err \<Rightarrow> bnd (gets machine) (\<lambda>m. fail (scopeFail m err))
       | Inr scope \<Rightarrow> exists_op E scope)"

definition Update :: "env \<Rightarrow> ('x scope_world_scheme, unit) errprog" where
  "Update E =
     bnd (newMachineScope E) (\<lambda>sc.
       case sc of
         Inl err \<Rightarrow> bnd (gets machine) (\<lambda>m. handleMachineError (scopeFail m err) ''Update'')
       | Inr scope \<Rightarrow>
           bnd (update E scope) (\<lambda>res.
             case res of
               Inl err \<Rightarrow> patchAndFail E scope ''Update'' err
             | Inr _ \<Rightarrow>
                 bnd (gets (\<lambda>s. m_ResourceVersion (machine s))) (\<lambda>previousResourceVersion.
                 bndE (patchMachine E scope) (\<lambda>_.
                 bnd (gets machine) (\<lambda>m.
                   if previousResourceVersion \<noteq> m_ResourceVersion m
                   then bnd (emit_event ''Normal'' ''Update'' (''Updated Machine '' @ m_Name m)) ok
                   else ok ())))))"

definition Delete :: "env \<Rightarrow> ('x scope_world_scheme, unit) errprog" where
  "Delete E =
     bnd (newMachineScope E) (\<lambda>sc.
       case sc of
         Inl err \<Rightarrow> bnd (gets machine) (\<lambda>m. handleMachineError (scopeFail m err) ''Delete'')
       | Inr scope \<Rightarrow>
           bnd (delete E scope) (\<lambda>res.
             case res of
               Inl err \<Rightarrow> patchAndFail E scope ''Delete'' err
             | Inr _ \<Rightarrow>
                 bnd (gets machine) (\<lambda>m.
                 bnd (emit_event ''Normal'' ''Delete'' (''Deleted machine '' @ m_Name m)) (\<lambda>_.
                   patchMachine E scope))))"

section \<open>Which calls the operations make\<close>

lemma keeps_emit_event [keeps_intros]: "P (Eventf ty r m) \<Longrightarrow> keeps (calls_in P) (emit_event ty r m)"
  unfolding emit_event_def by (intro keeps_intros)

lemma keeps_handleMachineError [keeps_intros]:
  "(\<And>r m. P (Eventf ''Warning'' r m)) \<Longrightarrow> keeps (calls_in P) (handleMachineError err action)"
  unfolding handleMachineError_def by (intro keeps_intros)

lemma keeps_patchAndFail [keeps_intros]:
  assumes "\<And>m b. P (KubePatchMachine m b)" "\<And>m b. P (KubePatchMachineStatus m b)" "\<And>r m. P (Eventf ''Warning'' r m)"
  shows "keeps (calls_in P) (patchAndFail E scope action err)"
  unfolding patchAndFail_def by (intro keeps_intros assms)

fun report_call :: "call \<Rightarrow> bool" where
  "report_call (KubePatchMachine _ _) = True"
| "report_call (KubePatchMachineStatus _ _) = True"
| "report_call (Eventf _ _ _) = True"
| "report_call _ = False"

lemma keeps_Exists: "(\<And>c. setup_call c \<or> exists_call c \<Longrightarrow> P c) \<Longrightarrow> keeps (calls_in P) (Exists E)"
  unfolding Exists_def by (intro keeps_intros) blast+

lemma keeps_actions:
  assumes "\<And>c. setup_call c \<or> report_call c \<Longrightarrow> P c"
  shows "(\<And>c. create_call c \<Longrightarrow> P c) \<Longrightarrow> keeps (calls_in P) (Create E)"
    and "(\<And>c. update_call c \<Longrightarrow> P c) \<Longrightarrow> keeps (calls_in P) (Update E)"
    and "(\<And>c. delete_call c \<Longrightarrow> P c) \<Longrightarrow> keeps (calls_in P) (Delete E)"
  unfolding Create_def Update_def Delete_def by (intro keeps_intros; simp add: assms)+

section \<open>What the operations may change\<close>

fun kube_write :: "call \<Rightarrow> bool" where
  "kube_write (KubePatchMachine _ _) = True"
| "kube_write (KubePatchMachineStatus _ _) = True"
| "kube_write (KubePatchMachineSet _ _) = True"
| "kube_write (KubeUpdateInfrastructureStatus _) = True"
| "kube_write _ = False"

definition same_machine :: "'x scope_world_scheme \<Rightarrow> 'x scope_world_scheme \<Rightarrow> bool" where
  "same_machine s t \<longleftrightarrow> machine t = machine s \<and> dhcpIPCacheStore t = dhcpIPCacheStore s"

interpretation mach: world_inv same_machine "\<lambda>_. True"
  by unfold_locales (auto simp: same_machine_def)

lemma mach_modify_status [keeps_intros]:
  "keeps same_machine (modify (\<lambda>s. s\<lparr>providerStatus := f s\<rparr>))"
  by (simp add: keeps_def modify_run same_machine_def)

lemma mach_Exists: "keeps same_machine (Exists E)"
  unfolding Exists_def newMachineScope_def exists_op_def getMachineInstance_def Now_def RegisterFailed_def
  by (intro keeps_intros TrueI)

text \<open>
  C15. \<open>Exists\<close> only looks: whatever it returns, and even if it panics, it has changed nothing in the
  cloud, nothing in the API server and recorded no event, and the machine and the DHCP cache are as
  before.
\<close>

theorem Exists_read_only:
  fixes s t :: "'x scope_world_scheme"
  assumes "Exists E s = (x, t)"
  shows "calls_in (\<lambda>c. \<not> cloud_write c \<and> \<not> kube_write c \<and> (\<forall>ty r m. c \<noteq> Eventf ty r m)) s t
    \<and> machine t = machine s \<and> dhcpIPCacheStore t = dhcpIPCacheStore s"
proof -
  let ?P = "\<lambda>c. \<not> cloud_write c \<and> \<not> kube_write c \<and> (\<forall>ty r m. c \<noteq> Eventf ty r m)"
  have "?P c" if "setup_call c \<or> exists_call c" for c
    using that by (cases c) (auto simp: exists_call_def)
  then have "keeps (calls_in ?P) (Exists E)" by (rule keeps_Exists)
  from keepsD [OF this assms] keepsD [OF mach_Exists assms] show ?thesis
    by (auto simp: same_machine_def)
qed

theorem Exists_read_only_witness:
  "\<exists>x t. Exists (demo_env ''ACTIVE'') demo_scope_world = (x, t) \<and> machine t = demo_machine
     \<and> CallDeleteInstance ''S'' ''id-0'' \<notin> set (trace t)"
proof -
  obtain x t where run: "Exists (demo_env ''ACTIVE'') demo_scope_world = (x, t)"
    by (cases "Exists (demo_env ''ACTIVE'') demo_scope_world")
  from Exists_read_only [OF run] run show ?thesis
    by (auto simp: demo_scope_world_def calls_in_def list_all_iff)
qed

text \<open>
  C16. \<open>Update\<close> never creates or deletes a VM and never removes a member from a pool: the only requests
  that change something in the cloud are those that add a member to a load balancer pool.
\<close>

theorem Update_only_registers:
  assumes "Update E s = (x, t)"
  shows "calls_in (\<lambda>c. cloud_write c \<longrightarrow> (\<exists>lb pool port ip. c = CallCreatePoolMember lb pool port ip)) s t"
proof -
  let ?P = "\<lambda>c. cloud_write c \<longrightarrow> (\<exists>lb pool port ip. c = CallCreatePoolMember lb pool port ip)"
  have "?P c" if "setup_call c \<or> report_call c" for c using that by (cases c) auto
  moreover have "?P c" if "update_call c" for c using that by (cases c) (auto simp: update_call_def)
  ultimately have "keeps (calls_in ?P) (Update E)" by (rule keeps_actions(2))
  from keepsD [OF this assms] show ?thesis .
qed

theorem Update_only_registers_witness:
  "\<exists>x t. Update (demo_env ''ACTIVE'') demo_scope_world = (x, t) \<and> CallDeleteInstance ''S'' ''id-0'' \<notin> set (trace t)"
proof -
  obtain x t where run: "Update (demo_env ''ACTIVE'') demo_scope_world = (x, t)"
    by (cases "Update (demo_env ''ACTIVE'') demo_scope_world")
  from Update_only_registers [OF run] run show ?thesis
    by (auto simp: demo_scope_world_def calls_in_def list_all_iff)
qed

section \<open>Reporting\<close>

definition is_event :: "call \<Rightarrow> bool" where
  "is_event c \<longleftrightarrow> (\<exists>ty r m. c = Eventf ty r m)"

definition quiet :: "call \<Rightarrow> bool" where
  "quiet c \<longleftrightarrow> \<not> is_event c"

lemma calls_in_quiet: "calls_in quiet s t \<Longrightarrow> \<exists>tr. trace t = trace s @ tr \<and> filter is_event tr = []"
  by (auto simp: calls_in_def quiet_def list_all_iff filter_empty_conv)

lemma setup_quiet: "keeps (calls_in quiet) (newMachineScope E)"
  by (intro keeps_intros) (auto simp: quiet_def is_event_def)

lemma setup_no_write: "setup_call c \<Longrightarrow> \<not> kube_write c"
  by (cases c) simp_all

lemma patch_quiet: "keeps (calls_in quiet) (patchMachine E sc)"
  by (intro keeps_intros) (auto simp: quiet_def is_event_def)

text \<open>The provider status of \<open>t\<close> could not be encoded and \<open>x\<close> says so.\<close>

definition unencodable :: "env \<Rightarrow> 'x scope_world_scheme \<Rightarrow> goerr + unit \<Rightarrow> bool" where
  "unencodable E t x \<longleftrightarrow> (\<exists>err. e_marshalStatus E (providerStatus t) = Inl err
     \<and> x = Inl (MachineError InvalidConfiguration (''failed to get machine provider status: '' @
         Error (Errorf_v ''error marshalling providerStatus: '' err))))"

text \<open>Between \<open>s\<close> and \<open>t\<close> a patch against the machine the scope was built from was sent.\<close>

definition patched :: "machineScope \<Rightarrow> 'x scope_world_scheme \<Rightarrow> 'x scope_world_scheme \<Rightarrow> bool" where
  "patched scope s t \<longleftrightarrow> (\<exists>m tr. trace t = trace s @ tr \<and> KubePatchMachine m (machineToBePatched scope) \<in> set tr)"

lemma patchMachine_patches:
  assumes "patchMachine E sc s = (Val x, t)"
  shows "patched sc s t \<or> unencodable E t x"
  using assms
  by (auto simp: patchMachine_def RawExtensionFromProviderStatus_def patched_def unencodable_def prog_simps Let_def
      split: run_splits)

lemma patched_extend:
  "patched sc u v \<Longrightarrow> \<exists>a. trace u = trace s @ a \<Longrightarrow> \<exists>b. trace t = trace v @ b \<Longrightarrow> patched sc s t"
  unfolding patched_def by auto

text \<open>
  The shape the three operations that change things share: \<open>action\<close> names the operation in events,
  \<open>op\<close> is the reconciler's part and \<open>fin\<close> what follows when it has succeeded. \<open>op\<close> records no event;
  \<open>fin\<close> fails only by failing to patch, and always tries to if the status can be encoded.
\<close>

locale machine_action =
  fixes E :: env
    and run :: "('x scope_world_scheme, unit) errprog"
    and action :: string
    and op :: "machineScope \<Rightarrow> ('x scope_world_scheme, unit) errprog"
    and fin :: "machineScope \<Rightarrow> ('x scope_world_scheme, unit) errprog"
  assumes run_eq: "run = bnd (newMachineScope E) (\<lambda>sc.
      case sc of
        Inl err \<Rightarrow> bnd (gets machine) (\<lambda>m. handleMachineError (scopeFail m err) action)
      | Inr scope \<Rightarrow> bnd (op scope) (\<lambda>res.
          case res of Inl err \<Rightarrow> patchAndFail E scope action err | Inr _ \<Rightarrow> fin scope))"
    and action_nonempty: "action \<noteq> []"
    and op_quiet: "keeps (calls_in quiet) (op scope)"
    and fin_fails: "fin scope s = (Val (Inl e), t) \<Longrightarrow> \<exists>u. patchMachine E scope u = (Val (Inl e), t)"
    and fin_patches: "fin scope s = (Val x, t) \<Longrightarrow> patched scope s t \<or> unencodable E t x"
begin

lemma failure_reported:
  assumes "run s = (Val (Inl e), t)"
  shows "(\<exists>tr. trace t = trace s @ tr \<and> filter is_event tr = [Eventf ''Warning'' (''Failed'' @ action) (Error e)])
    \<or> (\<exists>scope u. patchMachine E scope u = (Val (Inl e), t))"
proof -
  have handled: "\<exists>tr. trace t = trace s @ tr \<and> filter is_event tr = [Eventf ''Warning'' (''Failed'' @ action) (Error e)]"
    if "calls_in quiet s u" "handleMachineError err action u = (Val (Inl e :: goerr + unit), t)" for u err
  proof -
    from calls_in_quiet [OF that(1)] obtain tr where "trace u = trace s @ tr" "filter is_event tr = []" by blast
    with that(2) action_nonempty show ?thesis
      by (auto simp: handleMachineError_def bnd_run emit_event_def do_call_run fail_run is_event_def)
  qed
  obtain o1 u where sc: "newMachineScope E s = (o1, u)" by (cases "newMachineScope E s")
  have su: "calls_in quiet s u" using keepsD [OF setup_quiet sc] .
  consider (scope_fails) err where "handleMachineError (scopeFail (machine u) err) action u = (Val (Inl e :: goerr + unit), t)"
    | (op_fails) scope err v where "op scope u = (Val (Inl err), v)" "patchAndFail E scope action err v = (Val (Inl e), t)"
    | (fin_fails) scope v where "fin scope v = (Val (Inl e), t)"
    using assms sc by (auto simp: run_eq bnd_run gets_run split: run_splits)
  then show ?thesis
  proof cases
    case scope_fails
    with handled [OF su] show ?thesis by blast
  next
    case op_fails
    obtain o3 w where patch: "patchMachine E scope v = (o3, w)" by (cases "patchMachine E scope v")
    have "calls_in quiet s w"
      using su keepsD [OF op_quiet op_fails(1)] keepsD [OF patch_quiet patch] by (blast intro: calls.R_trans)
    from handled [OF this] patch op_fails(2) show ?thesis
      by (auto simp: patchAndFail_def bndE_run bnd_run gets_run split: run_splits)
  next
    case fin_fails
    then show ?thesis using fin_fails by (blast dest: machine_action.fin_fails [OF machine_action_axioms])
  qed
qed

lemma error_kept:
  assumes "newMachineScope E s = (Val (Inr scope), u)" and "op scope u = (Val (Inl err), v)"
    and "patchMachine E scope v = (Val p, w)"
  shows "\<exists>e t. run s = (Val (Inl e), t) \<and> machine t = machine w \<and>
    (case p of Inr _ \<Rightarrow> errors_As_RequeueAfter e = errors_As_RequeueAfter err
         \<and> errors_As_MachineError e = errors_As_MachineError err
     | Inl patchErr \<Rightarrow> e = patchErr)"
  using assms action_nonempty
  by (auto simp: run_eq bnd_run bndE_run patchAndFail_def gets_run handleMachineError_def reconcilerFail_def
      emit_event_def do_call_run fail_run split: sum.split)

lemma patches_or_not:
  assumes "run s = (Val res, t)" and "newMachineScope E s = (Val (Inr scope), u)"
  shows "patched scope u t \<or> unencodable E t res"
proof -
  obtain o2 v where op: "op scope u = (o2, v)" by (cases "op scope u")
  then have v: "\<exists>h. trace v = trace u @ h" using keepsD [OF op_quiet op] by (auto simp: calls_in_def)
  consider (op_fails) err where "patchAndFail E scope action err v = (Val res, t)"
    | (op_ok) "fin scope v = (Val res, t)"
    using assms(1,2) op by (auto simp: run_eq bnd_run split: run_splits)
  then show ?thesis
  proof cases
    case op_fails
    obtain p w where patch: "patchMachine E scope v = (Val p, w)"
        and rest: "\<exists>h. trace t = trace w @ h" "p = Inr () \<or> t = w \<and> res = p"
      using op_fails
      by (auto simp: patchAndFail_def bndE_run bnd_run gets_run handleMachineError_def emit_event_def do_call_run
          fail_run ret_run split: run_splits)
    from patchMachine_patches [OF patch] show ?thesis
      using rest patched_extend [OF _ v rest(1)] by (auto simp: unencodable_def)
  next
    case op_ok
    from fin_patches [OF this] v show ?thesis by (auto intro: patched_extend)
  qed
qed

lemma no_scope_no_patch:
  assumes "run s = (Val res, t)" and "newMachineScope E s = (Val (Inl err), u)"
  shows "res = Inl (scopeFail (machine u) err)" "calls_in (\<lambda>c. \<not> kube_write c) s t"
proof -
  have fail: "handleMachineError (scopeFail (machine u) err) action u = (Val res, t)"
    using assms by (simp add: run_eq bnd_run gets_run)
  then show "res = Inl (scopeFail (machine u) err)"
    using action_nonempty by (simp add: handleMachineError_def bnd_run emit_event_def do_call_run fail_run)
  have scope: "keeps (calls_in (\<lambda>c. \<not> kube_write c)) (newMachineScope E)"
    by (intro keeps_intros) (rule setup_no_write)
  have event: "keeps (calls_in (\<lambda>c. \<not> kube_write c)) (handleMachineError (scopeFail (machine u) err) action :: ('x scope_world_scheme, unit) errprog)"
    by (intro keeps_intros) simp
  from calls.R_trans [OF keepsD [OF scope assms(2)] keepsD [OF event fail]]
  show "calls_in (\<lambda>c. \<not> kube_write c) s t" .
qed

end

definition create_fin :: "env \<Rightarrow> machineScope \<Rightarrow> ('x scope_world_scheme, unit) errprog" where
  "create_fin E scope = bnd (gets machine) (\<lambda>m.
     bnd (emit_event ''Normal'' ''Create'' (''Created Machine '' @ m_Name m)) (\<lambda>_. patchMachine E scope))"

definition delete_fin :: "env \<Rightarrow> machineScope \<Rightarrow> ('x scope_world_scheme, unit) errprog" where
  "delete_fin E scope = bnd (gets machine) (\<lambda>m.
     bnd (emit_event ''Normal'' ''Delete'' (''Deleted machine '' @ m_Name m)) (\<lambda>_. patchMachine E scope))"

definition update_fin :: "env \<Rightarrow> machineScope \<Rightarrow> ('x scope_world_scheme, unit) errprog" where
  "update_fin E scope = bnd (gets (\<lambda>s. m_ResourceVersion (machine s))) (\<lambda>previousResourceVersion.
     bndE (patchMachine E scope) (\<lambda>_.
     bnd (gets machine) (\<lambda>m.
       if previousResourceVersion \<noteq> m_ResourceVersion m
       then bnd (emit_event ''Normal'' ''Update'' (''Updated Machine '' @ m_Name m)) ok
       else ok ())))"

lemma event_then_patch:
  assumes "bnd (gets machine) (\<lambda>m. bnd (emit_event ty r (f m)) (\<lambda>_. patchMachine E scope)) s = (x, t)"
  shows "\<exists>u c. trace u = trace s @ [c] \<and> patchMachine E scope u = (x, t)"
  using assms
  by (intro exI [of _ "s\<lparr>trace := trace s @ [Eventf ty r (f (machine s))]\<rparr>"])
    (simp add: bnd_run gets_run emit_event_def do_call_run)

interpretation create_act: machine_action E "Create E" "''Create''" "create E" "create_fin E" for E
proof
  show "Create E = bnd (newMachineScope E) (\<lambda>sc. case sc of
      Inl err \<Rightarrow> bnd (gets machine) (\<lambda>m. handleMachineError (scopeFail m err) ''Create'')
    | Inr scope \<Rightarrow> bnd (create E scope) (\<lambda>res.
        case res of Inl err \<Rightarrow> patchAndFail E scope ''Create'' err | Inr _ \<Rightarrow> create_fin E scope))"
    unfolding Create_def create_fin_def by (rule refl)
  show "keeps (calls_in quiet) (create E scope)" for scope
    by (intro keeps_intros) (auto simp: quiet_def is_event_def create_call_def)
  show "\<exists>u. patchMachine E scope u = (Val (Inl e), t)" if "create_fin E scope s = (Val (Inl e), t)" for scope s e t
    using event_then_patch [OF that [unfolded create_fin_def]] by blast
  show "patched scope s t \<or> unencodable E t x" if "create_fin E scope s = (Val x, t)" for scope s x t
    using event_then_patch [OF that [unfolded create_fin_def]] patchMachine_patches patched_extend by blast
qed simp

interpretation delete_act: machine_action E "Delete E" "''Delete''" "delete E" "delete_fin E" for E
proof
  show "Delete E = bnd (newMachineScope E) (\<lambda>sc. case sc of
      Inl err \<Rightarrow> bnd (gets machine) (\<lambda>m. handleMachineError (scopeFail m err) ''Delete'')
    | Inr scope \<Rightarrow> bnd (delete E scope) (\<lambda>res.
        case res of Inl err \<Rightarrow> patchAndFail E scope ''Delete'' err | Inr _ \<Rightarrow> delete_fin E scope))"
    unfolding Delete_def delete_fin_def by (rule refl)
  show "keeps (calls_in quiet) (delete E scope)" for scope
    by (intro keeps_intros) (auto simp: quiet_def is_event_def delete_call_def)
  show "\<exists>u. patchMachine E scope u = (Val (Inl e), t)" if "delete_fin E scope s = (Val (Inl e), t)" for scope s e t
    using event_then_patch [OF that [unfolded delete_fin_def]] by blast
  show "patched scope s t \<or> unencodable E t x" if "delete_fin E scope s = (Val x, t)" for scope s x t
    using event_then_patch [OF that [unfolded delete_fin_def]] patchMachine_patches patched_extend by blast
qed simp

interpretation update_act: machine_action E "Update E" "''Update''" "update E" "update_fin E" for E
proof
  show "Update E = bnd (newMachineScope E) (\<lambda>sc. case sc of
      Inl err \<Rightarrow> bnd (gets machine) (\<lambda>m. handleMachineError (scopeFail m err) ''Update'')
    | Inr scope \<Rightarrow> bnd (update E scope) (\<lambda>res.
        case res of Inl err \<Rightarrow> patchAndFail E scope ''Update'' err | Inr _ \<Rightarrow> update_fin E scope))"
    unfolding Update_def update_fin_def by (rule refl)
  show "keeps (calls_in quiet) (update E scope)" for scope
    by (intro keeps_intros) (auto simp: quiet_def is_event_def update_call_def)
  show "\<exists>u. patchMachine E scope u = (Val (Inl e), t)" if "update_fin E scope s = (Val (Inl e), t)" for scope s e t
    using that by (auto simp: update_fin_def bnd_run bndE_run gets_run emit_event_def do_call_run ok_run split: run_splits)
  show "patched scope s t \<or> unencodable E t x" if run: "update_fin E scope s = (Val x, t)" for scope s x t
  proof -
    obtain p w where "patchMachine E scope s = (Val p, w)" "\<exists>h. trace t = trace w @ h" "p = Inr () \<or> t = w \<and> x = p"
      using run
      by (auto simp: update_fin_def bnd_run bndE_run gets_run emit_event_def do_call_run ok_run split: run_splits)
    with patchMachine_patches [of E scope s p w] patched_extend [of scope s w s t] show ?thesis
      by (auto simp: unencodable_def)
  qed
qed simp

text \<open>
  C12. No failure goes unreported: when \<open>Create\<close>, \<open>Update\<close> or \<open>Delete\<close> returns an error, it has recorded
  exactly one event, a warning for the operation whose text is that of the error returned, unless the
  error is that of patching the machine.
\<close>

theorem actions_report_failures:
  assumes "(run, action) \<in> {(Create E, ''Create''), (Update E, ''Update''), (Delete E, ''Delete'')}"
    and "run s = (Val (Inl e), t)"
  shows "(\<exists>tr. trace t = trace s @ tr \<and> filter is_event tr = [Eventf ''Warning'' (''Failed'' @ action) (Error e)])
    \<or> (\<exists>scope u. patchMachine E scope u = (Val (Inl e), t))"
  using assms create_act.failure_reported [of E s e t] update_act.failure_reported [of E s e t]
    delete_act.failure_reported [of E s e t] by auto

theorem actions_report_failures_witness:
  "\<exists>e t. Create base_env demo_scope_world = (Val (Inl e), t)
     \<and> (\<exists>tr. trace t = tr \<and> filter is_event tr = [Eventf ''Warning'' ''FailedCreate'' (Error e)])"
proof -
  obtain e t p q where run: "Create base_env demo_scope_world = (Val (Inl e), t)" and e: "e = Errorf_w p q"
    by (simp add: Create_def newMachineScope_def ProviderSpecFromRawExtension_def prog_simps handleMachineError_def
        emit_event_def scopeFail_def demo_scope_world_def demo_machine_def base_env_def)
  have "patchMachine base_env scope u \<noteq> (Val (Inl e), t)" for scope u
    by (simp add: patchMachine_def RawExtensionFromProviderStatus_def prog_simps base_env_def e Errorf_w_def)
  with actions_report_failures [of "Create base_env" "''Create''" base_env, OF _ run] run show ?thesis
    by (auto simp: demo_scope_world_def)
qed

text \<open>
  C13. The kind of an error survives unless the patch that follows it fails: if the reconciler's operation fails and
  the machine is then patched, \<open>Create\<close>, \<open>Update\<close> and \<open>Delete\<close> return an error in which \<open>errors.As\<close> finds
  the same request to requeue and the same machine error reason; if the patch fails, the error returned is
  that of the patch.
\<close>

theorem actions_keep_error_kind:
  assumes "(run, op) \<in> {(Create E, create E), (Update E, update E), (Delete E, delete E)}"
    and "newMachineScope E s = (Val (Inr scope), u)" and "op scope u = (Val (Inl err), v)"
    and "patchMachine E scope v = (Val p, w)"
  shows "\<exists>e t. run s = (Val (Inl e), t) \<and>
    (case p of Inr _ \<Rightarrow> errors_As_RequeueAfter e = errors_As_RequeueAfter err
         \<and> errors_As_MachineError e = errors_As_MachineError err
     | Inl patchErr \<Rightarrow> e = patchErr)"
  using assms create_act.error_kept [of E s scope u err v p w] update_act.error_kept [of E s scope u err v p w]
    delete_act.error_kept [of E s scope u err v p w] by blast

lemma demo_scope_ready:
  obtains u where "newMachineScope (demo_env status) demo_scope_world = (Val (Inr demo_scope), u)"
    "machine u = demo_machine" "providerStatus u = zero_status\<lparr>ServiceInstanceID := Some ''S''\<rparr>"
    "dhcpIPCacheStore u = Map.empty"
  by (simp add: newMachineScope_def ProviderSpecFromRawExtension_def ProviderStatusFromRawExtension_def
      NewValidatedClient_def GetAPIKey_def apiKeyFromSecret_def getAndSetServiceEndpoints_def
      resolveEndpoints_def getAccount_def NewSDKClient_def endpoint_def HasPrefix_def Let_def prog_simps
      demo_scope_def demo_scope_world_def demo_defs)

lemma demo_patch: "\<exists>t. patchMachine (demo_env status) demo_scope v = (Val (Inr ()), t)"
  by (simp add: patchMachine_def RawExtensionFromProviderStatus_def prog_simps Let_def demo_env_def)

lemma requeue_building:
  assumes "InstanceStatus i = Some ''BUILD''"
  shows "\<exists>v. requeueIfInstanceBuilding E (Some i) w = (Val (Inl (RequeueAfterError 20)), v)"
proof -
  obtain cs t where "setProviderStatus E (Some i) conditionBuild w = (Val (), t)"
    using setProviderStatus_run .
  with assms show ?thesis
    by (simp add: requeueIfInstanceBuilding_def prog_simps InstanceStateNameBuild_def requeueAfterSeconds_def)
qed

lemma demo_create_building:
  assumes "machine u = demo_machine"
  shows "\<exists>err v. create (demo_env ''BUILD'') demo_scope u = (Val (Inl err), v) \<and> errors_As_RequeueAfter err = Some 20"
proof -
  obtain w where "create (demo_env ''BUILD'') demo_scope u
      = requeueIfInstanceBuilding (demo_env ''BUILD'') (Some (demo_vm ''BUILD'')) w"
    using assms
    by (simp add: create_def isMaster_run validateMachine_def lookup_label_def removeStoppedMachine_def
        GetInstanceByName_def getUserData_def launchInstance_def processorValue_def getImageID_def getNetworkID_def
        client_calls prog_simps demo_scope_def demo_defs InstanceStateNameShutoff_def)
  moreover have "InstanceStatus (demo_vm ''BUILD'') = Some ''BUILD''" by (simp add: demo_vm_def)
  ultimately show ?thesis
    using requeue_building [of "demo_vm ''BUILD''" "demo_env ''BUILD''" w] by fastforce
qed

theorem actions_keep_error_kind_witness:
  "\<exists>e t. Create (demo_env ''BUILD'') demo_scope_world = (Val (Inl e), t) \<and> errors_As_RequeueAfter e = Some 20"
proof -
  obtain u where u: "newMachineScope (demo_env ''BUILD'') demo_scope_world = (Val (Inr demo_scope), u)"
      and m: "machine u = demo_machine"
    using demo_scope_ready .
  obtain err v where err: "create (demo_env ''BUILD'') demo_scope u = (Val (Inl err), v)" "errors_As_RequeueAfter err = Some 20"
    using demo_create_building [OF m] by blast
  obtain w where w: "patchMachine (demo_env ''BUILD'') demo_scope v = (Val (Inr ()), w)"
    using demo_patch by blast
  from actions_keep_error_kind [of "Create (demo_env ''BUILD'')" "create (demo_env ''BUILD'')", OF _ u err(1) w] err(2)
  show ?thesis by auto
qed

text \<open>
  C14. What was learnt is stored. When \<open>Create\<close>, \<open>Update\<close> or \<open>Delete\<close> returns and a scope had been built, it has
  sent a patch of the machine against the object it started from, whether the reconciler's operation succeeded or
  failed; the one exception is a provider status that cannot be encoded, and then the error returned says
  so. When no scope could be built, there is nothing to store: it returns the error of the scope and has sent no
  patch.
\<close>

theorem actions_patch_unless_no_scope:
  assumes "run \<in> {Create E, Update E, Delete E}" and "run s = (Val res, t)"
    and "newMachineScope E s = (Val sc, u)"
  shows "case sc of
      Inr scope \<Rightarrow> (\<exists>m tr. trace t = trace u @ tr \<and> KubePatchMachine m (machineToBePatched scope) \<in> set tr)
        \<or> (\<exists>err. e_marshalStatus E (providerStatus t) = Inl err
            \<and> res = Inl (MachineError InvalidConfiguration (''failed to get machine provider status: '' @
                Error (Errorf_v ''error marshalling providerStatus: '' err))))
    | Inl err \<Rightarrow> res = Inl (scopeFail (machine u) err) \<and> calls_in (\<lambda>c. \<not> kube_write c) s t"
proof (cases sc)
  case (Inl err)
  with assms create_act.no_scope_no_patch [of E s res t err u] update_act.no_scope_no_patch [of E s res t err u]
    delete_act.no_scope_no_patch [of E s res t err u] show ?thesis by auto
next
  case (Inr scope)
  with assms create_act.patches_or_not [of E s res t scope u] update_act.patches_or_not [of E s res t scope u]
    delete_act.patches_or_not [of E s res t scope u] have "patched scope u t \<or> unencodable E t res" by auto
  then show ?thesis unfolding Inr patched_def unencodable_def by simp
qed

theorem actions_patch_unless_no_scope_witness:
  "\<exists>e t m. Create (demo_env ''BUILD'') demo_scope_world = (Val (Inl e), t) \<and> KubePatchMachine m demo_machine \<in> set (trace t)"
proof -
  obtain u where u: "newMachineScope (demo_env ''BUILD'') demo_scope_world = (Val (Inr demo_scope), u)"
      and m: "machine u = demo_machine"
    using demo_scope_ready .
  obtain err v where err: "create (demo_env ''BUILD'') demo_scope u = (Val (Inl err), v)"
    using demo_create_building [OF m] by blast
  obtain w where w: "patchMachine (demo_env ''BUILD'') demo_scope v = (Val (Inr ()), w)"
    using demo_patch by blast
  obtain e t where run: "Create (demo_env ''BUILD'') demo_scope_world = (Val (Inl e), t)"
    using create_act.error_kept [OF u err w] by blast
  have "e_marshalStatus (demo_env ''BUILD'') st \<noteq> Inl err" for st err by (simp add: demo_env_def)
  with actions_patch_unless_no_scope [of "Create (demo_env ''BUILD'')", OF _ run u] run show ?thesis
    by (auto simp: demo_scope_def)
qed

text \<open>
  C36. An update that changes nothing is silent: when \<open>Update\<close> succeeds, the reconciler's update and the patch
  have succeeded, and it has recorded exactly one event, that the machine was updated, if the patch gave the
  machine a new resource version, and no event otherwise.
\<close>

theorem Update_event_iff_changed:
  assumes "Update E s = (Val (Inr ()), t)"
  shows "\<exists>tr scope u v w. trace t = trace s @ tr \<and> newMachineScope E s = (Val (Inr scope), u)
    \<and> update E scope u = (Val (Inr ()), v) \<and> patchMachine E scope v = (Val (Inr ()), w) \<and> machine t = machine w
    \<and> filter is_event tr = (if m_ResourceVersion (machine v) \<noteq> m_ResourceVersion (machine w)
         then [Eventf ''Normal'' ''Update'' (''Updated Machine '' @ m_Name (machine w))] else [])"
proof -
  have no_fail: "handleMachineError err action u \<noteq> (Val (Inr ()), t)" for err action and u :: "'a scope_world_scheme"
    by (auto simp: handleMachineError_def bnd_run emit_event_def do_call_run ret_run fail_run)
  obtain scope u v where sc: "newMachineScope E s = (Val (Inr scope), u)" and up: "update E scope u = (Val (Inr ()), v)"
      and fin: "update_fin E scope v = (Val (Inr ()), t)"
    using assms unfolding update_act.run_eq
    by (auto simp: bnd_run gets_run patchAndFail_def bndE_run no_fail split: run_splits)
  from fin obtain w where w: "patchMachine E scope v = (Val (Inr ()), w)" and mt: "machine t = machine w"
      and t: "trace t = trace w @ (if m_ResourceVersion (machine v) \<noteq> m_ResourceVersion (machine w)
         then [Eventf ''Normal'' ''Update'' (''Updated Machine '' @ m_Name (machine w))] else [])"
    by (auto simp: update_fin_def bnd_run bndE_run gets_run emit_event_def do_call_run ok_run split: run_splits)
  have "calls_in quiet s w"
    using keepsD [OF setup_quiet sc] keepsD [OF update_act.op_quiet up] keepsD [OF patch_quiet w]
    by (blast intro: calls.R_trans)
  from calls_in_quiet [OF this] obtain tr where "trace w = trace s @ tr" "filter is_event tr = []" by blast
  with sc up w mt t show ?thesis
    by (intro exI [of _ "tr @ (if m_ResourceVersion (machine v) \<noteq> m_ResourceVersion (machine w)
         then [Eventf ''Normal'' ''Update'' (''Updated Machine '' @ m_Name (machine w))] else [])"] exI conjI)
      (assumption | auto simp: is_event_def)+
qed

definition demo_cached_scope :: machineScope where
  "demo_cached_scope = demo_scope\<lparr>machineToBePatched := machine demo_lb_world\<rparr>"

lemma demo_Update:
  obtains u v t where "newMachineScope (demo_env ''ACTIVE'') demo_lb_world = (Val (Inr demo_cached_scope), u)"
    and "update (demo_env ''ACTIVE'') demo_cached_scope u = (Val (Inr ()), v)" and "m_ResourceVersion (machine v) = ''1''"
    and "Update (demo_env ''ACTIVE'') demo_lb_world = (Val (Inr ()), t)"
proof -
  obtain u where u: "newMachineScope (demo_env ''ACTIVE'') demo_lb_world = (Val (Inr demo_cached_scope), u)"
      and mu: "machine u = machine demo_lb_world" "dhcpIPCacheStore u = dhcpIPCacheStore demo_lb_world"
        "providerStatus u = zero_status\<lparr>ServiceInstanceID := Some ''S''\<rparr>" "length (trace u) < 100"
    by (simp add: newMachineScope_def ProviderSpecFromRawExtension_def ProviderStatusFromRawExtension_def
        NewValidatedClient_def GetAPIKey_def apiKeyFromSecret_def getAndSetServiceEndpoints_def
        resolveEndpoints_def getAccount_def NewSDKClient_def endpoint_def HasPrefix_def Let_def prog_simps
        demo_cached_scope_def demo_scope_def demo_lb_world_def demo_scope_world_def demo_defs)
  have few: "\<not> n < length (trace u)" if "100 \<le> n" for n using mu(4) that by linarith
  obtain v where v: "update (demo_env ''ACTIVE'') demo_cached_scope u = (Val (Inr ()), v)" "m_ResourceVersion (machine v) = ''1''"
    by (simp add: mu few update_def validateMachine_def lookup_label_def getMachineInstance_def GetInstanceByName_def
        setProviderID_def ProviderStatusFromRawExtension_def FormatProviderID_def GetRegion_def GetZone_def
        setMachineCloudProviderSpecifics_def setProviderStatus_def setPowerVSMachineProviderCondition_def
        setMachineAddresses_def set_addresses_def cache_GetByKey_run CacheTTL_def Now_def getMachineInternalIP_run
        machine_ip_def updateLoadBalancers_def requeueIfInstanceBuilding_def InstanceStateNameBuild_def client_calls
        prog_simps Let_def demo_lb_world_def demo_cached_scope_def demo_scope_world_def demo_scope_def demo_defs)
  have "\<exists>t. update_fin (demo_env ''ACTIVE'') demo_cached_scope v = (Val (Inr ()), t)"
    by (simp add: update_fin_def patchMachine_def RawExtensionFromProviderStatus_def prog_simps Let_def emit_event_def
        demo_env_def)
  with u v that show thesis by (auto simp: update_act.run_eq bnd_run)
qed

theorem Update_event_iff_changed_witness:
  "\<exists>t tr. Update (demo_env ''ACTIVE'') demo_lb_world = (Val (Inr ()), t) \<and> trace t = trace demo_lb_world @ tr
     \<and> filter is_event tr = [Eventf ''Normal'' ''Update'' (''Updated Machine '' @ m_Name (machine t))]"
proof -
  obtain u v t where run: "newMachineScope (demo_env ''ACTIVE'') demo_lb_world = (Val (Inr demo_cached_scope), u)"
      "update (demo_env ''ACTIVE'') demo_cached_scope u = (Val (Inr ()), v)" "m_ResourceVersion (machine v) = ''1''"
      "Update (demo_env ''ACTIVE'') demo_lb_world = (Val (Inr ()), t)"
    using demo_Update .
  have "m_ResourceVersion (machine w) = ''2''"
    if "patchMachine (demo_env ''ACTIVE'') demo_cached_scope v = (Val (Inr ()), w)" for w
    using that by (auto simp: patchMachine_def RawExtensionFromProviderStatus_def prog_simps Let_def demo_env_def)
  with Update_event_iff_changed [OF run(4)] run show ?thesis by auto
qed

end
