(* ===== verification/Machine_Set.thy ===== *)
theory Machine_Set
  imports Conditions
begin

text \<open>
  \<open>pkg/actuators/machineset/controller.go\<close>: the controller that annotates a machine set with the
  capacity of one of its machines, so that the autoscaler can scale it up from zero. The machine set is
  read from the API server, so it is a local value here; \<open>reconcile\<close> returns it as it leaves it, with
  its error.
\<close>

section \<open>Definitions\<close>

definition cpuKey :: string where
  "cpuKey = ''machine.openshift.io/vCPU''"

definition memoryKey :: string where
  "memoryKey = ''machine.openshift.io/memoryMb''"

definition defaultSMT :: nat where
  "defaultSMT = 8"

definition isInvalidConfigurationError :: "goerr \<Rightarrow> bool" where
  "isInvalidConfigurationError err = (case err of MachineError r m \<Rightarrow> r = InvalidConfiguration | _ \<Rightarrow> False)"

definition getPowerVSProcessorValue :: "IntOrString \<Rightarrow> goerr + string" where
  "getPowerVSProcessorValue processor =
     (case (case processor of IntVal w \<Rightarrow> Inr (float64_of_int32 w) | StrVal str \<Rightarrow> ParseFloat str) of
        Inl err \<Rightarrow> Inl err
      | Inr cores \<Rightarrow> Inr (Sprint_whole (times_const (Ceil cores) defaultSMT)))"

text \<open>\<open>int64(memoryGiB) * 1024\<close>.\<close>

definition memoryMb :: "32 word \<Rightarrow> 64 word" where
  "memoryMb memoryGiB = scast memoryGiB * 1024"

definition annotate :: "string \<Rightarrow> string \<Rightarrow> MachineSet \<Rightarrow> MachineSet" where
  "annotate key v machineSet = machineSet\<lparr>set_Annotations := map_option (\<lambda>m. m(key \<mapsto> v)) (set_Annotations machineSet)\<rparr>"

definition reconcile :: "env \<Rightarrow> MachineSet \<Rightarrow> ('x world_scheme, MachineSet \<times> (goerr + unit)) prog" where
  "reconcile E machineSet =
     (case ProviderSpecFromRawExtension E (set_ProviderSpec machineSet) of
        Inl err \<Rightarrow> ret (machineSet, Inl (MachineError InvalidConfiguration (''failed to get providerConfig: '' @ Error err)))
      | Inr spec \<Rightarrow>
          let annotated = (if set_Annotations machineSet = None then machineSet\<lparr>set_Annotations := Some Map.empty\<rparr> else machineSet) in
          bnd (deref spec) (\<lambda>providerConfig.
            case getPowerVSProcessorValue (Processors providerConfig) of
              Inl err \<Rightarrow> ret (annotated, Inl (MachineError InvalidConfiguration (''failed to get cpu value: '' @ Error err)))
            | Inr cpu \<Rightarrow> ret (annotate memoryKey (itoa (sint (memoryMb (MemoryGiB providerConfig)))) (annotate cpuKey cpu annotated), Inr ())))"

definition Reconcile :: "env \<Rightarrow> string \<Rightarrow> string \<Rightarrow> ('x world_scheme, unit) errprog" where
  "Reconcile E namespace name =
     bnd (do_call (KubeGetMachineSet namespace name) (\<lambda>h. e_GetMachineSet E h namespace name)) (\<lambda>got.
       case got of
         Inl err \<Rightarrow> if IsNotFound err then ok () else fail err
       | Inr machineSet \<Rightarrow>
           if set_Deleted machineSet then ok ()
           else
             bnd (reconcile E machineSet) (\<lambda>(patched, result).
             bnd (case result of Inl err \<Rightarrow> emit_event ''Warning'' ''ReconcileError'' (Error err) | Inr _ \<Rightarrow> ret ()) (\<lambda>_.
             bndE (mapErr (Errorf_w ''failed to patch machineSet: '')
                     (do_call (KubePatchMachineSet patched machineSet) (\<lambda>h. e_PatchMachineSet E h patched machineSet))) (\<lambda>_.
               case result of
                 Inl err \<Rightarrow> if isInvalidConfigurationError err then ok () else fail err
               | Inr _ \<Rightarrow> ok ()))))"

section \<open>The values of the annotations\<close>

lemma sint_memoryMb: "sint (memoryMb w) = sint w * 1024"
proof -
  have "- (2 ^ 31) \<le> sint w" "sint w < 2 ^ 31"
    using sint_ge [of w] sint_lt [of w] by simp_all
  then have "signed_take_bit 63 (sint w * 1024) = sint w * 1024"
    by (intro signed_take_bit_int_eq_self) simp_all
  moreover have "memoryMb w = word_of_int (sint w) * word_of_int 1024"
    unfolding memoryMb_def scast_eq by simp
  then have "memoryMb w = word_of_int (sint w * 1024)" by (simp only: wi_hom_mult)
  ultimately show ?thesis by (simp only: sint_sbintrunc') simp
qed

definition cores_of :: "IntOrString \<Rightarrow> float64 option" where
  "cores_of processor = (case processor of
     IntVal w \<Rightarrow> Some (float64_of_int32 w)
   | StrVal str \<Rightarrow> (case ParseFloat str of Inl _ \<Rightarrow> None | Inr x \<Rightarrow> Some x))"

lemma processor_value_cores:
  "getPowerVSProcessorValue p = Inr v \<longleftrightarrow>
     (\<exists>x. cores_of p = Some x \<and> v = Sprint_whole (times_const (Ceil x) defaultSMT))"
  by (auto simp: getPowerVSProcessorValue_def cores_of_def split: IntOrString.split sum.split)

text \<open>
  C24. The number of CPUs is eight times the number of cores, rounded up to whole cores, written as a
  decimal number, whether the cores are given as a number or as text; this holds below a million CPUs.
\<close>

theorem getPowerVSProcessorValue_rounds_up:
  assumes "cores_of p = Some (Finite False q)" and "0 \<le> q" and "8 * \<lceil>q\<rceil> < 10 ^ 6"
  shows "getPowerVSProcessorValue p = Inr (digits (nat (8 * \<lceil>q\<rceil>)))"
proof -
  define N where "N = nat (8 * \<lceil>q\<rceil>)"
  have ceil: "0 \<le> \<lceil>q\<rceil>" using assms(2) by simp
  then have "int N < 10 ^ 6" using assms(3) unfolding N_def by simp
  then have N: "N < 10 ^ 6" by simp
  have "(of_int \<lceil>q\<rceil> * 8 :: rat) = of_int (int N)" using ceil by (simp add: N_def)
  then have N8: "(of_int \<lceil>q\<rceil> * 8 :: rat) = of_nat N" by simp
  from N have "N < 2 ^ 53" by simp
  with N8 have "times_const (Ceil (Finite False q)) 8 = Finite False (of_nat N)"
    by (simp add: times_const_def Ceil_def round64_whole)
  then show ?thesis
    using assms(1) format_whole_small [OF N]
    by (simp add: processor_value_cores defaultSMT_def Sprint_whole_def N_def [symmetric])
qed

theorem getPowerVSProcessorValue_rounds_up_witness:
  "cores_of (IntVal 3) = Some (Finite False 3) \<and> getPowerVSProcessorValue (IntVal 3) = Inr ''24''"
proof -
  have cores: "cores_of (IntVal 3) = Some (Finite False 3)"
    by (simp add: cores_of_def float64_of_int32_def)
  moreover have "digits 24 = ''24''" by code_simp
  ultimately show ?thesis
    using getPowerVSProcessorValue_rounds_up [OF cores] by simp
qed

section \<open>Reconciling\<close>

lemma reconcile_error_kind:
  assumes "reconcile E ms s = (Val (ms', Inl e), t)"
  shows "isInvalidConfigurationError e"
  using assms
  by (auto simp: reconcile_def isInvalidConfigurationError_def bnd_run ret_run Let_def split: run_splits)

lemma reconcile_pure: "keeps unchanged (reconcile E ms)"
  unfolding reconcile_def Let_def by (intro keeps_intros)

text \<open>
  Only failures that a retry can mend are returned: an error of \<open>Reconcile\<close> is either that of
  reading the machine set, and then it was not a report that the machine set is gone, or that of
  patching it. A provider spec that cannot be used is never retried.
\<close>

lemma Reconcile_errors:
  assumes "Reconcile E ns name s = (Val (Inl e), t)"
  shows "(e_GetMachineSet E (trace s) ns name = Inl e \<and> \<not> IsNotFound e)
    \<or> (\<exists>h ms' ms e'. e_PatchMachineSet E h ms' ms = Inl e' \<and> e = Errorf_w ''failed to patch machineSet: '' e')"
proof (cases "e_GetMachineSet E (trace s) ns name")
  case (Inl err)
  with assms show ?thesis by (auto simp: Reconcile_def prog_simps split: if_splits)
next
  case (Inr ms)
  let ?u = "s\<lparr>trace := trace s @ [KubeGetMachineSet ns name]\<rparr>"
  from assms Inr obtain ms' result v where r: "reconcile E ms ?u = (Val (ms', result), v)"
    and run: "bnd (case result of Inl err \<Rightarrow> emit_event ''Warning'' ''ReconcileError'' (Error err) | Inr _ \<Rightarrow> ret ()) (\<lambda>_.
        bndE (mapErr (Errorf_w ''failed to patch machineSet: '')
          (do_call (KubePatchMachineSet ms' ms) (\<lambda>h. e_PatchMachineSet E h ms' ms))) (\<lambda>_.
        case result of Inl err \<Rightarrow> if isInvalidConfigurationError err then ok () else fail err | Inr _ \<Rightarrow> ok ())) v = (Val (Inl e), t)"
    by (auto simp: Reconcile_def bnd_run do_call_run ok_run split: if_splits prod.splits outcome.splits)
  have "result = Inl err \<Longrightarrow> isInvalidConfigurationError err" for err
    using reconcile_error_kind r by blast
  with run show ?thesis
    by (fastforce simp: prog_simps emit_event_def split: run_splits)
qed

definition demo_set :: MachineSet where
  "demo_set = \<lparr>set_Name = ''ms'', set_Namespace = ''ns'', set_Deleted = False, set_Annotations = None,
     set_ProviderSpec = Some ''spec''\<rparr>"

definition demo_set_env :: env where
  "demo_set_env = base_env\<lparr>e_GetMachineSet := \<lambda>_ _ _. Inr demo_set,
     e_unmarshalSpec := \<lambda>_. Inr (Some (zero_config\<lparr>Processors := StrVal ''1.25'', MemoryGiB := 32\<rparr>)),
     e_PatchMachineSet := \<lambda>_ m _. Inr m\<rparr>"

definition demo_set_world :: world where
  "demo_set_world = \<lparr>trace = [], osenv = Map.empty\<rparr>"

text \<open>
  C23. A machine set that exists, is not being deleted and has a usable provider spec gets its two
  annotations and keeps every other: one patch is sent, against the machine set as it was read, whose
  annotations are the old ones with the CPUs and with 1024 MiB for every GiB of memory, a product that
  does not overflow.
\<close>

theorem Reconcile_annotates:
  assumes "e_GetMachineSet E (trace s) ns name = Inr ms" and "\<not> set_Deleted ms"
    and "ProviderSpecFromRawExtension E (set_ProviderSpec ms) = Inr (Some cfg)"
    and "getPowerVSProcessorValue (Processors cfg) = Inr cpu"
  shows "\<exists>ms' t res. Reconcile E ns name s = (Val res, t)
    \<and> trace t = trace s @ [KubeGetMachineSet ns name, KubePatchMachineSet ms' ms]
    \<and> set_Annotations ms' = Some ((case set_Annotations ms of Some a \<Rightarrow> a | None \<Rightarrow> Map.empty)
        (cpuKey \<mapsto> cpu, memoryKey \<mapsto> itoa (sint (MemoryGiB cfg) * 1024)))
    \<and> ms'\<lparr>set_Annotations := set_Annotations ms\<rparr> = ms
    \<and> (res = Inr () \<longleftrightarrow> (\<exists>r. e_PatchMachineSet E (trace s @ [KubeGetMachineSet ns name]) ms' ms = Inr r))"
  using assms
  by (cases "set_Annotations ms")
    (auto simp: Reconcile_def reconcile_def annotate_def sint_memoryMb prog_simps Let_def split: sum.splits)

theorem Reconcile_annotates_witness:
  "\<exists>ms' t. Reconcile demo_set_env ''ns'' ''ms'' demo_set_world = (Val (Inr ()), t)
     \<and> trace t = [KubeGetMachineSet ''ns'' ''ms'', KubePatchMachineSet ms' demo_set]
     \<and> (\<exists>a. set_Annotations ms' = Some a \<and> a cpuKey = Some ''16'' \<and> a memoryKey = Some ''32768'')"
proof -
  have env: "e_GetMachineSet demo_set_env (trace demo_set_world) ''ns'' ''ms'' = Inr demo_set" "\<not> set_Deleted demo_set"
      "ProviderSpecFromRawExtension demo_set_env (set_ProviderSpec demo_set)
         = Inr (Some (zero_config\<lparr>Processors := StrVal ''1.25'', MemoryGiB := 32\<rparr>))"
    by (simp_all add: demo_set_env_def demo_set_def ProviderSpecFromRawExtension_def)
  have cores: "cores_of (StrVal ''1.25'') = Some (Finite False (5 / 4))" by code_simp
  have "digits 16 = ''16''" "itoa (32 * 1024) = ''32768''" by (simp_all add: itoa_def digits.simps digit_chars)
  have cpu: "getPowerVSProcessorValue (StrVal ''1.25'') = Inr ''16''"
    using cores \<open>digits 16 = ''16''\<close> by (simp add: processor_value_cores) code_simp
  have mem: "sint (32 :: 32 word) * 1024 = 32768" by simp
  have keys: "cpuKey \<noteq> memoryKey" by (simp add: cpuKey_def memoryKey_def)
  from Reconcile_annotates [OF env, of "''16''"] cpu mem keys \<open>itoa (32 * 1024) = ''32768''\<close> show ?thesis
    by (auto simp: demo_set_world_def demo_set_env_def)
qed

text \<open>The reason why a machine set cannot be annotated, if there is one: the error \<open>reconcile\<close> reports.\<close>

definition spec_error :: "env \<Rightarrow> MachineSet \<Rightarrow> string option" where
  "spec_error E ms =
     (case ProviderSpecFromRawExtension E (set_ProviderSpec ms) of
        Inl err \<Rightarrow> Some (''failed to get providerConfig: '' @ Error err)
      | Inr None \<Rightarrow> None
      | Inr (Some cfg) \<Rightarrow>
          (case getPowerVSProcessorValue (Processors cfg) of
             Inl err \<Rightarrow> Some (''failed to get cpu value: '' @ Error err)
           | Inr _ \<Rightarrow> None))"

text \<open>
  C25. A machine set whose provider spec cannot be used is reported and left as it is: a warning with
  the reason is recorded, the patch that follows changes no annotation, and unless that patch fails
  the controller reports success and does not try again.
\<close>

theorem Reconcile_reports_bad_spec:
  assumes "e_GetMachineSet E (trace s) ns name = Inr ms" and "\<not> set_Deleted ms" and "spec_error E ms = Some msg"
  shows "\<exists>ms' t res. Reconcile E ns name s = (Val res, t)
    \<and> trace t = trace s @ [KubeGetMachineSet ns name, Eventf ''Warning'' ''ReconcileError'' msg, KubePatchMachineSet ms' ms]
    \<and> set_Annotations ms' \<in> {set_Annotations ms, Some (case set_Annotations ms of Some a \<Rightarrow> a | None \<Rightarrow> Map.empty)}
    \<and> ms'\<lparr>set_Annotations := set_Annotations ms\<rparr> = ms
    \<and> (res = Inr () \<longleftrightarrow> (\<exists>r. e_PatchMachineSet E (trace s @ [KubeGetMachineSet ns name,
          Eventf ''Warning'' ''ReconcileError'' msg]) ms' ms = Inr r))"
proof -
  let ?u = "s\<lparr>trace := trace s @ [KubeGetMachineSet ns name]\<rparr>"
  let ?annots = "{set_Annotations ms, Some (case set_Annotations ms of Some a \<Rightarrow> a | None \<Rightarrow> Map.empty)}"
  obtain ms' where r: "reconcile E ms ?u = (Val (ms', Inl (MachineError InvalidConfiguration msg)), ?u)"
      and ms': "set_Annotations ms' \<in> ?annots" "ms'\<lparr>set_Annotations := set_Annotations ms\<rparr> = ms"
    using assms(3)
    by (cases "set_Annotations ms"; cases "ProviderSpecFromRawExtension E (set_ProviderSpec ms)")
      (auto simp: spec_error_def reconcile_def prog_simps Let_def split: sum.splits option.splits)
  show ?thesis
    using assms(1,2) r ms'
    by (intro exI [of _ ms'])
      (auto simp: Reconcile_def isInvalidConfigurationError_def emit_event_def prog_simps split: sum.splits)
qed

definition bad_set_env :: env where
  "bad_set_env = demo_set_env\<lparr>e_unmarshalSpec := \<lambda>_. Inr (Some (zero_config\<lparr>Processors := StrVal ''two''\<rparr>))\<rparr>"

theorem Reconcile_reports_bad_spec_witness:
  "\<exists>t msg ms'. spec_error bad_set_env demo_set = Some msg \<and> Reconcile bad_set_env ''ns'' ''ms'' demo_set_world = (Val (Inr ()), t)
     \<and> trace t = [KubeGetMachineSet ''ns'' ''ms'', Eventf ''Warning'' ''ReconcileError'' msg, KubePatchMachineSet ms' demo_set]"
proof -
  have env: "e_GetMachineSet bad_set_env (trace demo_set_world) ''ns'' ''ms'' = Inr demo_set" "\<not> set_Deleted demo_set"
    by (simp_all add: bad_set_env_def demo_set_env_def demo_set_def)
  have "parse_magnitude ''two'' = None" by code_simp
  moreover have "cut_sign ''two'' = (False, ''two'')" "ToLower ''two'' = ''two''" by code_simp+
  ultimately have "ParseFloat ''two'' = Inl (parse_error ''two'' ''invalid syntax'')"
    by (simp add: ParseFloat_def)
  then obtain msg where msg: "spec_error bad_set_env demo_set = Some msg"
    by (simp add: spec_error_def bad_set_env_def demo_set_def ProviderSpecFromRawExtension_def getPowerVSProcessorValue_def)
  from Reconcile_reports_bad_spec [OF env msg] msg show ?thesis
    by (auto simp: demo_set_world_def bad_set_env_def demo_set_env_def)
qed

text \<open>Texts that are no number of cores pass: the annotation then is no number either.\<close>

lemma processor_value_not_finite:
  "getPowerVSProcessorValue (StrVal ''inf'') = Inr ''+Inf''" "getPowerVSProcessorValue (StrVal ''nan'') = Inr ''NaN''"
  by code_simp+

end
