(* ===== verification/Service_Endpoints.thy ===== *)
theory Service_Endpoints
  imports World "HOL-Library.List_Lexorder" "HOL-Library.Char_ord"
begin

text \<open>
  \<open>pkg/controllers/custom_service_endpoint_controller.go\<close>: the controller that checks the custom
  service endpoints of the cluster's infrastructure object and publishes them, sorted by name, in its
  status. Go compares strings byte by byte, which is the order of \<open>List_Lexorder\<close> over \<open>Char_ord\<close>.
\<close>

section \<open>Definitions\<close>

definition infrastructureResourceName :: string where
  "infrastructureResourceName = ''cluster''"

text \<open>
  What is used of \<open>field.ErrorList\<close>: an error is its text; \<open>ToAggregate\<close> drops repeated texts and
  joins the others.
\<close>

definition field_Invalid :: "string \<Rightarrow> string \<Rightarrow> string \<Rightarrow> string" where
  "field_Invalid path badValue detail =
     path @ '': Invalid value: '' @ Quote badValue @ (if detail = [] then [] else '': '' @ detail)"

fun join_comma :: "string list \<Rightarrow> string" where
  "join_comma [] = []"
| "join_comma [m] = m"
| "join_comma (m # n # ms) = m @ '', '' @ join_comma (n # ms)"

definition ToAggregate :: "string list \<Rightarrow> goerr + unit" where
  "ToAggregate allErrs =
     (case rev (remdups (rev allErrs)) of
        [] \<Rightarrow> Inr ()
      | [m] \<Rightarrow> Inl (PlainError m)
      | ms \<Rightarrow> Inl (PlainError (''['' @ join_comma ms @ '']'')))"

definition validateServiceURL :: "(string \<Rightarrow> string + string) \<Rightarrow> string \<Rightarrow> goerr + unit" where
  "validateServiceURL lit uri =
     (case url_Parse lit uri of
        Inl err \<Rightarrow> Inl err
      | Inr u \<Rightarrow>
          if Hostname u = [] then Inl (PlainError ''host cannot be empty, empty host provided'')
          else if Scheme u \<noteq> ''https'' then Inl (PlainError (''invalid scheme '' @ Scheme u @ '', only https allowed''))
          else if RequestURI u \<noteq> ''/'' then
            Inl (PlainError (''no path or request parameters must be provided, '' @ Quote (RequestURI u) @ '' was provided''))
          else Inr ())"

definition fldPath :: string where
  "fldPath = ''spec.platformSpec.powervs.serviceEndpoints''"

definition Index :: "nat \<Rightarrow> string" where
  "Index i = fldPath @ ''['' @ digits i @ '']''"

text \<open>One turn of the loop of \<open>validateServiceEndpoints\<close>: the errors it appends and the new tracker.\<close>

definition check_endpoint ::
    "(string \<Rightarrow> string + string) \<Rightarrow> nat \<Rightarrow> PowerVSServiceEndpoint \<Rightarrow> (string \<rightharpoonup> nat) \<Rightarrow> string list \<times> (string \<rightharpoonup> nat)" where
  "check_endpoint lit idx e tracker =
     (let (dup, tracker') =
        (case tracker (ep_Name e) of
           Some eidx \<Rightarrow> ([field_Invalid (Index idx @ ''.name'') (ep_Name e)
               (''duplicate service endpoint not allowed for '' @ ep_Name e
                @ '', service endpoint already defined at '' @ Index eidx)], tracker)
         | None \<Rightarrow> ([], tracker(ep_Name e \<mapsto> idx)));
        bad = (case validateServiceURL lit (ep_URL e) of
           Inl err \<Rightarrow> [field_Invalid (Index idx @ ''.url'') (ep_URL e) (Error err)]
         | Inr _ \<Rightarrow> [])
      in (dup @ bad, tracker'))"

fun check_endpoints ::
    "(string \<Rightarrow> string + string) \<Rightarrow> nat \<Rightarrow> PowerVSServiceEndpoint list \<Rightarrow> (string \<rightharpoonup> nat) \<Rightarrow> string list" where
  "check_endpoints lit idx [] tracker = []"
| "check_endpoints lit idx (e # es) tracker =
     (case check_endpoint lit idx e tracker of (errs, tracker') \<Rightarrow> errs @ check_endpoints lit (Suc idx) es tracker')"

definition validateServiceEndpoints :: "(string \<Rightarrow> string + string) \<Rightarrow> PowerVSServiceEndpoint list \<Rightarrow> goerr + unit" where
  "validateServiceEndpoints lit endpoints = ToAggregate (check_endpoints lit 0 endpoints Map.empty)"

definition zero_platform_status :: PowerVSPlatformStatus where
  "zero_platform_status = \<lparr>pvs_Region = [], pvs_Zone = [], pvs_ResourceGroup = [], pvs_ServiceEndpoints = [],
     pvs_CISInstanceCRN = [], pvs_DNSInstanceCRN = []\<rparr>"

text \<open>The endpoints in the status, none if a part of it is nil.\<close>

definition existingServices :: "Infrastructure \<Rightarrow> PowerVSServiceEndpoint list" where
  "existingServices infra = (case infra_PlatformStatus infra of
     Some (Some st) \<Rightarrow> pvs_ServiceEndpoints st | _ \<Rightarrow> [])"

text \<open>The missing parts of the status are created before the endpoints are stored.\<close>

definition with_services :: "PowerVSServiceEndpoint list \<Rightarrow> Infrastructure \<Rightarrow> Infrastructure" where
  "with_services services infra =
     infra\<lparr>infra_PlatformStatus := Some (Some
       ((case infra_PlatformStatus infra of Some (Some st) \<Rightarrow> st | _ \<Rightarrow> zero_platform_status)
          \<lparr>pvs_ServiceEndpoints := services\<rparr>))\<rparr>"

text \<open>
  \<open>sort.Slice\<close> promises a permutation that is sorted, not a stable one; the names are distinct when
  it is called, so that there is only one (\<open>sorted_by_name_unique\<close>).
\<close>

definition Reconcile :: "env \<Rightarrow> ('x world_scheme, unit) errprog" where
  "Reconcile E =
     bnd (do_call (KubeGetInfrastructure infrastructureResourceName)
            (\<lambda>h. e_GetInfrastructure E h infrastructureResourceName)) (\<lambda>got.
       case got of
         Inl err \<Rightarrow> if IsNotFound err then ok () else fail err
       | Inr currentInfra \<Rightarrow>
           let services = (case infra_Spec_PowerVS currentInfra of Some eps \<Rightarrow> eps | None \<Rightarrow> []) in
           if services = [] then ok ()
           else
             case validateServiceEndpoints (e_ip_literal E) services of
               Inl err \<Rightarrow>
                 bnd (emit_event ''Warning''
                        ''Invalid spec.platformSpec.powervs.serviceEndpoints provided for infrastructures.cluster''
                        (Error err)) (\<lambda>_. fail err)
             | Inr _ \<Rightarrow>
                 let sorted_services = sort_key ep_Name services in
                 if existingServices currentInfra = sorted_services then ok ()
                 else
                   let newInfra = with_services sorted_services currentInfra in
                   do_call (KubeUpdateInfrastructureStatus newInfra) (\<lambda>h. e_UpdateInfrastructureStatus E h newInfra))"

section \<open>Validation\<close>

lemma ToAggregate_ok [simp]: "ToAggregate errs = Inr () \<longleftrightarrow> errs = []"
  by (auto simp: ToAggregate_def split: list.splits)

lemma check_endpoints_ok:
  "check_endpoints lit idx es tracker = [] \<longleftrightarrow>
     distinct (map ep_Name es) \<and> (\<forall>e\<in>set es. tracker (ep_Name e) = None \<and> validateServiceURL lit (ep_URL e) = Inr ())"
  by (induction lit idx es tracker rule: check_endpoints.induct)
    (auto simp: check_endpoint_def Let_def image_iff split: option.splits sum.splits if_splits)

text \<open>
  The endpoints of a spec are accepted exactly when no two have the same name and the URL of each
  is accepted.
\<close>

lemma validateServiceEndpoints_iff:
  "validateServiceEndpoints lit es = Inr () \<longleftrightarrow>
     distinct (map ep_Name es) \<and> list_all (\<lambda>e. validateServiceURL lit (ep_URL e) = Inr ()) es"
  by (simp add: validateServiceEndpoints_def check_endpoints_ok list_all_iff)

section \<open>Which URLs are accepted\<close>

definition plain_char :: "char \<Rightarrow> bool" where
  "plain_char c \<longleftrightarrow> is_alpha c \<or> is_digit c \<or> c \<in> set ''-._~''"

lemma shouldEscape_plain [simp]: "plain_char c \<Longrightarrow> \<not> shouldEscape c mode"
  by (auto simp: plain_char_def shouldEscape_def)

lemma not_plain [simp]:
  "\<not> plain_char (CHR ''#'')" "\<not> plain_char (CHR ''?'')" "\<not> plain_char (CHR ''@'')" "\<not> plain_char (CHR ''/'')"
  "\<not> plain_char (CHR '':'')" "\<not> plain_char (CHR ''['')" "\<not> plain_char (CHR ''%'')" "\<not> plain_char (CHR ''+'')"
  "\<not> plain_char (CHR ''*'')"
  by code_simp+

lemma delimiters [simp]:
  "\<not> shouldEscape (CHR '':'') encodeHost" "\<not> shouldEscape (CHR ''/'') encodePath"
  "\<not> is_alpha (CHR '':'')" "\<not> is_digit (CHR '':'')" "\<not> is_ctl (CHR '':'')" "\<not> is_ctl (CHR ''/'')"
  "\<not> is_digit (CHR ''/'')"
  by code_simp+

lemma plain_not_ctl: "plain_char c \<Longrightarrow> \<not> is_ctl c"
proof
  assume "plain_char c" "is_ctl c"
  moreover have "\<forall>c\<in>set ''-._~''. 45 \<le> byte c \<and> byte c \<le> 126" by code_simp
  ultimately show False by (auto simp: plain_char_def is_alpha_def is_digit_def is_ctl_def)
qed

lemma notin_all: "list_all P s \<Longrightarrow> c \<in> set s \<Longrightarrow> P c"
  by (simp add: list_all_iff)

lemma is_alpha_plain: "is_alpha c \<Longrightarrow> plain_char c" and is_digit_plain: "is_digit c \<Longrightarrow> plain_char c"
  by (simp_all add: plain_char_def)

lemma getScheme_alpha:
  "list_all is_alpha sch \<Longrightarrow> pre @ sch \<noteq> [] \<Longrightarrow> getScheme raw pre (sch @ CHR '':'' # t) = Inr (pre @ sch, t)"
proof (induction sch arbitrary: pre)
  case Nil
  then show ?case by simp
qed simp

lemma unescape_plain:
  "list_all (\<lambda>c. plain_char c \<or> c = CHR ''/'' \<and> mode = encodePath \<or> c = CHR '':'' \<and> mode = encodeHost) s
   \<Longrightarrow> unescape mode s = Inr s"
  by (induction s) (auto simp: cons_res_def)

lemma escape_plain: "list_all (\<lambda>c. plain_char c \<or> c = CHR ''/'') s \<Longrightarrow> escape s encodePath = s"
  by (induction s) (auto simp: escape_def)

definition port_text :: "string \<Rightarrow> bool" where
  "port_text port \<longleftrightarrow> port = [] \<or> (\<exists>ds. port = CHR '':'' # ds \<and> list_all is_digit ds)"

lemma parseAuthority_plain:
  assumes "list_all plain_char h" and "port_text port"
  shows "parseAuthority lit (h @ port) = Inr (h @ port)"
proof -
  have host: "list_all (\<lambda>c. plain_char c \<or> c = CHR '':'') (h @ port)"
    using assms by (auto simp: port_text_def list_all_iff is_digit_plain)
  have notin: "CHR ''@'' \<notin> set (h @ port)" "CHR ''['' \<notin> set (h @ port)"
    using notin_all [OF host, of "CHR ''@''"] notin_all [OF host, of "CHR ''[''"] by auto
  have colon: "CHR '':'' \<notin> set h" using assms(1) by (auto simp: list_all_iff)
  have "unescape encodeHost (h @ port) = Inr (h @ port)"
    using host by (intro unescape_plain) (auto simp: list_all_iff)
  then have "parseHost lit (h @ port) = Inr (h @ port)"
    using assms(2) notin(2) colon by (auto simp: parseHost_def port_text_def Cut_notin validOptionalPort_def)
  with notin(1) show ?thesis by (simp add: parseAuthority_def Cut_notin)
qed

text \<open>A path in a URL: empty, or a slash and more plain text.\<close>

definition path_text :: "string \<Rightarrow> bool" where
  "path_text p \<longleftrightarrow> p = [] \<or> (\<exists>q. p = CHR ''/'' # q \<and> list_all (\<lambda>c. plain_char c \<or> c = CHR ''/'') q)"

lemma path_text_plain: "path_text p \<Longrightarrow> list_all (\<lambda>c. plain_char c \<or> c = CHR ''/'') p"
  by (auto simp: path_text_def)

lemma setPath_plain: "path_text p \<Longrightarrow> setPath u p = Inr (u\<lparr>Path := p, RawPath := []\<rparr>)"
  using unescape_plain [of encodePath p] escape_plain [of p] path_text_plain [of p]
  by (simp add: setPath_def list_all_iff)

lemma parse_url_plain:
  assumes "sch \<noteq> []" "list_all is_alpha sch" "list_all plain_char h" "port_text port" "path_text p"
  shows "url_Parse lit (sch @ ''://'' @ h @ port @ p)
    = Inr (empty_url\<lparr>Scheme := ToLower sch, Host := h @ port, Path := p\<rparr>)"
proof -
  define raw where "raw = sch @ ''://'' @ h @ port @ p"
  have ok: "list_all (\<lambda>c. plain_char c \<or> c = CHR ''/'' \<or> c = CHR '':'') raw"
    using assms path_text_plain [OF assms(5)]
    by (auto simp: raw_def list_all_iff port_text_def is_alpha_plain is_digit_plain)
  then have chars: "CHR ''#'' \<notin> set raw" "CHR ''?'' \<notin> set raw" "\<not> list_ex is_ctl raw" "raw \<noteq> ''*''"
    by (auto dest: notin_all plain_not_ctl simp: list_ex_iff)
  have scheme: "getScheme raw [] raw = Inr (sch, ''//'' @ h @ port @ p)"
    using getScheme_alpha [of sch "[]" raw "''//'' @ h @ port @ p"] assms(1,2) by (simp add: raw_def)
  have query: "CHR ''?'' \<notin> set (''//'' @ h @ port @ p)" using chars(2) by (simp add: raw_def)
  have slash: "CHR ''/'' \<notin> set (h @ port)"
    using assms(3,4) by (fastforce simp: port_text_def list_all_iff)
  have "Cut (CHR ''/'') (h @ port @ p) = (h @ port, tl p, p \<noteq> [])"
    using assms(5) slash Cut_append [OF slash, of "tl p"] Cut_notin [OF slash] by (auto simp: path_text_def)
  moreover have "(if p \<noteq> [] then CHR ''/'' # tl p else []) = p" using assms(5) by (auto simp: path_text_def)
  ultimately have "parse_rest lit (empty_url\<lparr>Scheme := ToLower sch, RawQuery := []\<rparr>) (''//'' @ h @ port @ p)
      = Inr (empty_url\<lparr>Scheme := ToLower sch, Host := h @ port, Path := p\<rparr>)"
    using assms(1) parseAuthority_plain [OF assms(3,4)]
    by (simp add: parse_rest_def HasPrefix_def setPath_plain [OF assms(5)] ToLower_def empty_url_def)
  then have "parse_url lit raw = Inr (empty_url\<lparr>Scheme := ToLower sch, Host := h @ port, Path := p\<rparr>)"
    using chars(3,4) scheme cut_query_no_query [OF query] by (simp add: parse_url_def del: append_Cons)
  with chars(1) show ?thesis unfolding raw_def [symmetric] by (simp add: url_Parse_def Cut_notin)
qed

lemma Hostname_plain:
  assumes "list_all plain_char h" "port_text port" "Host u = h @ port"
  shows "Hostname u = h"
proof -
  have colon: "CHR '':'' \<notin> set h" "h = [] \<or> hd h \<noteq> CHR ''[''"
    using assms(1) by (cases h; auto simp: list_all_iff)+
  from assms(2) show ?thesis unfolding port_text_def
  proof (elim disjE exE conjE)
    assume "port = []"
    with assms(3) colon show ?thesis by (auto simp: Hostname_def Cut_notin Let_def)
  next
    fix ds assume port: "port = CHR '':'' # ds" "list_all is_digit ds"
    then have "CHR '':'' \<notin> set (rev ds)" by (auto dest: notin_all)
    from Cut_append [OF this, of "rev h"] port assms(3) colon show ?thesis
      by (auto simp: Hostname_def validOptionalPort_def Let_def)
  qed
qed

text \<open>
  C21. Of the URLs with a plain host, an optional port and a plain path, those are accepted that have a
  host, the scheme \<open>https\<close> in any case and no path but a slash.
\<close>

theorem validateServiceURL_plain:
  assumes "sch \<noteq> []" "list_all is_alpha sch" "list_all plain_char h" "port_text port" "path_text p"
  shows "validateServiceURL lit (sch @ ''://'' @ h @ port @ p) = Inr () \<longleftrightarrow>
    h \<noteq> [] \<and> ToLower sch = ''https'' \<and> p \<in> {[], ''/''}"
proof -
  let ?u = "empty_url\<lparr>Scheme := ToLower sch, Host := h @ port, Path := p\<rparr>"
  have "EscapedPath ?u = p"
    using escape_plain [OF path_text_plain [OF assms(5)]] assms(5)
    by (auto simp: EscapedPath_def empty_url_def path_text_def)
  then have "RequestURI ?u = (if p = [] then ''/'' else p)" by (simp add: RequestURI_def empty_url_def)
  moreover have "Hostname ?u = h" using Hostname_plain [OF assms(3,4)] by simp
  ultimately show ?thesis
    unfolding validateServiceURL_def parse_url_plain [OF assms] by (auto split: if_splits)
qed

theorem validateServiceURL_plain_witness:
  "validateServiceURL Inr ''https://iam.example.com:443/'' = Inr () \<and> validateServiceURL Inr ''https://host/v1'' \<noteq> Inr ()"
proof
  have "list_all is_alpha ''https''" "list_all plain_char ''iam.example.com''" "list_all is_digit ''443''"
    "ToLower ''https'' = ''https''" "list_all plain_char ''host''" "list_all plain_char ''v1''" by code_simp+
  note facts = this
  show "validateServiceURL Inr ''https://iam.example.com:443/'' = Inr ()"
    using validateServiceURL_plain [of "''https''" "''iam.example.com''" "'':443''" "''/''" Inr] facts
    by (simp add: port_text_def path_text_def)
  show "validateServiceURL Inr ''https://host/v1'' \<noteq> Inr ()"
    using validateServiceURL_plain [of "''https''" "''host''" "[]" "''/v1''" Inr] facts
    by (simp add: port_text_def path_text_def)
qed

section \<open>Reconciling\<close>

text \<open>With distinct names there is one way to sort the endpoints.\<close>

lemma sorted_by_name_unique:
  assumes "distinct (map ep_Name es)" and "mset xs = mset es" and "sorted (map ep_Name xs)"
  shows "xs = sort_key ep_Name es"
proof -
  have "inj_on ep_Name (set es)" using assms(1) by (simp add: distinct_map)
  then show ?thesis using assms(2,3) by (metis sort_key_inj_key_eq)
qed

lemma existingServices_with [simp]: "existingServices (with_services xs infra) = xs"
  by (simp add: existingServices_def with_services_def)

lemma with_services_spec [simp]: "infra_Spec_PowerVS (with_services xs infra) = infra_Spec_PowerVS infra"
  by (simp add: with_services_def)

text \<open>An API server that stores the status answers with the last update.\<close>

fun last_update :: "Infrastructure \<Rightarrow> call list \<Rightarrow> Infrastructure" where
  "last_update infra [] = infra"
| "last_update infra (c # cs) = last_update (case c of KubeUpdateInfrastructureStatus i \<Rightarrow> i | _ \<Rightarrow> infra) cs"

lemma reconciled_status:
  assumes "Reconcile E s = (Val (Inr ()), t)" and "trace t = trace s @ tr"
    and "e_GetInfrastructure E (trace s) ''cluster'' = Inr infra" and "infra_Spec_PowerVS infra = Some es"
  shows "es \<noteq> [] \<Longrightarrow> distinct (map ep_Name es) \<and> existingServices (last_update infra tr) = sort_key ep_Name es"
proof -
  assume ne: "es \<noteq> []"
  have run: "Reconcile E s = (case validateServiceEndpoints (e_ip_literal E) es of
      Inl err \<Rightarrow> (Val (Inl err), snd (Reconcile E s))
    | Inr _ \<Rightarrow> (if existingServices infra = sort_key ep_Name es
        then (Val (Inr ()), s\<lparr>trace := trace s @ [KubeGetInfrastructure ''cluster'']\<rparr>)
        else (Val (e_UpdateInfrastructureStatus E (trace s @ [KubeGetInfrastructure ''cluster'']) (with_services (sort_key ep_Name es) infra)),
          s\<lparr>trace := trace s @ [KubeGetInfrastructure ''cluster'', KubeUpdateInfrastructureStatus (with_services (sort_key ep_Name es) infra)]\<rparr>)))"
    using assms(3,4) ne
    by (simp add: Reconcile_def infrastructureResourceName_def emit_event_def prog_simps Let_def split: sum.split)
  have valid: "validateServiceEndpoints (e_ip_literal E) es = Inr ()"
    using run assms(1) by (cases "validateServiceEndpoints (e_ip_literal E) es") auto
  then have "distinct (map ep_Name es)" by (simp add: validateServiceEndpoints_def check_endpoints_ok)
  moreover have "existingServices (last_update infra tr) = sort_key ep_Name es"
    using run valid assms(1,2) by (auto split: if_splits)
  ultimately show ?thesis by blast
qed

text \<open>
  C17. A spec whose endpoints are accepted is published: if the status does not hold them yet, one
  update of the status is sent; it holds the endpoints of the spec, none lost and none added, in the
  order of their names, and leaves the spec and the rest of an existing Power VS status as they were.
\<close>

theorem Reconcile_publishes:
  assumes "e_GetInfrastructure E (trace s) ''cluster'' = Inr infra" and "infra_Spec_PowerVS infra = Some es" and "es \<noteq> []"
    and "validateServiceEndpoints (e_ip_literal E) es = Inr ()"
  shows "\<exists>services t res. Reconcile E s = (Val res, t) \<and> mset services = mset es \<and> sorted (map ep_Name services)
    \<and> (if existingServices infra = services
        then res = Inr () \<and> trace t = trace s @ [KubeGetInfrastructure ''cluster'']
        else \<exists>infra'. trace t = trace s @ [KubeGetInfrastructure ''cluster'', KubeUpdateInfrastructureStatus infra']
          \<and> existingServices infra' = services \<and> infra_Spec_PowerVS infra' = Some es
          \<and> (\<forall>st. infra_PlatformStatus infra = Some (Some st) \<longrightarrow>
                infra_PlatformStatus infra' = Some (Some (st\<lparr>pvs_ServiceEndpoints := services\<rparr>)))
          \<and> res = e_UpdateInfrastructureStatus E (trace s @ [KubeGetInfrastructure ''cluster'']) infra')"
proof -
  let ?services = "sort_key ep_Name es"
  have "mset ?services = mset es" "sorted (map ep_Name ?services)" by simp_all
  moreover have "infra_PlatformStatus (with_services xs infra) = Some (Some (st\<lparr>pvs_ServiceEndpoints := xs\<rparr>))"
    if "infra_PlatformStatus infra = Some (Some st)" for xs st
    using that by (simp add: with_services_def)
  ultimately show ?thesis
    using assms
    by (cases "existingServices infra = ?services")
      (auto simp: Reconcile_def infrastructureResourceName_def prog_simps Let_def intro!: exI [of _ ?services])
qed

definition demo_endpoints :: "PowerVSServiceEndpoint list" where
  "demo_endpoints = [\<lparr>ep_Name = ''Power'', ep_URL = ''https://power.example.com/''\<rparr>,
     \<lparr>ep_Name = ''IAM'', ep_URL = ''https://iam.example.com''\<rparr>]"

definition demo_infra :: Infrastructure where
  "demo_infra = \<lparr>infra_Spec_PowerVS = Some demo_endpoints, infra_PlatformStatus = None\<rparr>"

definition demo_infra_env :: env where
  "demo_infra_env = base_env\<lparr>e_GetInfrastructure := \<lambda>h _. Inr (last_update demo_infra h),
     e_UpdateInfrastructureStatus := \<lambda>_ _. Inr ()\<rparr>"

definition demo_infra_world :: world where
  "demo_infra_world = \<lparr>trace = [], osenv = Map.empty\<rparr>"

lemma demo_endpoints_valid: "validateServiceEndpoints Inr demo_endpoints = Inr ()"
  by code_simp

lemma demo_infra_facts:
  "e_GetInfrastructure demo_infra_env (trace demo_infra_world) ''cluster'' = Inr demo_infra"
  "infra_Spec_PowerVS demo_infra = Some demo_endpoints" "demo_endpoints \<noteq> []"
  "validateServiceEndpoints (e_ip_literal demo_infra_env) demo_endpoints = Inr ()"
  using demo_endpoints_valid
  by (simp_all add: demo_infra_env_def demo_infra_world_def demo_infra_def demo_endpoints_def base_env_def)

theorem Reconcile_publishes_witness:
  "\<exists>services t infra'. Reconcile demo_infra_env demo_infra_world = (Val (Inr ()), t) \<and> mset services = mset demo_endpoints
     \<and> trace t = [KubeGetInfrastructure ''cluster'', KubeUpdateInfrastructureStatus infra'] \<and> existingServices infra' = services"
proof -
  have "existingServices demo_infra \<noteq> services" if "mset services = mset demo_endpoints" for services
    using that by (auto simp: existingServices_def demo_infra_def demo_endpoints_def)
  moreover have "e_UpdateInfrastructureStatus demo_infra_env h i = Inr ()" for h i by (simp add: demo_infra_env_def)
  moreover have "trace demo_infra_world = []" by (simp add: demo_infra_world_def)
  ultimately show ?thesis using Reconcile_publishes [OF demo_infra_facts] by fastforce
qed

text \<open>
  C19. Once published, the endpoints stay: if the API server answers with the object the controller
  wrote, reconciling again only reads it.
\<close>

theorem Reconcile_settles:
  assumes "Reconcile E s = (x, t)" and "trace t = trace s @ tr" and "KubeUpdateInfrastructureStatus infra' \<in> set tr"
    and "e_GetInfrastructure E (trace t) ''cluster'' = Inr infra'"
  shows "\<exists>u. Reconcile E t = (Val (Inr ()), u) \<and> trace u = trace t @ [KubeGetInfrastructure ''cluster'']"
proof -
  from assms(1-3) obtain es infra where es: "infra_Spec_PowerVS infra = Some es" "es \<noteq> []"
      and valid: "validateServiceEndpoints (e_ip_literal E) es = Inr ()"
      and infra': "infra' = with_services (sort_key ep_Name es) infra"
    by (auto simp: Reconcile_def emit_event_def prog_simps Let_def split: sum.splits option.splits if_splits)
  with assms(4) show ?thesis by (simp add: Reconcile_def infrastructureResourceName_def prog_simps Let_def)
qed

lemma demo_reconcile:
  "\<exists>t. Reconcile demo_infra_env demo_infra_world = (Val (Inr ()), t)
     \<and> trace t = trace demo_infra_world @ [KubeGetInfrastructure ''cluster'',
         KubeUpdateInfrastructureStatus (with_services (sort_key ep_Name demo_endpoints) demo_infra)]"
  using demo_infra_facts
  by (simp add: Reconcile_def infrastructureResourceName_def prog_simps Let_def existingServices_def
      demo_infra_def demo_infra_env_def demo_infra_world_def demo_endpoints_def)

theorem Reconcile_settles_witness:
  "\<exists>t u. Reconcile demo_infra_env demo_infra_world = (Val (Inr ()), t) \<and> Reconcile demo_infra_env t = (Val (Inr ()), u)
     \<and> trace u = trace t @ [KubeGetInfrastructure ''cluster'']"
proof -
  define infra' where "infra' = with_services (sort_key ep_Name demo_endpoints) demo_infra"
  obtain t where run: "Reconcile demo_infra_env demo_infra_world = (Val (Inr ()), t)"
      and tr: "trace t = trace demo_infra_world @ [KubeGetInfrastructure ''cluster'', KubeUpdateInfrastructureStatus infra']"
    using demo_reconcile unfolding infra'_def by blast
  have "e_GetInfrastructure demo_infra_env (trace t) ''cluster'' = Inr infra'"
    using tr by (simp add: demo_infra_env_def demo_infra_world_def)
  with Reconcile_settles [OF run tr] run show ?thesis by auto
qed

text \<open>
  C20. A spec whose endpoints are not accepted changes nothing: a warning with the reasons is recorded,
  the status is not touched and the error is returned, so that the controller tries again.
\<close>

theorem Reconcile_rejects:
  assumes "e_GetInfrastructure E (trace s) ''cluster'' = Inr infra" and "infra_Spec_PowerVS infra = Some es"
    and "\<not> (distinct (map ep_Name es) \<and> list_all (\<lambda>e. validateServiceURL (e_ip_literal E) (ep_URL e) = Inr ()) es)"
  shows "\<exists>err t. Reconcile E s = (Val (Inl err), t) \<and> trace t = trace s @ [KubeGetInfrastructure ''cluster'',
    Eventf ''Warning'' ''Invalid spec.platformSpec.powervs.serviceEndpoints provided for infrastructures.cluster'' (Error err)]"
proof -
  obtain err where err: "validateServiceEndpoints (e_ip_literal E) es = Inl err"
    using assms(3) unfolding validateServiceEndpoints_def
    by (cases "ToAggregate (check_endpoints (e_ip_literal E) 0 es Map.empty)")
      (auto simp: check_endpoints_ok list_all_iff)
  have "es \<noteq> []" using assms(3) by auto
  with assms(1,2) err show ?thesis
    by (simp add: Reconcile_def infrastructureResourceName_def emit_event_def prog_simps Let_def)
qed

theorem Reconcile_rejects_witness:
  "\<exists>err t. Reconcile (demo_infra_env\<lparr>e_GetInfrastructure := \<lambda>_ _. Inr (demo_infra\<lparr>infra_Spec_PowerVS :=
       Some (demo_endpoints @ demo_endpoints)\<rparr>)\<rparr>) demo_infra_world = (Val (Inl err), t) \<and> length (trace t) = 2"
proof -
  let ?E = "demo_infra_env\<lparr>e_GetInfrastructure := \<lambda>_ _. Inr (demo_infra\<lparr>infra_Spec_PowerVS :=
       Some (demo_endpoints @ demo_endpoints)\<rparr>)\<rparr>"
  have "e_GetInfrastructure ?E (trace demo_infra_world) ''cluster''
      = Inr (demo_infra\<lparr>infra_Spec_PowerVS := Some (demo_endpoints @ demo_endpoints)\<rparr>)"
    by simp
  from Reconcile_rejects [OF this, of "demo_endpoints @ demo_endpoints"] show ?thesis
    by (auto simp: demo_endpoints_def demo_infra_world_def)
qed

end
