(* ===== verification/Lifecycle.thy ===== *)
theory Lifecycle
  imports Actuator Machine_Set Service_Endpoints
begin

text \<open>
  Whole runs of the provider. The machine controller calls the four operations of the actuator, on any
  machine and in any order; the other two controllers reconcile machine sets and the infrastructure;
  the process may be restarted at any time, which empties the DHCP cache and resets the environment
  variables. Every operation may return, fail, panic or run out of fuel. \<open>reachable\<close> is the set of the
  states such runs lead to, and the properties here are invariants of it. The trace goes on over
  restarts: it is the history of the calls, not a part of the process.

  Operations follow each other in these runs. The machine controller has one worker, so that the four
  operations of the actuator do not overlap; the other two controllers neither touch the cache nor call
  the cloud (\<open>keeps_controllers\<close>), so that what their interleaving could change is the answers of
  the API server, which are arbitrary anyway.
\<close>

section \<open>Runs\<close>

datatype provider_op =
    DoCreate Machine
  | DoExists Machine
  | DoUpdate Machine
  | DoDelete Machine
  | DoMachineSet string string
  | DoEndpoints
  | Restart strmap

definition on_machine :: "Machine \<Rightarrow> (scope_world, 'a) prog \<Rightarrow> scope_world \<Rightarrow> scope_world" where
  "on_machine m run s = snd (run (s\<lparr>machine := m\<rparr>))"

fun perform :: "env \<Rightarrow> provider_op \<Rightarrow> scope_world \<Rightarrow> scope_world" where
  "perform E (DoCreate m) = on_machine m (Create E)"
| "perform E (DoExists m) = on_machine m (Exists E)"
| "perform E (DoUpdate m) = on_machine m (Update E)"
| "perform E (DoDelete m) = on_machine m (Delete E)"
| "perform E (DoMachineSet ns n) = (\<lambda>s. snd (Machine_Set.Reconcile E ns n s))"
| "perform E DoEndpoints = (\<lambda>s. snd (Service_Endpoints.Reconcile E s))"
| "perform E (Restart vars) = (\<lambda>s. s\<lparr>osenv := vars, dhcpIPCacheStore := Map.empty\<rparr>)"

inductive reachable :: "env \<Rightarrow> scope_world \<Rightarrow> bool" for E :: env where
  start: "trace s = [] \<Longrightarrow> dhcpIPCacheStore s = Map.empty \<Longrightarrow> reachable E s"
| step: "reachable E s \<Longrightarrow> reachable E (perform E op s)"

lemma reachable_fold: "reachable E s \<Longrightarrow> reachable E (fold (perform E) ops s)"
  by (induction ops arbitrary: s) (auto intro: reachable.step)

text \<open>Every reachable state is that after some sequence of operations.\<close>

lemma reachable_iff:
  "reachable E s \<longleftrightarrow> (\<exists>ops i. trace i = [] \<and> dhcpIPCacheStore i = Map.empty \<and> s = fold (perform E) ops i)"
proof
  assume "reachable E s"
  then show "\<exists>ops i. trace i = [] \<and> dhcpIPCacheStore i = Map.empty \<and> s = fold (perform E) ops i"
  proof induction
    case (start s)
    then show ?case by (intro exI [of _ "[]"]) simp
  next
    case (step s op)
    then obtain ops i where "trace i = []" "dhcpIPCacheStore i = Map.empty" "s = fold (perform E) ops i" by blast
    then show ?case by (intro exI [of _ "ops @ [op]"] exI [of _ i]) simp
  qed
qed (auto intro: reachable.start reachable_fold)

text \<open>
  An invariant of the runs: it holds at the start, it does not depend on the machine that is worked on,
  restarts keep it, and so do the parts the operations are made of.
\<close>

definition preserves :: "('s \<Rightarrow> bool) \<Rightarrow> 's \<Rightarrow> 's \<Rightarrow> bool" where
  "preserves I s t \<longleftrightarrow> (I s \<longrightarrow> I t)"

interpretation pres: transition_inv "preserves I" for I :: "'s \<Rightarrow> bool"
  by unfold_locales (auto simp: preserves_def)

locale run_invariant =
  fixes E :: env and I :: "scope_world \<Rightarrow> bool"
  assumes I_start: "trace s = [] \<Longrightarrow> dhcpIPCacheStore s = Map.empty \<Longrightarrow> I s"
    and I_machine: "I s \<Longrightarrow> I (s\<lparr>machine := m\<rparr>)"
    and I_restart: "I s \<Longrightarrow> I (s\<lparr>osenv := vars, dhcpIPCacheStore := Map.empty\<rparr>)"
    and I_scope: "keeps (preserves I) (newMachineScope E)" "keeps (preserves I) (patchMachine E sc)"
    and I_event: "keeps (preserves I) (emit_event ty reason msg)"
    and I_operations: "keeps (preserves I) (create E sc)" "keeps (preserves I) (update E sc)"
      "keeps (preserves I) (delete E sc)" "keeps (preserves I) (exists_op E sc)"
    and I_controllers: "keeps (preserves I) (Machine_Set.Reconcile E ns n)"
      "keeps (preserves I) (Service_Endpoints.Reconcile E)"
begin

lemma I_actuator:
  "keeps (preserves I) (Create E)" "keeps (preserves I) (Update E)"
  "keeps (preserves I) (Delete E)" "keeps (preserves I) (Exists E)"
  unfolding Create_def Update_def Delete_def Exists_def patchAndFail_def handleMachineError_def
  by (intro keeps_intros I_scope I_event I_operations)+

lemma perform_I: "I s \<Longrightarrow> I (perform E op s)"
  using I_machine [of s] I_actuator I_controllers
  by (cases op) (auto simp: on_machine_def keeps_def preserves_def I_restart)

lemma reachable_I: "reachable E s \<Longrightarrow> I s"
  by (induction rule: reachable.induct) (auto intro: I_start perform_I)

end

section \<open>What the cloud has answered\<close>

text \<open>A read of a VM of the service instance was answered with \<open>i\<close>.\<close>

definition got_instance :: "env \<Rightarrow> call list \<Rightarrow> string \<Rightarrow> PVMInstance \<Rightarrow> bool" where
  "got_instance E tr sid i \<longleftrightarrow>
     (\<exists>h ident rest. tr = h @ CallGetInstance sid ident # rest \<and> e_GetInstance E h sid ident = Inr (Some i))"

text \<open>A DHCP server of the service instance answered with this lease, just before the clock showed \<open>ts\<close>.\<close>

definition got_lease :: "env \<Rightarrow> call list \<Rightarrow> string \<Rightarrow> DHCPServerLease \<Rightarrow> int \<Rightarrow> bool" where
  "got_lease E tr sid lease ts \<longleftrightarrow>
     (\<exists>h srv rest d. tr = h @ CallGetDHCPServer sid srv # TimeNow # rest
       \<and> e_GetDHCPServer E h sid srv = Inr (Some d) \<and> lease \<in> set (Leases d)
       \<and> ts = e_Now E (h @ [CallGetDHCPServer sid srv]))"

lemma got_append [simp]:
  "got_instance E tr sid i \<Longrightarrow> got_instance E (tr @ later) sid i"
  "got_lease E tr sid lease ts \<Longrightarrow> got_lease E (tr @ later) sid lease ts"
  unfolding got_instance_def got_lease_def by fastforce+

text \<open>A read made by the operation that leads from \<open>s\<close> to \<open>t\<close> was answered with \<open>i\<close>.\<close>

definition read_in :: "env \<Rightarrow> 'x world_scheme \<Rightarrow> 'x world_scheme \<Rightarrow> string \<Rightarrow> PVMInstance \<Rightarrow> bool" where
  "read_in E s t sid i \<longleftrightarrow> (\<exists>h ident rest. trace t = trace s @ h @ CallGetInstance sid ident # rest
     \<and> e_GetInstance E (trace s @ h) sid ident = Inr (Some i))"

lemma read_in_mono:
  assumes "read_in E u v sid i" and "\<exists>tr. trace u = trace s @ tr" and "\<exists>tr. trace t = trace v @ tr"
  shows "read_in E s t sid i"
  using assms unfolding read_in_def by (metis append.assoc append_Cons)

lemma read_got: "read_in E s t sid i \<Longrightarrow> got_instance E (trace t) sid i"
  unfolding read_in_def got_instance_def by (metis append.assoc)

lemma GetInstance_read:
  assumes "GetInstance E p ident s = (Val (Inr (Some i)), t)"
  shows "\<exists>sid. cl_InstanceID p = Some sid \<and> read_in E s t sid i"
  using assms by (auto simp: GetInstance_def prog_simps read_in_def Cons_eq_append_conv split: run_splits)

lemma GetInstanceByName_read:
  assumes "GetInstanceByName E p name s = (Val (Inr (Some i)), t)"
  shows "\<exists>sid. cl_InstanceID p = Some sid \<and> read_in E s t sid i"
proof -
  obtain ident u where u: "GetInstance E p ident u = (Val (Inr (Some i)), t)" "\<exists>tr. trace u = trace s @ tr"
    using assms unfolding GetInstanceByName_def
    by (auto simp: fail_run GetInstances_def do_call_run split: option.splits elim!: bnd_ValE bndE_okE
        dest!: findP_deref_found)
  then show ?thesis using GetInstance_read read_in_mono by (metis append_Nil2)
qed

lemma getMachineInstance_read:
  assumes "getMachineInstance E r s = (Val (Inr (Some i)), t)"
  shows "\<exists>sid. cl_InstanceID (powerVSClient_of r) = Some sid \<and> read_in E s t sid i"
proof -
  have later: "\<exists>tr. trace u = trace s @ tr" if "GetInstance E (powerVSClient_of r) ident s = (x, u)" for ident x u
    using that by (auto simp: GetInstance_def prog_simps split: run_splits)
  consider u where "GetInstanceByName E (powerVSClient_of r) (m_Name (machine s)) u = (Val (Inr (Some i)), t)"
      "\<exists>tr. trace u = trace s @ tr"
    | ident where "GetInstance E (powerVSClient_of r) ident s = (Val (Inr (Some i)), t)"
    using assms unfolding getMachineInstance_def
    by (auto simp: gets_run ok_run Let_def split: option.splits if_splits sum.splits elim!: bnd_ValE) (metis later)
  then show ?thesis
  proof cases
    case 1
    then show ?thesis using GetInstanceByName_read read_in_mono by (metis append_Nil2)
  qed (rule GetInstance_read)
qed

lemma getMachineInstance_got:
  assumes "getMachineInstance E r s = (Val (Inr (Some i)), t)"
  shows "\<exists>sid. cl_InstanceID (powerVSClient_of r) = Some sid \<and> got_instance E (trace t) sid i"
  using getMachineInstance_read [OF assms] read_got by blast

lemma dhcp_lease_ip_got:
  assumes "dhcp_lease_ip E r server nets s = (Val (Inr ip), t)"
  shows "\<exists>sid net h srv d lease. cl_InstanceID (powerVSClient_of r) = Some sid \<and> net \<in> set nets
    \<and> trace t = h @ [CallGetDHCPServer sid srv] \<and> e_GetDHCPServer E h sid srv = Inr (Some d) \<and> lease \<in> set (Leases d)
    \<and> InstanceMacAddress lease = Some (net_MacAddress net) \<and> InstanceIP lease = Some ip"
proof -
  from dhcp_lease_ip_of_vm [OF assms] obtain net srv d lease and v :: "'a scope_world_scheme" where lease: "net \<in> set nets"
      "GetDHCPServerByID E (powerVSClient_of r) srv v = (Val (Inr (Some d)), t)" "lease \<in> set (Leases d)"
      "InstanceMacAddress lease = Some (net_MacAddress net)" "InstanceIP lease = Some ip"
    by blast
  then obtain sid where "cl_InstanceID (powerVSClient_of r) = Some sid" "e_GetDHCPServer E (trace v) sid srv = Inr (Some d)"
      "trace t = trace v @ [CallGetDHCPServer sid srv]"
    by (auto simp: GetDHCPServerByID_def prog_simps split: run_splits)
  with lease show ?thesis by blast
qed

section \<open>The cache\<close>

text \<open>
  What a program may do to the cache: an entry it leaves there was there before, or is for a VM that
  \<open>A\<close> allows, and holds the IP of a lease for a MAC address of that VM.
\<close>

definition leased :: "env \<Rightarrow> call list \<Rightarrow> string \<Rightarrow> PVMInstance \<Rightarrow> string \<Rightarrow> TimestampedEntry \<Rightarrow> bool" where
  "leased E tr sid i k entry \<longleftrightarrow> vm_name (te_Obj entry) = k \<and> ServerName i = Some k \<and>
     (\<exists>net lease. net \<in> set (Networks i) \<and> got_lease E tr sid lease (te_Timestamp entry)
        \<and> InstanceMacAddress lease = Some (net_MacAddress net) \<and> InstanceIP lease = Some (vm_ip (te_Obj entry)))"

definition caches :: "env \<Rightarrow> (string \<Rightarrow> PVMInstance \<Rightarrow> bool) \<Rightarrow> scope_world \<Rightarrow> scope_world \<Rightarrow> bool" where
  "caches E A s t \<longleftrightarrow> (\<exists>tr. trace t = trace s @ tr) \<and>
     (\<forall>k entry. dhcpIPCacheStore t k = Some entry \<longrightarrow> dhcpIPCacheStore s k = Some entry
        \<or> (\<exists>sid i. A sid i \<and> leased E (trace t) sid i k entry))"

lemma leased_append [simp]: "leased E tr sid i k entry \<Longrightarrow> leased E (tr @ later) sid i k entry"
  unfolding leased_def using got_append(2) by blast

interpretation caching: world_inv "caches E A" "\<lambda>_. True" for E A
proof
  fix s t u :: scope_world
  assume "caches E A s t" "caches E A t u"
  then show "caches E A s u" unfolding caches_def by (metis append_assoc leased_append)
qed (auto simp: caches_def)

lemma caches_same [keeps_intros]:
  "(\<And>s. trace (g s) = trace s) \<Longrightarrow> (\<And>s. dhcpIPCacheStore (g s) = dhcpIPCacheStore s) \<Longrightarrow> keeps (caches E A) (modify g)"
  by (simp add: keeps_def modify_run caches_def)

lemma caches_cache [keeps_intros]:
  "keeps (caches E A) (cache_GetByKey E k)" "keeps (caches E A) (cache_Delete v)"
  by (auto simp: keeps_def caches_def cache_GetByKey_run cache_Delete_run Let_def split: option.split if_splits)

text \<open>Nothing but setting the addresses of a VM puts an entry into the cache.\<close>

abbreviation caches_none :: "env \<Rightarrow> scope_world \<Rightarrow> scope_world \<Rightarrow> bool" where
  "caches_none E \<equiv> caches E (\<lambda>_ _. False)"

lemma keeps_caches_mono:
  "keeps (caches E A) m \<Longrightarrow> (\<And>sid i. A sid i \<Longrightarrow> B sid i) \<Longrightarrow> keeps (caches E B) m"
  unfolding keeps_def caches_def by blast

lemma caches_steps [keeps_intros]:
  "keeps (caches E A) (newMachineScope E)"
  "keeps (caches E A) (patchMachine E sc)"
  "keeps (caches E A) (setProviderStatus E inst c)"
  "keeps (caches E A) (getUserData E sc)"
  unfolding newMachineScope_def patchMachine_def setProviderStatus_def getUserData_def
  by (intro keeps_intros TrueI; simp)+

lemma caches_reconciler_steps [keeps_intros]:
  "keeps (caches E A) getMachineInternalIP"
  "keeps (caches E A) (set_addresses addrs)"
  "keeps (caches E A) (setProviderID E r inst)"
  "keeps (caches E A) (setMachineCloudProviderSpecifics r inst)"
  "keeps (caches E A) (requeueIfInstanceBuilding E inst)"
  "keeps (caches E A) (isMaster E)"
  "keeps (caches E A) (RegisterFailed k n ns m)"
  "keeps (caches E A) (emit_event ty reason msg)"
  "keeps (caches E A) (getMachineInstance E r)"
  unfolding getMachineInternalIP_def set_addresses_def setProviderID_def setMachineCloudProviderSpecifics_def
    requeueIfInstanceBuilding_def isMaster_def RegisterFailed_def emit_event_def getMachineInstance_def
  by (intro keeps_intros TrueI; simp)+

lemma caches_rest:
  assumes "keeps (calls_in (\<lambda>_. True)) m" and "keeps same_rest m"
  shows "keeps (caches E A) m"
proof (rule keepsI)
  fix s r t
  assume "m s = (r, t)"
  with assms have "calls_in (\<lambda>_. True) s t" "same_rest s t" by (auto dest: keepsD)
  then show "caches E A s t" by (auto simp: caches_def calls_in_def same_rest_scope)
qed

lemma caches_load_balancers [keeps_intros]:
  "keeps (caches E A) (removeFromApplicationLoadBalancers E r ip)"
  "keeps (caches E A) (updateLoadBalancers E r ip)"
  using keeps_removeFromApplicationLoadBalancers [where P = "\<lambda>_. True"]
    keeps_updateLoadBalancers [where P = "\<lambda>_. True"] by (blast intro: caches_rest)+

lemma caches_operations [keeps_intros]:
  "keeps (caches E A) (create E r)"
  "keeps (caches E A) (delete E r)"
  "keeps (caches E A) (exists_op E r)"
  unfolding create_def delete_def exists_op_def removeStoppedMachine_def launchInstance_def Now_def
  by (intro keeps_intros TrueI; simp)+

lemma caches_lease:
  assumes "ServerName i = Some server" and "\<And>sid. cl_InstanceID (powerVSClient_of r) = Some sid \<Longrightarrow> A sid i"
  shows "keeps (caches E A) (bndE (dhcp_lease_ip E r server (Networks i)) (\<lambda>ip.
    bnd (cache_Add E \<lparr>vm_name = server, vm_ip = ip\<rparr>) (\<lambda>_. bnd (set_addresses (f ip)) ok)))"
    (is "keeps _ ?run")
proof (rule keepsI)
  fix s t :: scope_world and x
  assume run: "?run s = (x, t)"
  obtain y u where u: "dhcp_lease_ip E r server (Networks i) s = (y, u)" by fastforce
  have "keeps (caches E A) (dhcp_lease_ip E r server (Networks i))"
    unfolding dhcp_lease_ip_def by (intro keeps_intros TrueI)
  from keepsD [OF this u] have su: "caches E A s u" .
  show "caches E A s t"
  proof (cases "\<exists>ip. y = Val (Inr ip)")
    case False
    with run u su show ?thesis by (auto simp: bndE_run split: run_splits)
  next
    case True
    then obtain ip where y: "y = Val (Inr ip)" by blast
    let ?entry = "\<lparr>te_Obj = \<lparr>vm_name = server, vm_ip = ip\<rparr>, te_Timestamp = e_Now E (trace u)\<rparr>"
    have t: "trace t = trace u @ [TimeNow]" "dhcpIPCacheStore t = (dhcpIPCacheStore u)(server \<mapsto> ?entry)"
      using run u y by (auto simp: bndE_run bnd_run cache_Add_run set_addresses_def modify_run ok_run)
    obtain sid where "A sid i" "leased E (trace t) sid i server ?entry"
      using dhcp_lease_ip_got [OF u [unfolded y]] assms t(1) unfolding leased_def got_lease_def by fastforce
    then have "caches E A u t" unfolding caches_def using t(1) by (simp add: t(2)) blast
    with su show ?thesis by (rule caching.R_trans)
  qed
qed

lemma caches_setMachineAddresses [keeps_intros]:
  assumes "\<And>sid i. cl_InstanceID (powerVSClient_of r) = Some sid \<Longrightarrow> inst = Some i \<Longrightarrow> A sid i"
  shows "keeps (caches E A) (setMachineAddresses E r inst)"
proof (cases inst)
  case None
  then show ?thesis unfolding setMachineAddresses_def by (simp add: keeps_intros)
next
  case (Some i)
  with assms show ?thesis
    by (cases "ServerName i") (simp_all add: setMachineAddresses_def deref_bnd Let_def keeps_intros caches_lease)
qed

text \<open>A program that first reads a VM and then may cache addresses of that VM.\<close>

lemma caches_after_read:
  assumes run: "bndE get f s = (x, t)" and "keeps (caches_none E) get" and later: "\<And>inst. keeps (calls_in (\<lambda>_. True)) (f inst)"
    and read: "\<And>i u. get s = (Val (Inr (Some i)), u) \<Longrightarrow> \<exists>sid. cl_InstanceID p = Some sid \<and> got_instance E (trace u) sid i"
    and caches: "\<And>A inst. (\<And>sid i. cl_InstanceID p = Some sid \<Longrightarrow> inst = Some i \<Longrightarrow> A sid i) \<Longrightarrow> keeps (caches E A) (f inst)"
  shows "caches E (got_instance E (trace t)) s t"
proof -
  obtain g u where g: "get s = (g, u)" by fastforce
  have su: "caches E (got_instance E (trace t)) s u"
    by (rule keepsD [OF keeps_caches_mono [OF assms(2)] g]) simp
  show ?thesis
  proof (cases "\<exists>inst. g = Val (Inr inst)")
    case False
    with su run g show ?thesis by (auto simp: bndE_run split: run_splits)
  next
    case True
    then obtain inst where inst: "g = Val (Inr inst)" by blast
    with run g have f: "f inst u = (x, t)" by (simp add: bndE_run)
    from keepsD [OF later f] obtain tr where tr: "trace t = trace u @ tr" by (auto simp: calls_in_def)
    have "got_instance E (trace t) sid i" if "cl_InstanceID p = Some sid" "inst = Some i" for sid i
      using read [of i u] g inst tr that by auto
    then have "keeps (caches E (got_instance E (trace t))) (f inst)" by (rule caches)
    from keepsD [OF this f] su show ?thesis by (blast intro: caching.R_trans)
  qed
qed

lemma caches_update:
  assumes "update E r s = (x, t)"
  shows "caches E (got_instance E (trace t)) s t"
proof (cases "validateMachine (machine s)")
  case (Inl e)
  with assms show ?thesis by (auto simp: update_def bnd_run gets_run fail_run caching.R_refl)
next
  case (Inr y)
  have get: "\<exists>sid. cl_InstanceID (powerVSClient_of r) = Some sid \<and> got_instance E (trace u) sid i"
    if "onErr (getMachineInstance E r) (\<lambda>err. bnd (RegisterFailed k n ns m) (\<lambda>_. fail err)) s = (Val (Inr (Some i)), u)"
    for k n ns m i u
    using that by (auto simp: onErr_run bnd_run RegisterFailed_def do_call_run fail_run split: run_splits
        dest!: getMachineInstance_got)
  show ?thesis
    using assms unfolding update_def bnd_run [of "gets machine"] gets_run prod.case outcome.case Inr sum.case
    by (rule caches_after_read) (rule get | assumption | intro keeps_intros TrueI)+
qed

definition cache_sound :: "env \<Rightarrow> scope_world \<Rightarrow> bool" where
  "cache_sound E s \<longleftrightarrow> (\<forall>k entry. dhcpIPCacheStore s k = Some entry \<longrightarrow>
     (\<exists>sid i. got_instance E (trace s) sid i \<and> leased E (trace s) sid i k entry))"

lemma caches_sound:
  "caches E (got_instance E (trace t)) s t \<Longrightarrow> cache_sound E s \<Longrightarrow> cache_sound E t"
  unfolding caches_def cache_sound_def by (metis got_append(1) leased_append)

lemma sound_caches_none:
  assumes "keeps (caches_none E) m"
  shows "keeps (preserves (cache_sound E)) m"
proof (rule keepsI)
  fix s t :: scope_world and r
  assume "m s = (r, t)"
  with keepsD [OF keeps_caches_mono [OF assms]] have "caches E (got_instance E (trace t)) s t" by blast
  then show "preserves (cache_sound E) s t" by (simp add: preserves_def caches_sound)
qed

lemma sound_update: "keeps (preserves (cache_sound E)) (update E r)"
  by (rule keepsI) (auto simp: preserves_def dest!: caches_update intro: caches_sound)

lemma caches_controllers [keeps_intros]:
  "keeps (caches E A) (Machine_Set.Reconcile E' ns n)"
  "keeps (caches E A) (Service_Endpoints.Reconcile E')"
  unfolding Machine_Set.Reconcile_def Service_Endpoints.Reconcile_def reconcile_def emit_event_def Let_def
  by (intro keeps_intros TrueI)+

interpretation cached: run_invariant E "cache_sound E" for E
proof
  show "cache_sound E s" if "dhcpIPCacheStore s = Map.empty" for s
    using that by (simp add: cache_sound_def)
qed (auto simp: cache_sound_def intro!: sound_caches_none sound_update keeps_intros)

text \<open>
  C3. An address taken from the DHCP cache is never made up, outdated or that of another VM: in every
  state a run of the provider can reach, through any operations on any machines, failures and restarts,
  what a read of the cache answers for a name is the IP of a lease that a DHCP server has answered at most
  20 minutes ago, and the lease is for a MAC address of a VM that the cloud had reported under that name,
  in the same service instance.
\<close>

theorem cached_ip_is_leased:
  assumes "reachable E s" and "cache_GetByKey E k s = (Val (Some v), t)"
  shows "\<exists>sid i net lease ts. got_instance E (trace s) sid i \<and> ServerName i = Some k \<and> net \<in> set (Networks i)
    \<and> got_lease E (trace s) sid lease ts \<and> InstanceMacAddress lease = Some (net_MacAddress net)
    \<and> InstanceIP lease = Some (vm_ip v) \<and> e_Now E (trace s) - ts \<le> 20 * 60 * 10 ^ 9"
proof -
  from assms(2) obtain entry where entry: "dhcpIPCacheStore s k = Some entry" "v = te_Obj entry"
      "e_Now E (trace s) - te_Timestamp entry \<le> 20 * 60 * 10 ^ 9"
    by (auto simp: cache_GetByKey_run Let_def CacheTTL_def split: option.splits if_splits)
  from cached.reachable_I [OF assms(1)] entry(1) obtain sid i where "got_instance E (trace s) sid i"
      "leased E (trace s) sid i k entry"
    unfolding cache_sound_def by blast
  with entry show ?thesis unfolding leased_def by blast
qed

definition demo_lease_env :: env where
  "demo_lease_env = demo_dhcp_env\<lparr>e_Now := \<lambda>_. 0, e_GetInstance := \<lambda>_ _ _. Inr (Some ((demo_vm ''ACTIVE'')\<lparr>Networks :=
     [\<lparr>net_ExternalIP = [], net_IPAddress = [], net_MacAddress = ''bb'', net_NetworkID = ''n-1''\<rparr>]\<rparr>))\<rparr>"

lemma demo_lease_scope:
  obtains u where "newMachineScope demo_lease_env demo_scope_world = (Val (Inr demo_scope), u)"
    "machine u = demo_machine" "providerStatus u = zero_status\<lparr>ServiceInstanceID := Some ''S''\<rparr>"
    "dhcpIPCacheStore u = Map.empty"
  by (simp add: newMachineScope_def ProviderSpecFromRawExtension_def ProviderStatusFromRawExtension_def
      NewValidatedClient_def GetAPIKey_def apiKeyFromSecret_def getAndSetServiceEndpoints_def
      resolveEndpoints_def getAccount_def NewSDKClient_def endpoint_def HasPrefix_def Let_def prog_simps
      demo_scope_def demo_scope_world_def demo_lease_env_def demo_dhcp_env_def demo_defs)

lemma demo_lease_update:
  assumes "machine u = demo_machine" "providerStatus u = zero_status\<lparr>ServiceInstanceID := Some ''S''\<rparr>"
    "dhcpIPCacheStore u = Map.empty"
  shows "\<exists>v entry. update demo_lease_env demo_scope u = (Val (Inr ()), v)
    \<and> dhcpIPCacheStore v ''vm-0'' = Some entry \<and> vm_ip (te_Obj entry) = ''10.0.0.2'' \<and> te_Timestamp entry = 0"
  using assms
  by (simp add: update_def validateMachine_def lookup_label_def getMachineInstance_def GetInstanceByName_def
      setProviderID_def ProviderStatusFromRawExtension_def FormatProviderID_def GetRegion_def GetZone_def
      setMachineCloudProviderSpecifics_def setProviderStatus_def setPowerVSMachineProviderCondition_def
      dhcp_lease_ip_def getNetworkID_def updateLoadBalancers_def network_addresses_def TrimSpace_def
      setMachineAddresses_def set_addresses_def cache_GetByKey_run cache_Add_run Now_def getMachineInternalIP_run
      machine_ip_def requeueIfInstanceBuilding_def InstanceStateNameBuild_def client_calls prog_simps Let_def
      demo_scope_def demo_lease_env_def demo_dhcp_env_def demo_defs)

lemma demo_lease_reached:
  obtains s entry where "reachable demo_lease_env s" "dhcpIPCacheStore s ''vm-0'' = Some entry"
    "vm_ip (te_Obj entry) = ''10.0.0.2''" "te_Timestamp entry = 0"
proof -
  obtain u where u: "newMachineScope demo_lease_env demo_scope_world = (Val (Inr demo_scope), u)"
      and m: "machine u = demo_machine" "providerStatus u = zero_status\<lparr>ServiceInstanceID := Some ''S''\<rparr>"
        "dhcpIPCacheStore u = Map.empty"
    using demo_lease_scope .
  obtain v entry where v: "update demo_lease_env demo_scope u = (Val (Inr ()), v)"
      and entry: "dhcpIPCacheStore v ''vm-0'' = Some entry" "vm_ip (te_Obj entry) = ''10.0.0.2''" "te_Timestamp entry = 0"
    using demo_lease_update [OF m] by blast
  let ?s = "perform demo_lease_env (DoUpdate demo_machine) demo_scope_world"
  have start: "demo_scope_world\<lparr>machine := demo_machine\<rparr> = demo_scope_world" "reachable demo_lease_env demo_scope_world"
    by (auto simp: demo_scope_world_def intro: reachable.start)
  have "dhcpIPCacheStore ?s = dhcpIPCacheStore v"
    using u v by (simp add: on_machine_def start(1) update_act.run_eq update_fin_def patchMachine_def
        RawExtensionFromProviderStatus_def prog_simps emit_event_def Let_def demo_lease_env_def demo_dhcp_env_def
        demo_env_def)
  with entry reachable.step [OF start(2)] that show ?thesis by metis
qed

theorem cached_ip_is_leased_witness:
  "\<exists>s v t sid lease ts. reachable demo_lease_env s \<and> cache_GetByKey demo_lease_env ''vm-0'' s = (Val (Some v), t)
     \<and> got_lease demo_lease_env (trace s) sid lease ts \<and> InstanceIP lease = Some ''10.0.0.2''"
proof -
  obtain s entry where s: "reachable demo_lease_env s" "dhcpIPCacheStore s ''vm-0'' = Some entry"
    "vm_ip (te_Obj entry) = ''10.0.0.2''" "te_Timestamp entry = 0"
    using demo_lease_reached .
  then obtain t where t: "cache_GetByKey demo_lease_env ''vm-0'' s = (Val (Some (te_Obj entry)), t)"
    by (simp add: cache_GetByKey_run Let_def CacheTTL_def demo_lease_env_def)
  from cached_ip_is_leased [OF s(1) t] s t show ?thesis by auto
qed

section \<open>Deletions\<close>

fun controller_call :: "call \<Rightarrow> bool" where
  "controller_call (KubeGetMachineSet _ _) = True"
| "controller_call (KubePatchMachineSet _ _) = True"
| "controller_call (KubeGetInfrastructure _) = True"
| "controller_call (KubeUpdateInfrastructureStatus _) = True"
| "controller_call (Eventf _ _ _) = True"
| "controller_call _ = False"

lemma keeps_controllers [keeps_intros]:
  assumes "\<And>c. controller_call c \<Longrightarrow> P c"
  shows "keeps (calls_in P) (Machine_Set.Reconcile E ns n)" "keeps (calls_in P) (Service_Endpoints.Reconcile E)"
  unfolding Machine_Set.Reconcile_def Service_Endpoints.Reconcile_def reconcile_def emit_event_def Let_def
  by (intro keeps_intros assms controller_call.simps [THEN iffD2] TrueI)+

text \<open>Every request to delete a VM was preceded by a read of it.\<close>

definition deletes_known :: "env \<Rightarrow> scope_world \<Rightarrow> bool" where
  "deletes_known E s \<longleftrightarrow> (\<forall>h sid vm rest. trace s = h @ CallDeleteInstance sid vm # rest \<longrightarrow>
     (\<exists>i. got_instance E h sid i \<and> PvmInstanceID i = Some vm))"

lemma deletes_known_calls:
  assumes "calls_in (\<lambda>c. \<not> is_delete c) s t" and "deletes_known E s"
  shows "deletes_known E t"
proof -
  obtain tr where tr: "trace t = trace s @ tr" "list_all (\<lambda>c. \<not> is_delete c) tr"
    using assms(1) unfolding calls_in_def by blast
  have "CallDeleteInstance sid vm \<notin> set tr" for sid vm
    using tr(2) by (auto simp: list_all_iff is_delete_def)
  with assms(2) tr(1) show ?thesis unfolding deletes_known_def by (metis split_within)
qed

lemma deletes_known_keeps:
  "keeps (calls_in (\<lambda>c. \<not> is_delete c)) m \<Longrightarrow> keeps (preserves (deletes_known E)) m"
  unfolding keeps_def preserves_def using deletes_known_calls by blast

lemma deletes_known_delete:
  assumes "deletes_known E s" and "got_instance E (trace s) sid i" and "PvmInstanceID i = Some vm"
    and "trace t = trace s @ [CallDeleteInstance sid vm]"
  shows "deletes_known E t"
  unfolding deletes_known_def
proof (intro allI impI)
  fix h sid' vm' rest
  assume "trace t = h @ CallDeleteInstance sid' vm' # rest"
  with assms(4) have "(\<exists>rest'. trace s = h @ CallDeleteInstance sid' vm' # rest') \<or> h = trace s \<and> sid' = sid \<and> vm' = vm"
    by (cases rest rule: rev_cases) (auto simp: eq_commute [of _ "trace s"])
  with assms show "\<exists>i. got_instance E h sid' i \<and> PvmInstanceID i = Some vm'"
    unfolding deletes_known_def by blast
qed

lemma known_removeStoppedMachine: "keeps (preserves (deletes_known E)) (removeStoppedMachine E p m)"
proof (rule keepsI)
  fix s t :: scope_world and r
  assume run: "removeStoppedMachine E p m s = (r, t)"
  obtain tr where tr: "trace t = trace s @ tr"
    using keepsD [OF calls.keeps_removeStoppedMachine [where P = "\<lambda>_. True"] run] by (auto simp: calls_in_def)
  show "preserves (deletes_known E) s t"
  proof (cases "\<exists>sid vm. CallDeleteInstance sid vm \<in> set tr")
    case False
    then have "calls_in (\<lambda>c. \<not> is_delete c) s t"
      using tr by (auto simp: calls_in_def is_delete_def list_all_iff)
    then show ?thesis by (simp add: preserves_def deletes_known_calls)
  next
    case True
    then obtain sid vm inst u where u: "GetInstanceByName E p (m_Name m) s = (Val (Inr (Some inst)), u)"
        "PvmInstanceID inst = Some vm" "cl_InstanceID p = Some sid" "t = u\<lparr>trace := trace u @ [CallDeleteInstance sid vm]\<rparr>"
      using removeStoppedMachine_deletes [OF run tr] by blast
    have "keeps (calls_in (\<lambda>c. \<not> is_delete c)) (GetInstanceByName E p (m_Name m))"
      by (intro keeps_intros) (auto simp: is_delete_def)
    from keepsD [OF this u(1)] have "preserves (deletes_known E) s u"
      by (simp add: preserves_def deletes_known_calls)
    moreover have "preserves (deletes_known E) u t"
      using GetInstanceByName_read [OF u(1)] u read_got [of E s u sid inst] deletes_known_delete [of E u sid inst vm t]
      by (auto simp: preserves_def)
    ultimately show ?thesis by (rule pres.R_trans)
  qed
qed

lemma known_create: "keeps (preserves (deletes_known E)) (create E r)"
proof (rule keepsI)
  fix s t :: scope_world and x
  assume "create E r s = (x, t)"
  then consider "calls_in (\<lambda>c. \<not> is_delete c) s t"
    | u y v where "isMaster E s = (Val (Inr False), u)" "removeStoppedMachine E (powerVSClient_of r) (machine s) u = (y, v)"
        "calls_in (\<lambda>c. \<not> is_delete c) v t"
    using create_delete_cases by metis
  then show "preserves (deletes_known E) s t"
  proof cases
    case 1
    then show ?thesis by (simp add: preserves_def deletes_known_calls)
  next
    case 2
    have "keeps (calls_in (\<lambda>c. \<not> is_delete c)) (isMaster E)" by (intro keeps_intros) (auto simp: is_delete_def)
    from keepsD [OF deletes_known_keeps [OF this] 2(1)] keepsD [OF known_removeStoppedMachine 2(2)] 2(3)
    show ?thesis by (auto simp: preserves_def deletes_known_calls)
  qed
qed

lemma known_delete: "keeps (preserves (deletes_known E)) (delete E r)"
proof (rule keepsI)
  fix s t :: scope_world and x
  assume run: "delete E r s = (x, t)"
  show "preserves (deletes_known E) s t"
  proof (cases "calls_in (\<lambda>c. \<not> is_delete c) s t")
    case True
    then show ?thesis by (simp add: preserves_def deletes_known_calls)
  next
    case False
    then obtain inst u v vm sid rest where c: "getMachineInstance E r s = (Val (Inr (Some inst)), u)"
        "PvmInstanceID inst = Some vm" "cl_InstanceID (powerVSClient_of r) = Some sid"
        "if machine_ip (machine s) \<noteq> [] then removeFromApplicationLoadBalancers E r (machine_ip (machine s)) u = (Val (Inr ()), v)
         else v = u" "calls_in (\<lambda>c. \<not> is_delete c) s v"
        "trace t = trace v @ CallDeleteInstance sid vm # rest" "list_all (\<lambda>c. \<not> is_delete c) rest"
      using delete_delete_cases [OF run] by blast
    have "\<exists>tr. trace v = trace u @ tr"
      using c(4) keepsD [OF keeps_removeFromApplicationLoadBalancers(1) [where P = "\<lambda>_. True"]]
      by (fastforce simp: calls_in_def split: if_splits)
    with getMachineInstance_got [OF c(1)] c(3) have got: "got_instance E (trace v) sid inst" by auto
    define w where "w = v\<lparr>trace := trace v @ [CallDeleteInstance sid vm]\<rparr>"
    have "calls_in (\<lambda>c. \<not> is_delete c) w t" using c(6,7) by (simp add: calls_in_def w_def)
    with c(2,5) got deletes_known_delete [of E v sid inst vm w] show ?thesis
      by (auto simp: preserves_def w_def dest: deletes_known_calls)
  qed
qed

interpretation known: run_invariant E "deletes_known E" for E
proof
  show "deletes_known E s" if "trace s = []" for s
    using that by (simp add: deletes_known_def)
qed (auto simp: deletes_known_def [of _ "_\<lparr>machine := _\<rparr>"] deletes_known_def [of _ "_\<lparr>osenv := _, dhcpIPCacheStore := _\<rparr>"]
     deletes_known_def [THEN iffD1] is_delete_def call_class_defs
     intro!: deletes_known_keeps known_create known_delete keeps_intros)

text \<open>
  C4. The provider never deletes a VM blindly: in the history of any run, through any operations on any
  machines, failures and restarts, every request to delete a VM is for an ID that a read made before, in
  the same service instance, had answered with.
\<close>

theorem deletes_only_what_was_read:
  assumes "reachable E s" and "trace s = h @ CallDeleteInstance sid vm # rest"
  shows "\<exists>i. got_instance E h sid i \<and> PvmInstanceID i = Some vm"
  using known.reachable_I [OF assms(1)] assms(2) unfolding deletes_known_def by blast

lemma demo_delete_reached:
  "\<exists>h rest. trace (perform (demo_env ''ACTIVE'') (DoDelete demo_machine) demo_scope_world)
     = h @ CallDeleteInstance ''S'' ''id-0'' # rest"
proof -
  let ?E = "demo_env ''ACTIVE''"
  obtain u where u: "newMachineScope ?E demo_scope_world = (Val (Inr demo_scope), u)"
      and m: "machine u = demo_machine" "providerStatus u = zero_status\<lparr>ServiceInstanceID := Some ''S''\<rparr>"
    using demo_scope_ready .
  have "\<exists>v h. delete ?E demo_scope u = (Val (Inr ()), v) \<and> trace v = h @ [CallDeleteInstance ''S'' ''id-0'']"
    using m by (simp add: delete_def getMachineInstance_def GetInstanceByName_def getMachineInternalIP_run machine_ip_def
        DeleteInstance_def cache_Delete_run client_calls prog_simps Let_def demo_scope_def demo_defs)
  then obtain v h where v: "delete ?E demo_scope u = (Val (Inr ()), v)" "trace v = h @ [CallDeleteInstance ''S'' ''id-0'']"
    by blast
  obtain y t where t: "delete_fin ?E demo_scope v = (y, t)" by fastforce
  have "keeps (calls_in (\<lambda>_. True)) (delete_fin ?E demo_scope)" unfolding delete_fin_def by (intro keeps_intros TrueI)
  from keepsD [OF this t] v(2) have "\<exists>rest. trace t = h @ CallDeleteInstance ''S'' ''id-0'' # rest"
    by (auto simp: calls_in_def)
  moreover have "demo_scope_world\<lparr>machine := demo_machine\<rparr> = demo_scope_world" by (simp add: demo_scope_world_def)
  ultimately show ?thesis using u v(1) t by (simp add: on_machine_def delete_act.run_eq bnd_run) blast
qed

theorem deletes_only_what_was_read_witness:
  "\<exists>s h rest i. reachable (demo_env ''ACTIVE'') s \<and> trace s = h @ CallDeleteInstance ''S'' ''id-0'' # rest
     \<and> got_instance (demo_env ''ACTIVE'') h ''S'' i \<and> PvmInstanceID i = Some ''id-0''"
proof -
  have "reachable (demo_env ''ACTIVE'') demo_scope_world"
    by (rule reachable.start) (simp_all add: demo_scope_world_def)
  then have r: "reachable (demo_env ''ACTIVE'') (perform (demo_env ''ACTIVE'') (DoDelete demo_machine) demo_scope_world)"
    by (rule reachable.step)
  obtain h rest where t: "trace (perform (demo_env ''ACTIVE'') (DoDelete demo_machine) demo_scope_world)
     = h @ CallDeleteInstance ''S'' ''id-0'' # rest"
    using demo_delete_reached by blast
  from deletes_only_what_was_read [OF r t] r t show ?thesis by blast
qed

section \<open>How many requests a run makes\<close>

definition counts :: "(call \<Rightarrow> bool) \<Rightarrow> scope_world \<Rightarrow> nat" where
  "counts P s = length (filter P (trace s))"

lemma mach_newMachineScope: "keeps same_machine (newMachineScope E)"
  unfolding newMachineScope_def by (intro keeps_intros TrueI)

context machine_action
begin

lemma at_most_run:
  assumes "\<And>c. setup_call c \<or> report_call c \<Longrightarrow> \<not> P c" and "\<And>sc. at_most P n (op sc)" and "\<And>sc. at_most P 0 (fin sc)"
  shows "at_most P n run"
proof -
  have "at_most P (0 + (n + 0)) run"
    unfolding run_eq
    by (intro at_most_bnd at_most_case_sum assms(2,3) at_most_leaf keeps_intros; simp add: assms(1))
  then show ?thesis by simp
qed

text \<open>Around the reconciler's part there are only calls that set the scope up and that report.\<close>

lemma run_parts:
  assumes "run s = (x, t)" and "\<And>c. setup_call c \<or> report_call c \<Longrightarrow> P c" and "\<And>sc. keeps (calls_in P) (fin sc)"
  shows "calls_in P s t \<or> (\<exists>sc u y v. calls_in P s u \<and> machine u = machine s \<and> op sc u = (y, v) \<and> calls_in P v t)"
proof -
  obtain y u where u: "newMachineScope E s = (y, u)" by fastforce
  have "keeps (calls_in P) (newMachineScope E)" by (intro keeps_intros) (simp add: assms(2))
  from keepsD [OF this u] have su: "calls_in P s u" .
  have err: "calls_in P a b" if "handleMachineError e action a = (z, b)" for e a b and z :: "(goerr + unit) outcome"
    by (rule keepsD [OF keeps_handleMachineError that]) (simp add: assms(2))
  have pf: "calls_in P a b" if "patchAndFail E sc action e a = (z, b)" for sc e a b z
    by (rule keepsD [OF keeps_patchAndFail that]) (simp_all add: assms(2))
  show ?thesis
  proof (cases "\<exists>sc. y = Val (Inr sc)")
    case False
    with assms(1) u su show ?thesis
      by (auto simp: run_eq bnd_run gets_run split: run_splits dest: err intro: calls.R_trans)
  next
    case True
    then obtain sc where sc: "y = Val (Inr sc)" by blast
    obtain z v where v: "op sc u = (z, v)" by fastforce
    have "calls_in P v t"
      using assms(1) u sc v
      by (auto simp: run_eq bnd_run split: run_splits dest: pf keepsD [OF assms(3)] intro: calls.R_refl)
    with su v keepsD [OF mach_newMachineScope u] show ?thesis by (auto simp: same_machine_def)
  qed
qed

end

lemma at_most_delete: "at_most is_delete 1 (delete E r)"
  unfolding at_most_def
proof
  fix s
  obtain x t where run: "delete E r s = (x, t)" by fastforce
  from delete_delete_cases [OF run]
  show "\<exists>tr. trace (snd (delete E r s)) = trace s @ tr \<and> length (filter is_delete tr) \<le> 1"
  proof (elim disjE exE conjE)
    assume "calls_in (\<lambda>c. \<not> is_delete c) s t"
    then show ?thesis by (auto simp: run calls_in_def list_all_iff filter_empty_conv)
  next
    fix v vm sid rest
    assume "calls_in (\<lambda>c. \<not> is_delete c) s v" "trace t = trace v @ CallDeleteInstance sid vm # rest"
      "list_all (\<lambda>c. \<not> is_delete c) rest"
    then show ?thesis by (auto simp: run calls_in_def list_all_iff filter_empty_conv)
  qed
qed

lemma at_most_fin:
  assumes "\<And>c. report_call c \<Longrightarrow> \<not> P c"
  shows "at_most P n (create_fin E sc)" "at_most P n (delete_fin E sc)" "at_most P n (update_fin E sc)"
  unfolding create_fin_def delete_fin_def update_fin_def by (intro at_most_leaf keeps_intros; simp add: assms)+

lemma setup_report_calls: "setup_call c \<or> report_call c \<Longrightarrow> \<not> is_create c" "setup_call c \<or> report_call c \<Longrightarrow> \<not> is_delete c"
  by (auto simp: is_create_def is_delete_def)

lemma no_create_in: "keeps (calls_in (\<lambda>c. \<not> is_create c)) (delete E r)"
  by (intro keeps_intros) (auto simp: is_create_def delete_call_def)

lemma action_counts:
  "at_most is_create 1 (Create E)" "at_most is_delete 1 (Create E)"
  "at_most is_create 0 (Delete E)" "at_most is_delete 1 (Delete E)"
  by (rule create_act.at_most_run delete_act.at_most_run; (rule at_most_create at_most_create_delete at_most_delete
      at_most_leaf [OF no_create_in] at_most_fin)?; use setup_report_calls in blast)+

text \<open>A VM is neither created nor deleted by the other operations.\<close>

definition no_vm_request :: "call \<Rightarrow> bool" where
  "no_vm_request c \<longleftrightarrow> \<not> is_create c \<and> \<not> is_delete c"

fun vm_request_ops :: "provider_op \<Rightarrow> bool" where
  "vm_request_ops (DoCreate _) = True"
| "vm_request_ops (DoDelete _) = True"
| "vm_request_ops _ = False"

lemma on_machine_calls: "keeps (calls_in P) run \<Longrightarrow> calls_in P s (on_machine m run s)"
  unfolding on_machine_def keeps_def by (drule spec [of _ "s\<lparr>machine := m\<rparr>"]) (simp add: calls_in_def)

lemma perform_no_vm_request:
  assumes "\<not> vm_request_ops op"
  shows "calls_in no_vm_request s (perform E op s)"
proof -
  have quiet: "no_vm_request c" if "setup_call c \<or> report_call c \<or> controller_call c \<or> update_call c \<or> exists_call c" for c
    using that by (cases c) (auto simp: no_vm_request_def is_create_def is_delete_def call_class_defs)
  have run: "calls_in no_vm_request s (snd (m s))" if "keeps (calls_in no_vm_request) m" for m :: "(scope_world, 'a) prog"
    using that by (simp add: keeps_def)
  show ?thesis
    using assms
    by (cases op) (auto intro!: on_machine_calls run keeps_actions(2) keeps_Exists keeps_controllers quiet
        simp: calls_in_def [of _ _ "_\<lparr>osenv := _, dhcpIPCacheStore := _\<rparr>"])
qed

definition is_DoCreate :: "provider_op \<Rightarrow> bool" where
  "is_DoCreate op \<longleftrightarrow> (\<exists>m. op = DoCreate m)"

lemma counts_on_machine: "at_most P n run \<Longrightarrow> counts P (on_machine m run s) \<le> counts P s + n"
  unfolding on_machine_def at_most_def counts_def by (drule spec [of _ "s\<lparr>machine := m\<rparr>"]) auto

lemma counts_calls: "calls_in (\<lambda>c. \<not> P c) s t \<Longrightarrow> counts P t = counts P s"
  by (auto simp: calls_in_def counts_def list_all_iff filter_empty_conv)

lemma counts_perform:
  "counts is_create (perform E op s) \<le> counts is_create s + (if is_DoCreate op then 1 else 0)"
  "counts is_delete (perform E op s) \<le> counts is_delete s + (if vm_request_ops op then 1 else 0)"
proof -
  have "counts is_create (perform E op s) = counts is_create s" "counts is_delete (perform E op s) = counts is_delete s"
    if "\<not> vm_request_ops op"
    using perform_no_vm_request [OF that, of s E]
    by (auto intro!: counts_calls simp: calls_in_def no_vm_request_def list_all_iff)
  moreover have "counts is_create (perform E (DoCreate m) s) \<le> counts is_create s + 1"
    "counts is_delete (perform E (DoCreate m) s) \<le> counts is_delete s + 1"
    "counts is_create (perform E (DoDelete m) s) \<le> counts is_create s + 0"
    "counts is_delete (perform E (DoDelete m) s) \<le> counts is_delete s + 1" for m
    using counts_on_machine action_counts by (metis perform.simps)+
  ultimately show "counts is_create (perform E op s) \<le> counts is_create s + (if is_DoCreate op then 1 else 0)"
    "counts is_delete (perform E op s) \<le> counts is_delete s + (if vm_request_ops op then 1 else 0)"
    by (cases op; auto simp: is_DoCreate_def simp del: perform.simps)+
qed

text \<open>
  C6. A run sends no more requests to create VMs than there were calls of \<open>Create\<close>, and no more requests to
  delete VMs than calls of \<open>Create\<close> and \<open>Delete\<close>, whatever the sequence of operations and whatever fails.
\<close>

theorem requests_bounded:
  "counts is_create (fold (perform E) ops s) \<le> counts is_create s + length (filter is_DoCreate ops)
   \<and> counts is_delete (fold (perform E) ops s) \<le> counts is_delete s + length (filter vm_request_ops ops)"
proof (induction ops arbitrary: s)
  case (Cons op ops)
  from Cons [of "perform E op s"] counts_perform [of E op s] show ?case by (auto split: if_splits)
qed simp

end
