(* ===== verification/Fleet.thy ===== *)
theory Fleet
  imports Lifecycle
begin

text \<open>
  What the provider does to the VMs, as a specification on the list of VMs that exist and the requests that
  launched and removed them: \<open>fleet_spec\<close> says, for each operation, how the list may change and which
  requests it may add. The VMs of a state are those the answers of the cloud in its history say exist:
  \<open>fleet\<close> replays the history. The operations of the actuator and the other controllers implement the
  specification (\<open>provider_refines_fleet\<close>).
\<close>

section \<open>The VMs that exist\<close>

text \<open>A VM: its service instance, its ID there, and the name it was requested with.\<close>

record vm_entry =
  fl_service :: string
  fl_ID :: string
  fl_name :: string

type_synonym fleet = "vm_entry list"

definition without :: "string \<times> string \<Rightarrow> fleet \<Rightarrow> fleet" where
  "without vm F = filter (\<lambda>e. (fl_service e, fl_ID e) \<noteq> vm) F"

definition vm_effect :: "env \<Rightarrow> call list \<Rightarrow> call \<Rightarrow> fleet \<Rightarrow> fleet" where
  "vm_effect E h c F =
     (case c of
        CallCreateInstance sid p \<Rightarrow>
          (case e_CreateInstance E h sid p of
             Inr (Some l) \<Rightarrow>
               F @ map (\<lambda>vm. \<lparr>fl_service = sid, fl_ID = vm, fl_name = c_ServerName p\<rparr>) (List.map_filter PvmInstanceID l)
           | _ \<Rightarrow> F)
      | CallDeleteInstance sid vm \<Rightarrow>
          (case e_DeleteInstance E h sid vm of Inr _ \<Rightarrow> without (sid, vm) F | Inl _ \<Rightarrow> F)
      | _ \<Rightarrow> F)"

text \<open>The recursion is over the history, the last call first.\<close>

fun fleet_rev :: "env \<Rightarrow> call list \<Rightarrow> fleet" where
  "fleet_rev E [] = []"
| "fleet_rev E (c # h) = vm_effect E (rev h) c (fleet_rev E h)"

definition fleet :: "env \<Rightarrow> call list \<Rightarrow> fleet" where
  "fleet E tr = fleet_rev E (rev tr)"

lemma fleet_Nil [simp]: "fleet E [] = []"
  by (simp add: fleet_def)

lemma fleet_snoc: "fleet E (tr @ [c]) = vm_effect E tr c (fleet E tr)"
  by (simp add: fleet_def)

lemma vm_effect_quiet: "no_vm_request c \<Longrightarrow> vm_effect E h c F = F"
  by (cases c) (auto simp: vm_effect_def no_vm_request_def is_create_def is_delete_def)

lemma fleet_quiet: "list_all no_vm_request tr' \<Longrightarrow> fleet E (tr @ tr') = fleet E tr"
  by (induction tr' rule: rev_induct) (simp_all add: fleet_snoc vm_effect_quiet flip: append_assoc)

lemma fleet_calls: "calls_in no_vm_request s t \<Longrightarrow> fleet E (trace t) = fleet E (trace s)"
  by (auto simp: calls_in_def fleet_quiet)

section \<open>The requests for VMs\<close>

text \<open>
  The fleet is the VMs that exist and the requests sent for them, in order: \<open>Launch sid name\<close> for a VM of that
  name in a service instance, \<open>Remove (sid, vm)\<close> for the deletion of one. A request that the cloud refuses is
  one too.
\<close>

datatype vm_request = Launch string string | Remove "string \<times> string"

record fleet_state =
  fl_vms :: fleet
  fl_requests :: "vm_request list"

definition vm_request_of :: "call \<Rightarrow> vm_request option" where
  "vm_request_of c =
     (case c of
        CallCreateInstance sid p \<Rightarrow> Some (Launch sid (c_ServerName p))
      | CallDeleteInstance sid vm \<Rightarrow> Some (Remove (sid, vm))
      | _ \<Rightarrow> None)"

definition fleet_after :: "env \<Rightarrow> call list \<Rightarrow> fleet_state" where
  "fleet_after E tr = \<lparr>fl_vms = fleet E tr, fl_requests = List.map_filter vm_request_of tr\<rparr>"

lemma vm_request_of_quiet: "no_vm_request c \<Longrightarrow> vm_request_of c = None"
  by (cases c) (auto simp: vm_request_of_def no_vm_request_def is_create_def is_delete_def)

lemma no_requests: "list_all no_vm_request tr \<Longrightarrow> List.map_filter vm_request_of tr = []"
  by (induction tr) (simp_all add: map_filter_simps vm_request_of_quiet)

lemma map_filter_append: "List.map_filter f (xs @ ys) = List.map_filter f xs @ List.map_filter f ys"
  by (simp add: List.map_filter_def)

lemma fleet_after_quiet: "list_all no_vm_request tr' \<Longrightarrow> fleet_after E (tr @ tr') = fleet_after E tr"
  by (simp add: fleet_after_def fleet_quiet map_filter_append no_requests)

lemma fleet_after_calls: "calls_in no_vm_request s t \<Longrightarrow> fleet_after E (trace t) = fleet_after E (trace s)"
  by (auto simp: calls_in_def fleet_after_quiet)

text \<open>The one request for a VM in a part of the history decides what that part does to the fleet.\<close>

lemma fleet_after_one:
  assumes "list_all no_vm_request a" and "list_all no_vm_request b" and "vm_request_of c = Some req"
  shows "fleet_after E (h @ a @ c # b)
    = \<lparr>fl_vms = vm_effect E (h @ a) c (fleet E h), fl_requests = List.map_filter vm_request_of h @ [req]\<rparr>"
proof -
  have "fleet E (h @ a @ c # b) = fleet E ((h @ a) @ [c])"
    using fleet_quiet [OF assms(2), of E "h @ a @ [c]"] by simp
  then show ?thesis
    using assms by (simp only: fleet_snoc fleet_quiet) (simp add: fleet_after_def map_filter_append map_filter_simps no_requests)
qed

section \<open>The specification\<close>

text \<open>
  An operation that may remove sends no request, or exactly one, for a VM that it is allowed to remove, which
  then is gone or, if the cloud refused, still there. One that may launch sends no request, or exactly one,
  for a VM of the given name; the VMs the cloud answers are added, none if it refused.
\<close>

definition may_remove :: "(string \<times> string \<Rightarrow> bool) \<Rightarrow> fleet_state \<Rightarrow> fleet_state \<Rightarrow> bool" where
  "may_remove allowed F G \<longleftrightarrow> G = F \<or>
     (\<exists>vm. allowed vm \<and> fl_requests G = fl_requests F @ [Remove vm]
        \<and> (fl_vms G = fl_vms F \<or> fl_vms G = without vm (fl_vms F)))"

definition may_launch :: "string \<Rightarrow> fleet_state \<Rightarrow> fleet_state \<Rightarrow> bool" where
  "may_launch name F G \<longleftrightarrow> G = F \<or>
     (\<exists>sid ids. fl_requests G = fl_requests F @ [Launch sid name]
        \<and> fl_vms G = fl_vms F @ map (\<lambda>vm. \<lparr>fl_service = sid, fl_ID = vm, fl_name = name\<rparr>) ids)"

text \<open>
  \<open>found vm\<close> and \<open>stopped vm\<close>: the operation has read that VM, and read it as shut off.
\<close>

fun fleet_spec ::
    "(string \<times> string \<Rightarrow> bool) \<Rightarrow> (string \<times> string \<Rightarrow> bool) \<Rightarrow> provider_op \<Rightarrow> fleet_state \<Rightarrow> fleet_state \<Rightarrow> bool" where
  "fleet_spec found stopped (DoCreate m) F G \<longleftrightarrow> (\<exists>H. may_remove stopped F H \<and> may_launch (m_Name m) H G)"
| "fleet_spec found stopped (DoDelete m) F G \<longleftrightarrow> may_remove found F G"
| "fleet_spec found stopped _ F G \<longleftrightarrow> G = F"

definition found_in :: "env \<Rightarrow> 'x world_scheme \<Rightarrow> 'x world_scheme \<Rightarrow> string \<times> string \<Rightarrow> bool" where
  "found_in E s t = (\<lambda>(sid, vm). \<exists>i. read_in E s t sid i \<and> PvmInstanceID i = Some vm)"

definition stopped_in :: "env \<Rightarrow> 'x world_scheme \<Rightarrow> 'x world_scheme \<Rightarrow> string \<times> string \<Rightarrow> bool" where
  "stopped_in E s t = (\<lambda>(sid, vm). \<exists>i. read_in E s t sid i \<and> PvmInstanceID i = Some vm
     \<and> InstanceStatus i = Some ''SHUTOFF'')"

section \<open>The operations implement it\<close>

text \<open>A request to create a VM, if it is one, is for a VM of that name.\<close>

definition named :: "string \<Rightarrow> call \<Rightarrow> bool" where
  "named name c \<longleftrightarrow> (\<forall>sid p. c = CallCreateInstance sid p \<longrightarrow> c_ServerName p = name)"

lemma create_effect:
  "\<exists>ids. vm_effect E h (CallCreateInstance sid p) F
     = F @ map (\<lambda>vm. \<lparr>fl_service = sid, fl_ID = vm, fl_name = c_ServerName p\<rparr>) ids"
  by (auto simp: vm_effect_def intro: exI [of _ "[]"] split: sum.split option.split)

lemma may_launch_one_create:
  assumes "list_all (\<lambda>c. \<not> is_delete c) tr" and "length (filter is_create tr) \<le> 1" and "list_all (named name) tr"
  shows "may_launch name (fleet_after E h) (fleet_after E (h @ tr))"
proof (cases "\<exists>c \<in> set tr. is_create c")
  case False
  with assms(1) have "list_all no_vm_request tr" by (auto simp: list_all_iff no_vm_request_def)
  then show ?thesis by (simp add: may_launch_def fleet_after_quiet)
next
  case True
  then obtain c a b where tr: "tr = a @ c # b" and c: "is_create c" using split_list by meson
  with assms have ab: "list_all no_vm_request a" "list_all no_vm_request b"
    by (auto simp: list_all_iff no_vm_request_def filter_empty_conv)
  from c tr assms(3) obtain sid p where p: "c = CallCreateInstance sid p" "c_ServerName p = name"
    by (auto simp: is_create_def named_def)
  then have "vm_request_of c = Some (Launch sid name)" by (simp add: vm_request_of_def)
  from fleet_after_one [OF ab this, of E h] create_effect [of E "h @ a" sid p "fleet E h"] p show ?thesis
    by (auto simp: may_launch_def tr fleet_after_def)
qed

lemma keeps_gets_bnd:
  "(\<And>m. keeps (calls_in (Q m)) (f m)) \<Longrightarrow> bnd (gets g) f s = (x, t) \<Longrightarrow> calls_in (Q (g s)) s t"
  by (auto simp: bnd_run gets_run dest: keepsD)

lemma named_launchInstance [keeps_intros]: "keeps (calls_in (named (m_Name m))) (launchInstance E p m cfg ud)"
  unfolding launchInstance_def CreateInstance_def by (intro keeps_intros) (auto simp: named_def)

lemma create_named:
  assumes "create E r s = (x, t)"
  shows "calls_in (named (m_Name (machine s))) s t"
  using assms unfolding create_def
  by (rule keeps_gets_bnd [rotated]) (intro keeps_intros; simp add: named_def)

lemma may_remove_delete:
  assumes "allowed (sid, vm)" and "list_all no_vm_request rest"
  shows "may_remove allowed (fleet_after E h) (fleet_after E (h @ CallDeleteInstance sid vm # rest))"
  using assms fleet_after_one [of "[]" rest "CallDeleteInstance sid vm" "Remove (sid, vm)" E h]
  by (auto simp: may_remove_def vm_request_of_def vm_effect_def fleet_after_def split: sum.split)

lemma may_remove_mono: "may_remove P F G \<Longrightarrow> (\<And>vm. P vm \<Longrightarrow> Q vm) \<Longrightarrow> may_remove Q F G"
  unfolding may_remove_def by blast

lemma removeStoppedMachine_fleet:
  assumes "removeStoppedMachine E p m s = (r, t)"
  shows "may_remove (stopped_in E s t) (fleet_after E (trace s)) (fleet_after E (trace t))"
proof -
  obtain tr where tr: "trace t = trace s @ tr" "list_all (\<lambda>c. \<not> is_create c) tr"
    using keepsD [OF calls.keeps_removeStoppedMachine [where P = "\<lambda>c. \<not> is_create c"] assms]
    by (auto simp: calls_in_def is_create_def)
  show ?thesis
  proof (cases "\<exists>sid vm. CallDeleteInstance sid vm \<in> set tr")
    case False
    with tr(2) have "list_all no_vm_request tr" by (auto simp: no_vm_request_def is_delete_def list_all_iff)
    then show ?thesis by (simp add: tr(1) fleet_after_quiet may_remove_def)
  next
    case True
    then obtain sid vm inst u where u: "GetInstanceByName E p (m_Name m) s = (Val (Inr (Some inst)), u)"
        "InstanceStatus inst = Some ''SHUTOFF''" "PvmInstanceID inst = Some vm" "cl_InstanceID p = Some sid"
        "t = u\<lparr>trace := trace u @ [CallDeleteInstance sid vm]\<rparr>"
      using removeStoppedMachine_deletes [OF assms tr(1)] by blast
    have "keeps (calls_in no_vm_request) (GetInstanceByName E p (m_Name m))"
      by (intro keeps_intros) (auto simp: no_vm_request_def is_delete_def is_create_def)
    from fleet_after_calls [OF keepsD [OF this u(1)]] have "fleet_after E (trace u) = fleet_after E (trace s)" .
    moreover have "read_in E s t sid inst"
      using GetInstanceByName_read [OF u(1)] u(4,5) by (auto intro: read_in_mono)
    ultimately show ?thesis
      using u may_remove_delete [of "stopped_in E s t" sid vm "[]" E "trace u"] by (auto simp: stopped_in_def)
  qed
qed

lemma stopped_in_mono:
  assumes "\<exists>tr. trace u = trace s @ tr" and "\<exists>tr. trace t = trace v @ tr" and "stopped_in E u v vm"
  shows "stopped_in E s t vm"
  using assms(3) read_in_mono [OF _ assms(1,2)] by (auto simp: stopped_in_def)

lemma create_fleet:
  fixes s t :: "'x scope_world_scheme"
  assumes "create E r s = (x, t)"
  shows "\<exists>H. may_remove (stopped_in E s t) (fleet_after E (trace s)) H
    \<and> may_launch (m_Name (machine s)) H (fleet_after E (trace t))"
proof -
  let ?name = "m_Name (machine s)"
  obtain tr where tr: "trace t = trace s @ tr" "length (filter is_create tr) \<le> 1" "list_all (named ?name) tr"
    using at_mostD [OF at_most_create assms] create_named [OF assms] by (auto simp: calls_in_def)
  from create_delete_cases [OF assms] consider "calls_in (\<lambda>c. \<not> is_delete c) s t"
    | u y v where "isMaster E s = (Val (Inr False), u)" "removeStoppedMachine E (powerVSClient_of r) (machine s) u = (y, v)"
        "calls_in (\<lambda>c. \<not> is_delete c) v t"
    by metis
  then show ?thesis
  proof cases
    case 1
    with tr have "may_launch ?name (fleet_after E (trace s)) (fleet_after E (trace t))"
      by (auto simp: calls_in_def intro: may_launch_one_create)
    then show ?thesis by (auto simp: may_remove_def)
  next
    case 2
    have "keeps (calls_in no_vm_request) (isMaster E)"
      by (intro keeps_intros) (auto simp: no_vm_request_def is_delete_def is_create_def)
    from keepsD [OF this 2(1)] have su: "calls_in no_vm_request s u" .
    have uv: "\<exists>tr. trace v = trace u @ tr"
      using keepsD [OF calls.keeps_removeStoppedMachine [where P = "\<lambda>_. True"] 2(2)] by (auto simp: calls_in_def)
    from 2(3) obtain tr' where tr': "trace t = trace v @ tr'" "list_all (\<lambda>c. \<not> is_delete c) tr'"
      by (auto simp: calls_in_def)
    with su uv tr have "length (filter is_create tr') \<le> 1" "list_all (named ?name) tr'" by (auto simp: calls_in_def)
    then have "may_launch ?name (fleet_after E (trace v)) (fleet_after E (trace t))" using tr' by (simp add: may_launch_one_create)
    moreover have "may_remove (stopped_in E s t) (fleet_after E (trace s)) (fleet_after E (trace v))"
      using removeStoppedMachine_fleet [OF 2(2)] fleet_after_calls [OF su, of E] su tr'(1)
      by (auto simp: calls_in_def elim!: may_remove_mono intro: stopped_in_mono)
    ultimately show ?thesis by blast
  qed
qed

lemma found_in_mono:
  assumes "\<exists>tr. trace u = trace s @ tr" and "\<exists>tr. trace t = trace v @ tr" and "found_in E u v vm"
  shows "found_in E s t vm"
  using assms(3) read_in_mono [OF _ assms(1,2)] by (auto simp: found_in_def)

lemma delete_fleet:
  fixes s t :: "'x scope_world_scheme"
  assumes "delete E r s = (x, t)"
  shows "may_remove (found_in E s t) (fleet_after E (trace s)) (fleet_after E (trace t))"
proof -
  obtain tr where tr: "trace t = trace s @ tr" "list_all (\<lambda>c. \<not> is_create c) tr"
    using keepsD [OF no_create_in assms] by (auto simp: calls_in_def)
  show ?thesis
  proof (cases "calls_in (\<lambda>c. \<not> is_delete c) s t")
    case True
    with tr have "list_all no_vm_request tr" by (auto simp: calls_in_def no_vm_request_def list_all_iff)
    then show ?thesis by (simp add: tr(1) fleet_after_quiet may_remove_def)
  next
    case False
    then obtain inst u v vm sid rest where c: "getMachineInstance E r s = (Val (Inr (Some inst)), u)"
        "PvmInstanceID inst = Some vm" "cl_InstanceID (powerVSClient_of r) = Some sid"
        "if machine_ip (machine s) \<noteq> [] then removeFromApplicationLoadBalancers E r (machine_ip (machine s)) u = (Val (Inr ()), v)
         else v = u" "calls_in (\<lambda>c. \<not> is_delete c) s v"
        "trace t = trace v @ CallDeleteInstance sid vm # rest" "list_all (\<lambda>c. \<not> is_delete c) rest"
      using delete_delete_cases [OF assms] by blast
    from c(5-7) tr have quiet: "calls_in no_vm_request s v" "list_all no_vm_request rest"
      by (auto simp: calls_in_def no_vm_request_def list_all_iff)
    have "\<exists>tr. trace v = trace u @ tr"
      using c(4) keepsD [OF keeps_removeFromApplicationLoadBalancers(1) [where P = "\<lambda>_. True"]]
      by (fastforce simp: calls_in_def split: if_splits)
    then have "read_in E s t sid inst"
      using getMachineInstance_read [OF c(1)] c(3,6) by (auto intro: read_in_mono)
    then have "found_in E s t (sid, vm)" using c(2) by (auto simp: found_in_def)
    from may_remove_delete [of "found_in E s t", OF this quiet(2), of E "trace v"] show ?thesis
      by (simp add: c(6) fleet_after_calls [OF quiet(1)])
  qed
qed

lemma no_vm_quiet: "setup_call c \<or> report_call c \<Longrightarrow> no_vm_request c"
  using setup_report_calls by (simp add: no_vm_request_def)

lemma fin_no_vm: "keeps (calls_in no_vm_request) (create_fin E sc)" "keeps (calls_in no_vm_request) (delete_fin E sc)"
  unfolding create_fin_def delete_fin_def by (intro keeps_intros; simp add: no_vm_quiet)+

lemma calls_in_later: "calls_in P s t \<Longrightarrow> \<exists>tr. trace t = trace s @ tr"
  by (auto simp: calls_in_def)

lemma Create_fleet:
  fixes s t :: "'x scope_world_scheme"
  assumes "Create E s = (x, t)"
  shows "\<exists>H. may_remove (stopped_in E s t) (fleet_after E (trace s)) H
    \<and> may_launch (m_Name (machine s)) H (fleet_after E (trace t))"
  using create_act.run_parts [OF assms no_vm_quiet fin_no_vm(1), simplified]
proof (elim disjE exE conjE)
  assume "calls_in no_vm_request s t"
  then show ?thesis by (auto simp: fleet_after_calls may_remove_def may_launch_def)
next
  fix sc u y v
  assume part: "calls_in no_vm_request s u" "machine u = machine s" "create E sc u = (y, v)" "calls_in no_vm_request v t"
  have "may_remove (stopped_in E s t) F G" if "may_remove (stopped_in E u v) F G" for F G
    using that stopped_in_mono [OF part(1) [THEN calls_in_later] part(4) [THEN calls_in_later], of E]
    by (rule may_remove_mono)
  with create_fleet [OF part(3)] part show ?thesis by (auto simp: fleet_after_calls)
qed

lemma Delete_fleet:
  fixes s t :: "'x scope_world_scheme"
  assumes "Delete E s = (x, t)"
  shows "may_remove (found_in E s t) (fleet_after E (trace s)) (fleet_after E (trace t))"
  using delete_act.run_parts [OF assms no_vm_quiet fin_no_vm(2), simplified]
proof (elim disjE exE conjE)
  assume "calls_in no_vm_request s t"
  then show ?thesis by (simp add: fleet_after_calls may_remove_def)
next
  fix sc u y v
  assume part: "calls_in no_vm_request s u" "delete E sc u = (y, v)" "calls_in no_vm_request v t"
  have "may_remove (found_in E s t) (fleet_after E (trace u)) (fleet_after E (trace v))"
    using delete_fleet [OF part(2)] found_in_mono [OF part(1) [THEN calls_in_later] part(3) [THEN calls_in_later], of E]
    by (rule may_remove_mono)
  with part show ?thesis by (simp add: fleet_after_calls)
qed

text \<open>
  C2. The provider implements the specification of the fleet, whatever the cloud and the API server answer
  and wherever an operation stops: \<open>Create\<close> for a machine first sends at most one request to remove a VM,
  which it has just read as shut off, and after it at most one request to launch, under the name of the
  machine; \<open>Delete\<close> sends at most one request to remove, for a VM it has just read, and none to launch;
  \<open>Update\<close>, \<open>Exists\<close>, the other controllers and restarts send none. Every VM that appears comes from that one
  launch, and only the VM of that one removal can disappear.
\<close>

theorem provider_refines_fleet:
  "fleet_spec (found_in E s (perform E op s)) (stopped_in E s (perform E op s)) op
     (fleet_after E (trace s)) (fleet_after E (trace (perform E op s)))"
proof (cases op)
  case (DoCreate m)
  obtain x t where "Create E (s\<lparr>machine := m\<rparr>) = (x, t)" by fastforce
  with Create_fleet [OF this] DoCreate show ?thesis
    by (simp add: on_machine_def stopped_in_def read_in_def)
next
  case (DoDelete m)
  obtain x t where "Delete E (s\<lparr>machine := m\<rparr>) = (x, t)" by fastforce
  with Delete_fleet [OF this] DoDelete show ?thesis
    by (simp add: on_machine_def found_in_def read_in_def)
qed (use fleet_after_calls [OF perform_no_vm_request] in \<open>auto simp del: perform.simps\<close>)

end
