(* ===== verification/Consistent_Cloud.thy ===== *)
theory Consistent_Cloud
  imports Fleet
begin

text \<open>
  The reconciler against a cloud that keeps its word. Nothing is assumed of the cloud elsewhere; here the
  predicate \<open>consistent_cloud\<close> says what the Power VS service documents: its listing and its reads show the
  VMs that exist, and deletions succeed. Then \<open>delete\<close> ends with success and a VM of the machine is gone,
  unless its IP cannot be deregistered from the load balancers, and a VM that \<open>create\<close> has launched is found by
  \<open>exists\<close>.
\<close>

section \<open>The cloud\<close>

definition vm_reference :: "vm_entry \<Rightarrow> PVMInstanceReference" where
  "vm_reference e = \<lparr>ref_PvmInstanceID = Some (fl_ID e), ref_ServerName = Some (fl_name e)\<rparr>"

definition in_service :: "string \<Rightarrow> fleet \<Rightarrow> fleet" where
  "in_service sid F = filter (\<lambda>e. fl_service e = sid) F"

definition consistent_cloud :: "env \<Rightarrow> string \<Rightarrow> bool" where
  "consistent_cloud E sid \<longleftrightarrow>
     (\<forall>h. e_GetInstances E h sid = Inr (Some (map vm_reference (in_service sid (fleet E h)))))
   \<and> (\<forall>h vm. if vm \<in> fl_ID ` set (in_service sid (fleet E h))
        then \<exists>i. e_GetInstance E h sid vm = Inr (Some i) \<and> PvmInstanceID i = Some vm
        else \<exists>err. e_GetInstance E h sid vm = Inl err)
   \<and> (\<forall>h vm. e_DeleteInstance E h sid vm = Inr ())"

section \<open>Looking for a VM\<close>

text \<open>The VMs that stand for a machine: the one its status names, or one of its name.\<close>

definition stands_for :: "string \<Rightarrow> 'x scope_world_scheme \<Rightarrow> vm_entry \<Rightarrow> bool" where
  "stands_for sid s e \<longleftrightarrow> fl_service e = sid \<and>
     (fl_ID e \<noteq> [] \<and> InstanceID (providerStatus s) = Some (fl_ID e) \<or> fl_name e = m_Name (machine s))"

lemma GetInstance_cloud:
  assumes "consistent_cloud E sid" and "cl_InstanceID p = Some sid"
  shows "if vm \<in> fl_ID ` set (in_service sid (fleet E (trace s)))
    then \<exists>i. GetInstance E p vm s = (Val (Inr (Some i)), s\<lparr>trace := trace s @ [CallGetInstance sid vm]\<rparr>)
      \<and> PvmInstanceID i = Some vm
    else \<exists>err. GetInstance E p vm s = (Val (Inl err), s\<lparr>trace := trace s @ [CallGetInstance sid vm]\<rparr>)"
  using assms by (auto simp: consistent_cloud_def GetInstance_def prog_simps split: if_splits)

lemma reads_no_vm: "no_vm_request (CallGetInstances sid)" "no_vm_request (CallGetInstance sid vm)"
  by (simp_all add: no_vm_request_def is_create_def is_delete_def)

lemma fleet_read [simp]: "no_vm_request c \<Longrightarrow> fleet E (h @ [c]) = fleet E h"
  by (simp add: fleet_quiet)

lemma find_name:
  "findP (\<lambda>i. bnd (deref (ref_ServerName i)) (\<lambda>n. ret (n = name))) (map vm_reference F) s
     = (Val (map_option vm_reference (List.find (\<lambda>e. fl_name e = name) F)), s)"
  by (induction F) (auto simp: prog_simps vm_reference_def)

lemma GetInstanceByName_cloud:
  fixes s :: "'x world_scheme"
  assumes "consistent_cloud E sid" and "cl_InstanceID p = Some sid"
  shows "\<exists>r t. GetInstanceByName E p name s = (Val r, t) \<and> calls_in no_vm_request s t \<and> same_rest s t
    \<and> (case List.find (\<lambda>e. fl_name e = name) (in_service sid (fleet E (trace s))) of
         None \<Rightarrow> r = Inl ErrorInstanceNotFound
       | Some e \<Rightarrow> \<exists>i. r = Inr (Some i) \<and> PvmInstanceID i = Some (fl_ID e))"
proof -
  let ?F = "in_service sid (fleet E (trace s))"
  let ?u = "s\<lparr>trace := trace s @ [CallGetInstances sid]\<rparr>"
  have list: "GetInstances E p s = (Val (Inr (Some (map vm_reference ?F))), ?u)"
    using assms by (simp add: consistent_cloud_def GetInstances_def prog_simps)
  have F: "fleet E (trace ?u) = fleet E (trace s)" by (simp add: reads_no_vm)
  show ?thesis
  proof (cases "List.find (\<lambda>e. fl_name e = name) ?F")
    case None
    then show ?thesis
      using list by (simp add: GetInstanceByName_def prog_simps find_name calls_in_def reads_no_vm same_rest_def)
  next
    case (Some e)
    then have "fl_ID e \<in> fl_ID ` set ?F" using find_SomeD by fastforce
    with GetInstance_cloud [OF assms, of "fl_ID e" ?u] F obtain i where
        "GetInstance E p (fl_ID e) ?u = (Val (Inr (Some i)), ?u\<lparr>trace := trace ?u @ [CallGetInstance sid (fl_ID e)]\<rparr>)"
        "PvmInstanceID i = Some (fl_ID e)"
      by auto
    with list Some show ?thesis
      by (simp add: GetInstanceByName_def prog_simps find_name calls_in_def reads_no_vm same_rest_def vm_reference_def)
  qed
qed

text \<open>What looking for the VM of a machine may answer.\<close>

definition looked_for :: "env \<Rightarrow> string \<Rightarrow> 'x scope_world_scheme \<Rightarrow> goerr + PVMInstance option \<Rightarrow> bool" where
  "looked_for E sid s x \<longleftrightarrow>
     (\<exists>e i. e \<in> set (fleet E (trace s)) \<and> stands_for sid s e \<and> x = Inr (Some i) \<and> PvmInstanceID i = Some (fl_ID e))
   \<or> (\<forall>e \<in> set (fleet E (trace s)). \<not> stands_for sid s e) \<and> x = Inl ErrorInstanceNotFound"

text \<open>The lookup by name decides if the status names no VM that exists.\<close>

lemma byName_cloud:
  fixes s u :: "'x scope_world_scheme"
  assumes "consistent_cloud E sid" and "cl_InstanceID p = Some sid" and same: "fleet E (trace u) = fleet E (trace s)"
    and none: "\<forall>ident. InstanceID (providerStatus s) = Some ident \<longrightarrow> ident = []
      \<or> ident \<notin> fl_ID ` set (in_service sid (fleet E (trace s)))"
  shows "\<exists>x t. GetInstanceByName E p (m_Name (machine s)) u = (Val x, t) \<and> calls_in no_vm_request u t \<and> same_rest u t
    \<and> looked_for E sid s x"
proof -
  let ?F = "fleet E (trace s)"
  have iff: "stands_for sid s e \<longleftrightarrow> fl_service e = sid \<and> fl_name e = m_Name (machine s)" if "e \<in> set ?F" for e
    using none that by (auto simp: stands_for_def in_service_def)
  let ?found = "List.find (\<lambda>e. fl_name e = m_Name (machine s)) (in_service sid ?F)"
  obtain x t where x: "GetInstanceByName E p (m_Name (machine s)) u = (Val x, t)" "calls_in no_vm_request u t"
      "same_rest u t" "case ?found of None \<Rightarrow> x = Inl ErrorInstanceNotFound
       | Some e \<Rightarrow> \<exists>i. x = Inr (Some i) \<and> PvmInstanceID i = Some (fl_ID e)"
    using GetInstanceByName_cloud [OF assms(1,2), of "m_Name (machine s)" u] same by auto
  have "looked_for E sid s x"
  proof (cases ?found)
    case None
    then have "\<forall>e \<in> set ?F. \<not> stands_for sid s e"
      using iff by (auto simp: find_None_iff in_service_def)
    with x(4) None show ?thesis by (simp add: looked_for_def)
  next
    case (Some e)
    then have "e \<in> set ?F" "stands_for sid s e"
      using iff by (auto simp: in_service_def dest!: find_SomeD)
    moreover obtain i where "x = Inr (Some i)" "PvmInstanceID i = Some (fl_ID e)" using x(4) Some by auto
    ultimately show ?thesis unfolding looked_for_def by blast
  qed
  with x(1-3) show ?thesis by blast
qed

lemma getMachineInstance_cloud:
  fixes s :: "'x scope_world_scheme"
  assumes "consistent_cloud E sid" and "cl_InstanceID (powerVSClient_of r) = Some sid"
  shows "\<exists>x t. getMachineInstance E r s = (Val x, t) \<and> calls_in no_vm_request s t \<and> same_rest s t \<and> looked_for E sid s x"
proof (cases "\<exists>ident. InstanceID (providerStatus s) = Some ident \<and> ident \<noteq> []")
  case False
  then have "getMachineInstance E r s = GetInstanceByName E (powerVSClient_of r) (m_Name (machine s)) s"
    by (auto simp: getMachineInstance_def prog_simps Let_def split: option.split)
  with byName_cloud [OF assms refl] False show ?thesis by metis
next
  case True
  then obtain ident where ident: "InstanceID (providerStatus s) = Some ident" "ident \<noteq> []" by blast
  let ?u = "s\<lparr>trace := trace s @ [CallGetInstance sid ident]\<rparr>"
  have u: "fleet E (trace ?u) = fleet E (trace s)" "calls_in no_vm_request s ?u" "same_rest s ?u"
    by (simp_all add: reads_no_vm calls_in_def same_rest_def)
  show ?thesis
  proof (cases "ident \<in> fl_ID ` set (in_service sid (fleet E (trace s)))")
    case True
    then obtain e where e: "e \<in> set (fleet E (trace s))" "stands_for sid s e" "fl_ID e = ident"
      using ident by (auto simp: in_service_def stands_for_def)
    obtain i where i: "GetInstance E (powerVSClient_of r) ident s = (Val (Inr (Some i)), ?u)" "PvmInstanceID i = Some ident"
      using GetInstance_cloud [OF assms, of ident s] True by auto
    from e i(2) have "looked_for E sid s (Inr (Some i))" unfolding looked_for_def by blast
    with i(1) ident u show ?thesis by (auto simp: getMachineInstance_def prog_simps Let_def)
  next
    case False
    with GetInstance_cloud [OF assms, of ident s] ident
    have "getMachineInstance E r s = GetInstanceByName E (powerVSClient_of r) (m_Name (machine s)) ?u"
      by (auto simp: getMachineInstance_def prog_simps Let_def)
    with byName_cloud [OF assms u(1)] False ident u(2,3) show ?thesis
      by (fastforce intro: calls.R_trans rest.R_trans)
  qed
qed

section \<open>Deleting\<close>

text \<open>No two VMs share an ID, and the VMs that stand for the machine are one.\<close>

definition unambiguous :: "string \<Rightarrow> 'x scope_world_scheme \<Rightarrow> fleet \<Rightarrow> bool" where
  "unambiguous sid s F \<longleftrightarrow> distinct (map (\<lambda>e. (fl_service e, fl_ID e)) F)
     \<and> (\<forall>e \<in> set F. \<forall>e' \<in> set F. stands_for sid s e \<longrightarrow> stands_for sid s e' \<longrightarrow> e = e')"

lemma without_stands_for:
  assumes "unambiguous sid s F" and "e \<in> set F" and "stands_for sid s e"
  shows "without (sid, fl_ID e) F = filter (\<lambda>e. \<not> stands_for sid s e) F"
  unfolding without_def
proof (rule filter_cong [OF refl])
  fix x
  assume x: "x \<in> set F"
  have "fl_service e = sid" using assms(3) by (simp add: stands_for_def)
  moreover have "(fl_service x, fl_ID x) = (fl_service e, fl_ID e) \<Longrightarrow> x = e"
    using assms(1,2) x unfolding unambiguous_def distinct_map inj_on_def by blast
  moreover have "stands_for sid s x \<Longrightarrow> x = e" using assms x unfolding unambiguous_def by blast
  ultimately show "((fl_service x, fl_ID x) \<noteq> (sid, fl_ID e)) = (\<not> stands_for sid s x)" using assms(3) by auto
qed

text \<open>A machine that is gone is not reported as existing.\<close>

lemma exists_gone:
  assumes "consistent_cloud E sid" and "cl_InstanceID (powerVSClient_of r) = Some sid"
    and "\<not> (\<exists>e \<in> set (fleet E (trace s)). stands_for sid s e)"
  shows "\<exists>x u. exists_op E r s = (Val x, u) \<and> x \<noteq> Inr True"
proof -
  obtain t where t: "getMachineInstance E r s = (Val (Inl ErrorInstanceNotFound), t)"
    using getMachineInstance_cloud [OF assms(1,2), of s] assms(3) unfolding looked_for_def by blast
  show ?thesis
    by (auto simp: exists_op_def t bnd_run gets_run ok_run fail_run ret_run Now_def do_call_run Let_def
        split: option.split)
qed

lemma exists_found:
  assumes "consistent_cloud E sid" and "cl_InstanceID (powerVSClient_of r) = Some sid"
    and "e \<in> set (fleet E (trace s))" and "stands_for sid s e"
  shows "\<exists>u. exists_op E r s = (Val (Inr True), u)"
proof -
  obtain i t where t: "getMachineInstance E r s = (Val (Inr (Some i)), t)"
    using getMachineInstance_cloud [OF assms(1,2), of s] assms(3,4) unfolding looked_for_def by blast
  show ?thesis by (simp add: exists_op_def t bnd_run gets_run ok_run Let_def)
qed

text \<open>What a deletion whose deregistration does not succeed leaves: no VM is launched or removed.\<close>

lemma delete_stuck:
  fixes s :: "'x scope_world_scheme"
  assumes "getMachineInstance E r s = (Val (Inr (Some i)), u)" and "machine_ip (machine s) \<noteq> []"
    and "fst (removeFromApplicationLoadBalancers E r (machine_ip (machine s)) u) \<noteq> Val (Inr ())"
  shows "fst (delete E r s) \<noteq> Val (Inr ())" "fleet E (trace (snd (delete E r s))) = fleet E (trace s)"
proof -
  have m: "machine u = machine s" by (rule getMachineInstance_rest [OF assms(1)])
  show "fst (delete E r s) \<noteq> Val (Inr ())"
    using assms m by (auto simp: delete_def getMachineInternalIP_run prog_simps split: run_splits)
  obtain x t where run: "delete E r s = (x, t)" by fastforce
  with delete_delete_cases [OF run] assms have "calls_in (\<lambda>c. \<not> is_delete c) s t" by fastforce
  moreover have "calls_in (\<lambda>c. \<not> is_create c) s t" using keepsD [OF no_create_in run] .
  ultimately have "calls_in no_vm_request s t" by (auto simp: calls_in_def no_vm_request_def list_all_iff)
  with run show "fleet E (trace (snd (delete E r s))) = fleet E (trace s)" by (simp add: fleet_calls)
qed

lemma deregister_quiet:
  assumes "removeFromApplicationLoadBalancers E r ip s = (x, t)"
  shows "calls_in no_vm_request s t" "same_rest s t"
proof -
  have "no_vm_request c" if "lb_read c" for c
    using that by (cases c) (simp_all add: no_vm_request_def is_create_def is_delete_def)
  moreover have "no_vm_request (CallDeletePoolMember lb pool m)" for lb pool m
    by (simp add: no_vm_request_def is_create_def is_delete_def)
  ultimately show "calls_in no_vm_request s t"
    by (rule keepsD [OF keeps_removeFromApplicationLoadBalancers(1) assms])
  show "same_rest s t" by (rule keepsD [OF keeps_removeFromApplicationLoadBalancers(2) [where P = "\<lambda>_. True"] assms]) simp_all
qed

text \<open>One that does succeed.\<close>

lemma delete_goes:
  fixes s :: "'x scope_world_scheme"
  assumes "consistent_cloud E sid" and "cl_InstanceID (powerVSClient_of r) = Some sid"
    and get: "getMachineInstance E r s = (Val (Inr (Some i)), u)" "PvmInstanceID i = Some vm"
    and quiet: "calls_in no_vm_request s u" "same_rest s u"
    and lb: "machine_ip (machine s) = [] \<or>
      fst (removeFromApplicationLoadBalancers E r (machine_ip (machine s)) u) = Val (Inr ())"
  shows "\<exists>t. delete E r s = (Val (Inr ()), t) \<and> fleet E (trace t) = without (sid, vm) (fleet E (trace s))
    \<and> dhcpIPCacheStore t = (dhcpIPCacheStore s)(m_Name (machine s) := None)
    \<and> machine t = machine s \<and> providerStatus t = providerStatus s"
proof -
  obtain v where v: "if machine_ip (machine s) = [] then v = u
      else removeFromApplicationLoadBalancers E r (machine_ip (machine s)) u = (Val (Inr ()), v)"
    using lb by (cases "machine_ip (machine s) = []"; cases "removeFromApplicationLoadBalancers E r (machine_ip (machine s)) u") auto
  have "calls_in no_vm_request u v" "same_rest u v"
    using v deregister_quiet [of E r "machine_ip (machine s)" u] by (auto simp: calls.R_refl rest.R_refl split: if_splits)
  with quiet have sv: "calls_in no_vm_request s v" "same_rest s v" by (blast intro: calls.R_trans rest.R_trans)+
  let ?t = "v\<lparr>trace := trace v @ [CallDeleteInstance sid vm],
    dhcpIPCacheStore := (dhcpIPCacheStore v)(m_Name (machine s) := None)\<rparr>"
  note rest = same_rest_scope [OF quiet(2)] same_rest_scope [OF sv(2)]
  have "delete E r s = (Val (Inr ()), ?t)"
    using get v assms(1,2) rest
    by (auto simp: delete_def consistent_cloud_def DeleteInstance_def getMachineInternalIP_run cache_Delete_run prog_simps
        split: if_splits)
  moreover have "fleet E (trace ?t) = without (sid, vm) (fleet E (trace s))"
    using assms(1) fleet_calls [OF sv(1), of E] by (simp add: fleet_snoc vm_effect_def consistent_cloud_def)
  ultimately show ?thesis using rest by simp
qed

lemma exists_iff:
  fixes s t :: "'x scope_world_scheme"
  assumes "consistent_cloud E sid" and "cl_InstanceID (powerVSClient_of r) = Some sid"
    and "machine t = machine s" and "providerStatus t = providerStatus s"
  shows "\<exists>x u. exists_op E r t = (Val x, u) \<and> (x = Inr True \<longleftrightarrow> (\<exists>e \<in> set (fleet E (trace t)). stands_for sid s e))"
proof -
  have "stands_for sid t = stands_for sid s" by (simp add: stands_for_def fun_eq_iff assms(3,4))
  with exists_gone [OF assms(1,2), of t] exists_found [OF assms(1,2), of _ t] show ?thesis by metis
qed

text \<open>
  C10. Deleting makes progress. If the cloud is consistent, then one of two things happens, whatever the load
  balancers do. Either \<open>delete\<close> found a VM, but the deregistration of the machine's IP did not succeed: then
  \<open>delete\<close> does not succeed and the VMs are those from before. Or \<open>delete\<close> returns with success: then, if VMs
  stand for the machine, one of them and no VM with another ID is gone, the cache has forgotten the machine, and
  \<open>exists\<close> answers true exactly if a further VM stands for the machine. In particular, if a single VM
  stands for the machine and IDs are unique, exactly that VM is gone and \<open>exists\<close> no longer finds it.
\<close>

theorem delete_makes_progress:
  fixes s :: "'x scope_world_scheme"
  assumes "consistent_cloud E sid" and "cl_InstanceID (powerVSClient_of r) = Some sid"
  shows "(\<exists>i u. machine_ip (machine s) \<noteq> [] \<and> getMachineInstance E r s = (Val (Inr (Some i)), u)
      \<and> fst (removeFromApplicationLoadBalancers E r (machine_ip (machine s)) u) \<noteq> Val (Inr ())
      \<and> fst (delete E r s) \<noteq> Val (Inr ()) \<and> fleet E (trace (snd (delete E r s))) = fleet E (trace s))
    \<or> (\<exists>t. delete E r s = (Val (Inr ()), t)
      \<and> (if \<exists>e \<in> set (fleet E (trace s)). stands_for sid s e
          then \<exists>e \<in> set (fleet E (trace s)). stands_for sid s e
            \<and> fleet E (trace t) = without (sid, fl_ID e) (fleet E (trace s))
          else fleet E (trace t) = fleet E (trace s))
      \<and> (unambiguous sid s (fleet E (trace s)) \<longrightarrow>
          fleet E (trace t) = filter (\<lambda>e. \<not> stands_for sid s e) (fleet E (trace s)))
      \<and> dhcpIPCacheStore t = (dhcpIPCacheStore s)(m_Name (machine s) := None)
      \<and> (\<exists>x u. exists_op E r t = (Val x, u)
          \<and> (x = Inr True \<longleftrightarrow> (\<exists>e \<in> set (fleet E (trace t)). stands_for sid s e))))" (is "?stuck \<or> ?goes")
proof -
  let ?F = "fleet E (trace s)"
  obtain x u where u: "getMachineInstance E r s = (Val x, u)" "calls_in no_vm_request s u" "same_rest s u"
      and x: "looked_for E sid s x"
    using getMachineInstance_cloud [OF assms, of s] by blast
  note rest = same_rest_scope [OF u(3)]
  show ?thesis
  proof (cases "\<exists>e \<in> set ?F. stands_for sid s e")
    case False
    with x have none: "x = Inl ErrorInstanceNotFound" "filter (\<lambda>e. \<not> stands_for sid s e) ?F = ?F"
      by (auto simp: looked_for_def filter_id_conv)
    let ?t = "u\<lparr>dhcpIPCacheStore := (dhcpIPCacheStore u)(m_Name (machine s) := None)\<rparr>"
    have "delete E r s = (Val (Inr ()), ?t)"
      using u(1) none rest by (simp add: delete_def bnd_run gets_run cache_Delete_run ok_run)
    with exists_iff [OF assms, of ?t s] False none(2) rest fleet_calls [OF u(2), of E] have ?goes by simp
    then show ?thesis ..
  next
    case True
    with x obtain e i where e: "e \<in> set ?F" "stands_for sid s e" "x = Inr (Some i)" "PvmInstanceID i = Some (fl_ID e)"
      by (auto simp: looked_for_def)
    show ?thesis
    proof (cases "machine_ip (machine s) = [] \<or>
        fst (removeFromApplicationLoadBalancers E r (machine_ip (machine s)) u) = Val (Inr ())")
      case False
      with u(1) e(3) delete_stuck [of E r s i u] have ?stuck by blast
      then show ?thesis ..
    next
      case True
      from delete_goes [OF assms u(1) [unfolded e(3)] e(4) u(2,3) True] obtain t where
          t: "delete E r s = (Val (Inr ()), t)" "fleet E (trace t) = without (sid, fl_ID e) ?F"
            "dhcpIPCacheStore t = (dhcpIPCacheStore s)(m_Name (machine s) := None)"
            "machine t = machine s" "providerStatus t = providerStatus s"
        by blast
      with exists_iff [OF assms t(4,5)] e(1,2) without_stands_for have ?goes by (intro exI [of _ t]) auto
      then show ?thesis ..
    qed
  qed
qed

section \<open>Creating\<close>

lemma launch_in_fleet:
  assumes "launchInstance E p m cfg ud s = (Val (Inr i), t)" and "cl_InstanceID p = Some sid"
  shows "\<exists>e \<in> set (fleet E (trace t)). fl_service e = sid \<and> fl_name e = m_Name m"
proof -
  obtain params v lo w where create: "CreateInstance E p params v = (Val (Inr lo), w)" "c_ServerName params = m_Name m"
      and "\<exists>l vm. lo = Some l \<and> l \<noteq> [] \<and> PvmInstanceID (hd l) = Some vm \<and> GetInstance E p vm w = (Val (Inr i), t)"
    using assms(1)
    by (auto simp: launchInstance_def fail_run split: sum.splits elim!: bndE_okE dest!: launch_read_back simp del: append_Cons)
  then obtain l vm where l: "lo = Some l" "l \<noteq> []" "PvmInstanceID (hd l) = Some vm"
      and read: "GetInstance E p vm w = (Val (Inr i), t)"
    by blast
  have "e_CreateInstance E (trace v) sid params = Inr (Some l)" "trace w = trace v @ [CallCreateInstance sid params]"
    using create(1) l(1) assms(2) by (auto simp: CreateInstance_def prog_simps)
  moreover have "fleet E (trace t) = fleet E (trace w)"
    using read assms(2) by (auto simp: GetInstance_def prog_simps reads_no_vm)
  moreover have "vm \<in> set (List.map_filter PvmInstanceID l)"
    using l(2,3) by (cases l) (simp_all add: List.map_filter_simps)
  ultimately have "\<lparr>fl_service = sid, fl_ID = vm, fl_name = m_Name m\<rparr> \<in> set (fleet E (trace t))"
    using create(2) by (auto simp: fleet_snoc vm_effect_def)
  then show ?thesis by force
qed

lemma create_launches:
  fixes s t :: "'x scope_world_scheme"
  assumes "create E r s = (Val x, t)" and "x = Inr () \<or> x = Inl (RequeueAfterError requeueAfterSeconds)"
  shows "\<exists>spec ud u inst v. launchInstance E (powerVSClient_of r) (machine s) spec ud u = (Val (Inr inst), v)
    \<and> requeueIfInstanceBuilding E inst v = (Val x, t)"
  using assms
  by (auto simp: create_def prog_simps Errorf_w_def split: run_splits) blast+

lemma mach_create: "keeps same_machine (create E r)"
  unfolding create_def removeStoppedMachine_def launchInstance_def isMaster_def getUserData_def
    setProviderStatus_def requeueIfInstanceBuilding_def
  by (intro keeps_intros TrueI)

text \<open>
  C11. What was created is found: if the cloud is consistent and \<open>create\<close> has succeeded or asks to be called
  again because the VM is being built, then there is a VM of the machine's name, and \<open>exists\<close> answers true,
  so that the machine is not created a second time.
\<close>

theorem created_is_found:
  fixes s t :: "'x scope_world_scheme"
  assumes "consistent_cloud E sid" and "cl_InstanceID (powerVSClient_of r) = Some sid"
    and "create E r s = (Val x, t)" and "x = Inr () \<or> x = Inl (RequeueAfterError requeueAfterSeconds)"
  shows "(\<exists>e \<in> set (fleet E (trace t)). fl_service e = sid \<and> fl_name e = m_Name (machine s))
    \<and> (\<exists>u. exists_op E r t = (Val (Inr True), u))"
proof -
  obtain spec ud u inst v where launch: "launchInstance E (powerVSClient_of r) (machine s) spec ud u = (Val (Inr inst), v)"
      and build: "requeueIfInstanceBuilding E inst v = (Val x, t)"
    using create_launches [OF assms(3,4)] by blast
  have "keeps (calls_in no_vm_request) (requeueIfInstanceBuilding E inst)"
    by (intro keeps_intros) (simp add: no_vm_request_def is_create_def is_delete_def)
  from fleet_calls [OF keepsD [OF this build]] launch_in_fleet [OF launch assms(2)]
  obtain e where e: "e \<in> set (fleet E (trace t))" "fl_service e = sid" "fl_name e = m_Name (machine s)" by auto
  moreover have "machine t = machine s" using keepsD [OF mach_create assms(3)] by (simp add: same_machine_def)
  ultimately show ?thesis using exists_found [OF assms(1,2) e(1)] by (auto simp: stands_for_def)
qed

section \<open>A consistent cloud for the examples\<close>

text \<open>The VMs depend on what creations and deletions answer, not on what reads answer.\<close>

lemma fleet_cong:
  assumes "e_CreateInstance E = e_CreateInstance E'" and "e_DeleteInstance E = e_DeleteInstance E'"
  shows "fleet E h = fleet E' h"
  by (induction h rule: rev_induct) (simp_all add: fleet_snoc vm_effect_def assms split: call.split)

text \<open>It launches a VM with an ID made from the number of calls before.\<close>

definition demo_launcher :: env where
  "demo_launcher = (demo_env ''ACTIVE'')\<lparr>
     e_CreateInstance := \<lambda>h _ p. Inr (Some [(demo_vm ''ACTIVE'')\<lparr>PvmInstanceID := Some (digits (length h))\<rparr>])\<rparr>"

definition demo_cloud :: env where
  "demo_cloud = demo_launcher\<lparr>
     e_GetInstances := \<lambda>h sid. Inr (Some (map vm_reference (in_service sid (fleet demo_launcher h)))),
     e_GetInstance := \<lambda>h sid vm. if vm \<in> fl_ID ` set (in_service sid (fleet demo_launcher h))
       then Inr (Some ((demo_vm ''ACTIVE'')\<lparr>PvmInstanceID := Some vm\<rparr>)) else Inl down\<rparr>"

lemma demo_cloud_fleet: "fleet demo_cloud h = fleet demo_launcher h"
  by (rule fleet_cong) (simp_all add: demo_cloud_def)

lemma demo_cloud_consistent: "consistent_cloud demo_cloud sid"
  unfolding consistent_cloud_def demo_cloud_fleet
  by (simp add: demo_cloud_def) (simp add: demo_launcher_def demo_env_def)

definition demo_running :: scope_world where
  "demo_running = demo_scope_world\<lparr>trace := [CallCreateInstance ''S'' \<lparr>c_ImageID = [], c_KeyPairName = [], c_Networks = [],
     c_ServerName = ''vm-0'', c_Memory = NaN, c_Processors = NaN, c_ProcType = [], c_SysType = [], c_UserData = []\<rparr>]\<rparr>"

lemma demo_running_fleet:
  "fleet demo_cloud (trace demo_running) = [\<lparr>fl_service = ''S'', fl_ID = ''0'', fl_name = ''vm-0''\<rparr>]"
  unfolding demo_cloud_fleet
  by (simp add: demo_running_def fleet_def vm_effect_def demo_launcher_def demo_vm_def List.map_filter_simps digits.simps
      digit_chars)

theorem delete_makes_progress_witness:
  "\<exists>t x u. delete demo_cloud demo_scope demo_running = (Val (Inr ()), t) \<and> fleet demo_cloud (trace t) = []
     \<and> exists_op demo_cloud demo_scope t = (Val x, u) \<and> x \<noteq> Inr True"
proof -
  have demo: "machine_ip (machine demo_running) = []" "cl_InstanceID (powerVSClient_of demo_scope) = Some ''S''"
      "unambiguous ''S'' demo_running (fleet demo_cloud (trace demo_running))"
      "filter (\<lambda>e. \<not> stands_for ''S'' demo_running e) (fleet demo_cloud (trace demo_running)) = []"
    unfolding demo_running_fleet
    by (simp_all add: unambiguous_def demo_scope_def demo_running_def demo_scope_world_def
        demo_machine_def machine_ip_def stands_for_def)
  from delete_makes_progress [OF demo_cloud_consistent demo(2), of demo_running] demo show ?thesis by auto
qed

lemma demo_cloud_fields:
  "e_GetInstances demo_cloud h sid = Inr (Some (map vm_reference (in_service sid (fleet demo_launcher h))))"
  "e_GetInstance demo_cloud h sid vm = (if vm \<in> fl_ID ` set (in_service sid (fleet demo_launcher h))
     then Inr (Some ((demo_vm ''ACTIVE'')\<lparr>PvmInstanceID := Some vm\<rparr>)) else Inl down)"
  "e_CreateInstance demo_cloud h sid p = Inr (Some [(demo_vm ''ACTIVE'')\<lparr>PvmInstanceID := Some (digits (length h))\<rparr>])"
  "e_CreateInstance demo_launcher h sid p = Inr (Some [(demo_vm ''ACTIVE'')\<lparr>PvmInstanceID := Some (digits (length h))\<rparr>])"
  "e_GetNetworks demo_cloud h sid = Inr (Some [\<lparr>nw_Name = Some ''other'', nw_NetworkID = Some ''n-0''\<rparr>,
     \<lparr>nw_Name = Some ''net'', nw_NetworkID = Some ''n-1''\<rparr>])"
  by (simp_all add: demo_cloud_def demo_launcher_def demo_env_def)

lemma demo_cloud_create: "\<exists>t. create demo_cloud demo_scope demo_scope_world = (Val (Inr ()), t)"
proof -
  let ?s = "demo_scope_world" and ?p = "powerVSClient_of demo_scope"
  let ?u = "?s\<lparr>trace := [CallGetInstances ''S'']\<rparr>"
  have m: "machine ?s = demo_machine" "trace ?s = []" "cl_InstanceID ?p = Some ''S''" "providerSpec demo_scope = Some demo_config"
    by (simp_all add: demo_scope_world_def demo_scope_def)
  have stop: "removeStoppedMachine demo_cloud ?p demo_machine ?s = (Val (Inr ()), ?u)"
    by (simp add: removeStoppedMachine_def GetInstanceByName_def demo_cloud_fields in_service_def client_calls prog_simps m)
  obtain i t where launch: "launchInstance demo_cloud ?p demo_machine demo_config [] ?u = (Val (Inr (Some i)), t)"
      "InstanceStatus i = Some ''ACTIVE''"
    by (simp add: launchInstance_def processorValue_def getImageID_def getNetworkID_def demo_cloud_fields fleet_def
        vm_effect_def in_service_def List.map_filter_simps client_calls prog_simps m demo_config_def
        zero_config_def zero_resource_def demo_vm_def Collect_conv_if)
  have "validateMachine demo_machine = Inr ()" "NodeRef (m_Status demo_machine) = None" "UserDataSecret demo_config = None"
    by (simp_all add: validateMachine_def lookup_label_def demo_machine_def demo_config_def zero_config_def)
  with stop launch m show ?thesis
    by (simp add: create_def isMaster_run getUserData_def requeueIfInstanceBuilding_def prog_simps
        InstanceStateNameBuild_def)
qed

theorem created_is_found_witness:
  "\<exists>t u. create demo_cloud demo_scope demo_scope_world = (Val (Inr ()), t)
     \<and> exists_op demo_cloud demo_scope t = (Val (Inr True), u)"
proof -
  obtain t where t: "create demo_cloud demo_scope demo_scope_world = (Val (Inr ()), t)"
    using demo_cloud_create by blast
  have "cl_InstanceID (powerVSClient_of demo_scope) = Some ''S''" by (simp add: demo_scope_def)
  from created_is_found [OF demo_cloud_consistent this t] t show ?thesis by auto
qed

end
