(* ===== verification/Stubs.thy ===== *)
theory Stubs
  imports Reconciler
begin

text \<open>
  \<open>pkg/actuators/machine/stubs.go\<close>: the objects the unit tests of the package run the code on. The random
  strings of \<open>k8s.io/apimachinery\<close> in the names of secrets are a parameter. The lemmas are what the tests
  that use the objects expect of the code, for all values of the parameters instead of the tested ones:
  the definitions of the other theories pass these tests.
\<close>

section \<open>Definitions\<close>

definition defaultNamespace :: string where
  "defaultNamespace = ''default''"

definition credentialsSecretName :: string where
  "credentialsSecretName = ''powervs-credentials''"

definition nameLength :: nat where
  "nameLength = 5"

definition imageNamePrefix :: string where
  "imageNamePrefix = ''test-image''"

definition networkNamePrefix :: string where
  "networkNamePrefix = ''test-network''"

definition stub_instanceID :: string where
  "stub_instanceID = ''testInstanceID''"

record Secret =
  sec_Name :: string
  sec_Namespace :: string
  sec_Data :: strmap

definition stubUserDataSecret :: "string \<Rightarrow> Secret" where
  "stubUserDataSecret name = \<lparr>sec_Name = name, sec_Namespace = defaultNamespace,
     sec_Data = [''userData'' \<mapsto> ''userDataBlob'']\<rparr>"

definition stubPowerVSCredentialsSecret :: "string \<Rightarrow> Secret" where
  "stubPowerVSCredentialsSecret name = \<lparr>sec_Name = name, sec_Namespace = defaultNamespace,
     sec_Data = [''ibmcloud_api_key'' \<mapsto> ''api_key'']\<rparr>"

definition stubProviderConfig :: "string \<Rightarrow> PowerVSMachineProviderConfig" where
  "stubProviderConfig name = zero_config\<lparr>
     CredentialsSecret := Some name,
     MemoryGiB := 32,
     Processors := StrVal ''0.5'',
     KeyPairName := ''Test-KeyPair'',
     Image := zero_resource\<lparr>res_Type := ''Name'', res_Name := Some (imageNamePrefix @ ''-1'')\<rparr>,
     Network := zero_resource\<lparr>res_Type := ''Name'', res_Name := Some (networkNamePrefix @ ''-1'')\<rparr>,
     ServiceInstance := zero_resource\<lparr>res_Type := ''ID'', res_ID := Some stub_instanceID\<rparr>\<rparr>"

text \<open>The two machines differ in their names and in the load balancers of their specs.\<close>

definition fixture_machine :: "string \<Rightarrow> string \<Rightarrow> Machine" where
  "fixture_machine name rawSpec = \<lparr>m_Name = name, m_Namespace = defaultNamespace, m_ResourceVersion = [],
     m_Labels = Some [MachineClusterIDLabel \<mapsto> ''CLUSTERID''], m_Annotations = None, m_SpecLabels = None,
     m_ProviderSpec = Some rawSpec, m_ProviderID = None,
     m_Status = \<lparr>NodeRef = None, LastUpdated = None, ProviderStatus = None, Addresses = []\<rparr>\<rparr>"

definition stubMachine :: "env \<Rightarrow> (nat \<Rightarrow> string) \<Rightarrow> goerr + Machine" where
  "stubMachine E rand_String =
     (let credSecretName = credentialsSecretName @ ''-'' @ rand_String nameLength in
      case RawExtensionFromProviderSpec E (Some (stubProviderConfig credSecretName)) of
        Inl err \<Rightarrow> Inl err
      | Inr rawSpec \<Rightarrow> Inr (fixture_machine ''test'' rawSpec))"

definition stubProviderStatus :: "string \<Rightarrow> PowerVSMachineProviderStatus" where
  "stubProviderStatus serviceInstanceID = zero_status\<lparr>ServiceInstanceID := Some serviceInstanceID\<rparr>"

definition stubGetInstance :: PVMInstance where
  "stubGetInstance = \<lparr>PvmInstanceID = Some ''instance-id'', ServerName = Some ''instance'',
     InstanceStatus = Some ''ACTIVE'', SysType = [], Networks = []\<rparr>"

definition stubGetInstances :: "PVMInstance list" where
  "stubGetInstances = [stubGetInstance]"

definition stubInstanceWithBuildState :: PVMInstance where
  "stubInstanceWithBuildState = \<lparr>PvmInstanceID = Some ''instance-id'', ServerName = Some ''instance'',
     InstanceStatus = Some ''BUILD'', SysType = [], Networks = []\<rparr>"

definition stubGetImages :: "string \<Rightarrow> int \<Rightarrow> ImageReference list" where
  "stubGetImages nameprefix cnt =
     map (\<lambda>i. \<lparr>img_Name = Some (nameprefix @ ''-'' @ itoa i), img_ImageID = Some (''ID-'' @ nameprefix @ ''-'' @ itoa i)\<rparr>)
       [0..cnt - 1]"

definition stubGetNetworks :: "string \<Rightarrow> int \<Rightarrow> NetworkReference list" where
  "stubGetNetworks nameprefix cnt =
     map (\<lambda>i. \<lparr>nw_Name = Some (nameprefix @ ''-'' @ itoa i), nw_NetworkID = Some (''ID-'' @ nameprefix @ ''-'' @ itoa i)\<rparr>)
       [0..cnt - 1]"

definition stubGetDHCPServers :: "string \<Rightarrow> string \<Rightarrow> DHCPServer list" where
  "stubGetDHCPServers serverID networkID = [\<lparr>dhcp_ID = Some serverID, dhcp_Network = Some (Some networkID)\<rparr>]"

definition stubGetDHCPServerByID :: "string \<Rightarrow> string \<Rightarrow> string \<Rightarrow> DHCPServerDetail" where
  "stubGetDHCPServerByID ident ip mac = \<lparr>detail_ID = Some ident,
     Leases = [\<lparr>InstanceIP = Some ip, InstanceMacAddress = Some mac\<rparr>]\<rparr>"

definition stubGetNetworkWithName :: "string \<Rightarrow> string \<Rightarrow> NetworkReference list" where
  "stubGetNetworkWithName name ident = [\<lparr>nw_Name = Some name, nw_NetworkID = Some ident\<rparr>]"

definition stubControlPlaneMachine :: "env \<Rightarrow> (nat \<Rightarrow> string) \<Rightarrow> string list \<Rightarrow> string \<Rightarrow> goerr + Machine" where
  "stubControlPlaneMachine E rand_String loadBalancerNames loadBalancerType =
     (let credSecretName = credentialsSecretName @ ''-'' @ rand_String nameLength;
          config = stubProviderConfig credSecretName;
          cpMachine = config\<lparr>SpecLoadBalancers :=
            foldl (\<lambda>lbs lb. lbs @ [\<lparr>lbr_Name = lb, lbr_Type = loadBalancerType\<rparr>]) (SpecLoadBalancers config) loadBalancerNames\<rparr> in
      case RawExtensionFromProviderSpec E (Some cpMachine) of
        Inl err \<Rightarrow> Inl err
      | Inr rawSpec \<Rightarrow> Inr (fixture_machine ''test-vm'' rawSpec))"

definition stubGetLoadBalancerResult :: LoadBalancer where
  "stubGetLoadBalancerResult = \<lparr>lb_ID = Some ''id'', lb_Name = Some ''test-lb'',
     lb_ProvisioningStatus = Some loadBalancerActiveState, lb_Pools = []\<rparr>"

definition stubGetLoadBalancerCollections :: LoadBalancerCollection where
  "stubGetLoadBalancerCollections = \<lparr>LoadBalancers = [\<lparr>lb_ID = Some ''id'', lb_Name = Some ''test-lb'',
     lb_ProvisioningStatus = Some loadBalancerActiveState,
     lb_Pools = [\<lparr>pool_ID = Some ''pool-id'', pool_Name = Some ''pool-name''\<rparr>]\<rparr>], Next = None\<rparr>"

section \<open>Listings\<close>

lemma itoa_inj: "0 \<le> i \<Longrightarrow> 0 \<le> j \<Longrightarrow> itoa i = itoa j \<Longrightarrow> i = j"
  by (auto simp: itoa_def dest: digits_inj)

lemma stub_names_distinct:
  "distinct (map img_Name (stubGetImages prefix n))" "distinct (map nw_Name (stubGetNetworks prefix n))"
  by (auto simp: stubGetImages_def stubGetNetworks_def distinct_map inj_on_def dest: itoa_inj)

text \<open>Each name in a listing of the tests resolves to its ID, for any size of the listing.\<close>

lemma stub_resolves:
  fixes s :: "'x world_scheme"
  assumes "cl_InstanceID p = Some sid" and "0 \<le> i" "i < n" and "res_Type r = ''Name''" "res_Name r = Some (prefix @ ''-'' @ itoa i)"
  shows "e_GetImages E (trace s) sid = Inr (Some (stubGetImages prefix n)) \<Longrightarrow>
      getImageID E p r s = (Val (Inr (''ID-'' @ prefix @ ''-'' @ itoa i)), s\<lparr>trace := trace s @ [CallGetImages sid]\<rparr>)"
    and "e_GetNetworks E (trace s) sid = Inr (Some (stubGetNetworks prefix n)) \<Longrightarrow>
      getNetworkID E p r s = (Val (Inr (''ID-'' @ prefix @ ''-'' @ itoa i)), s\<lparr>trace := trace s @ [CallGetNetworks sid]\<rparr>)"
proof -
  let ?img = "\<lparr>img_Name = Some (prefix @ ''-'' @ itoa i), img_ImageID = Some (''ID-'' @ prefix @ ''-'' @ itoa i)\<rparr>"
  let ?nw = "\<lparr>nw_Name = Some (prefix @ ''-'' @ itoa i), nw_NetworkID = Some (''ID-'' @ prefix @ ''-'' @ itoa i)\<rparr>"
  have "?img \<in> set (stubGetImages prefix n)" "?nw \<in> set (stubGetNetworks prefix n)"
    using assms(2,3) by (auto simp: stubGetImages_def stubGetNetworks_def)
  moreover have "\<forall>x\<in>set (stubGetImages prefix n). img_Name x \<noteq> None" "\<forall>x\<in>set (stubGetNetworks prefix n). nw_Name x \<noteq> None"
    by (auto simp: stubGetImages_def stubGetNetworks_def)
  ultimately show
    "e_GetImages E (trace s) sid = Inr (Some (stubGetImages prefix n)) \<Longrightarrow>
      getImageID E p r s = (Val (Inr (''ID-'' @ prefix @ ''-'' @ itoa i)), s\<lparr>trace := trace s @ [CallGetImages sid]\<rparr>)"
    "e_GetNetworks E (trace s) sid = Inr (Some (stubGetNetworks prefix n)) \<Longrightarrow>
      getNetworkID E p r s = (Val (Inr (''ID-'' @ prefix @ ''-'' @ itoa i)), s\<lparr>trace := trace s @ [CallGetNetworks sid]\<rparr>)"
    using assms(1,4,5) stub_names_distinct
      image.resolve_Name_unique [of r _ E p s "stubGetImages prefix n" _ ?img]
      network.resolve_Name_unique [of r _ E p s "stubGetNetworks prefix n" _ ?nw]
    by (simp_all add: client_calls prog_simps)
qed

section \<open>Machines and secrets\<close>

lemma stub_machines_valid:
  "stubMachine E rnd = Inr m \<or> stubControlPlaneMachine E rnd lbs ty = Inr m \<Longrightarrow> validateMachine m = Inr ()"
  by (auto simp: stubMachine_def stubControlPlaneMachine_def fixture_machine_def validateMachine_def lookup_label_def
      Let_def split: sum.splits)

lemma stub_user_data:
  assumes "e_GetSecret E (trace s) (m_Namespace (machine s)) name = Inr (sec_Data (stubUserDataSecret name))"
    and "providerSpec sc = Some spec" "UserDataSecret spec = Some name"
  shows "fst (getUserData E sc s) = Val (Inr ''userDataBlob'')"
  using assms by (simp add: getUserData_def prog_simps stubUserDataSecret_def)

lemma stub_api_key:
  assumes "e_GetSecret E (trace s) ns name = Inr (sec_Data (stubPowerVSCredentialsSecret name))" and "name \<noteq> []"
  shows "fst (GetAPIKey E name ns s) = Val (Inr ''api_key'')"
  using assms by (simp add: GetAPIKey_def apiKeyFromSecret_def prog_simps stubPowerVSCredentialsSecret_def)

text \<open>With the status of the tests, a scope is for the service instance that is recorded there.\<close>

lemma stub_status_scope:
  assumes "newMachineScope E s = (Val (Inr sc), t)"
    and "ProviderStatusFromRawExtension E (ProviderStatus (m_Status (machine s))) = Inr (stubProviderStatus sid)"
  shows "cl_InstanceID (powerVSClient_of sc) = Some sid"
  using assms
  by (auto simp: newMachineScope_def stubProviderStatus_def Let_def gets_run modify_run ok_run fail_run
      elim!: bndE_okE bnd_ValE split: sum.splits dest!: NewValidatedClient_ok)

lemma half_parsed: "ParseFloat ''0.5'' = Inr (Finite False (1 / 2))"
  by code_simp

section \<open>Launching\<close>

text \<open>The request the fixture stands for.\<close>

definition fixture_request :: "Machine \<Rightarrow> string \<Rightarrow> PVMInstanceCreate" where
  "fixture_request m ud = \<lparr>c_ImageID = ''ID-test-image-1'', c_KeyPairName = ''Test-KeyPair'',
     c_Networks = [''ID-test-network-1''], c_ServerName = m_Name m, c_Memory = Finite False 32,
     c_Processors = Finite False (1 / 2), c_ProcType = [], c_SysType = [], c_UserData = EncodeToString ud\<rparr>"

text \<open>
  C39. The test of \<open>launchInstance\<close> (\<open>TestLaunchInstance\<close>), for listings of any size that have the image and the
  network of the test machine and for any answers to the two requests: the launch reads both listings,
  asks once for a VM with the image, network, memory and half processor of the fixture under the machine's
  name, reads the VM back if the cloud has accepted, and fails exactly if one of these two requests fails.
\<close>

theorem launchInstance_fixture:
  fixes s :: "'x world_scheme"
  assumes "cl_InstanceID p = Some sid" and "1 < n" and "1 < k"
    and "\<forall>h. e_GetImages E h sid = Inr (Some (stubGetImages imageNamePrefix n))"
    and "\<forall>h. e_GetNetworks E h sid = Inr (Some (stubGetNetworks networkNamePrefix k))"
    and "\<forall>h c. e_CreateInstance E h sid c = created" and "created = Inr (Some stubGetInstances) \<or> created = Inl err"
    and "\<forall>h i. e_GetInstance E h sid i = got"
  shows "\<exists>res. launchInstance E p m (stubProviderConfig secret) ud s =
      (Val res, s\<lparr>trace := trace s
         @ [CallGetImages sid, CallGetNetworks sid, CallCreateInstance sid (fixture_request m ud)]
         @ (if created = Inl err then [] else [CallGetInstance sid ''instance-id''])\<rparr>)
    \<and> ((\<exists>e. res = Inl e) \<longleftrightarrow> created = Inl err \<or> (\<exists>e. got = Inl e))"
proof -
  have img: "getImageID E p (Image (stubProviderConfig secret)) u
      = (Val (Inr ''ID-test-image-1''), u\<lparr>trace := trace u @ [CallGetImages sid]\<rparr>)" for u :: "'x world_scheme"
    using stub_resolves(1) [of p sid 1 n "Image (stubProviderConfig secret)" imageNamePrefix E u] assms(1,2,4)
    by (simp add: stubProviderConfig_def imageNamePrefix_def itoa_def digits.simps digit_chars)
  have net: "getNetworkID E p (Network (stubProviderConfig secret)) u
      = (Val (Inr ''ID-test-network-1''), u\<lparr>trace := trace u @ [CallGetNetworks sid]\<rparr>)" for u :: "'x world_scheme"
    using stub_resolves(2) [of p sid 1 k "Network (stubProviderConfig secret)" networkNamePrefix E u] assms(1,3,5)
    by (simp add: stubProviderConfig_def networkNamePrefix_def itoa_def digits.simps digit_chars)
  have spec: "processorValue (Processors (stubProviderConfig secret)) = Inr (Finite False (1 / 2))"
      "KeyPairName (stubProviderConfig secret) = ''Test-KeyPair''" "MemoryGiB (stubProviderConfig secret) = 32"
      "ToLower (ProcessorType (stubProviderConfig secret)) = []" "ToLower (SystemType (stubProviderConfig secret)) = []"
    using half_parsed by (simp_all add: stubProviderConfig_def processorValue_def zero_config_def ToLower_def)
  show ?thesis
    using assms(1,6,7,8)
    by (auto simp: launchInstance_def spec img net client_calls prog_simps stubGetInstances_def stubGetInstance_def
        fixture_request_def float64_of_int32_def split: sum.split)
qed

definition stub_env :: env where
  "stub_env = base_env\<lparr>e_GetImages := \<lambda>_ _. Inr (Some (stubGetImages imageNamePrefix 3)),
     e_GetNetworks := \<lambda>_ _. Inr (Some (stubGetNetworks networkNamePrefix 3)),
     e_CreateInstance := \<lambda>_ _ _. Inr (Some stubGetInstances),
     e_GetInstance := \<lambda>_ _ _. Inr (Some stubGetInstance)\<rparr>"

theorem launchInstance_fixture_witness:
  "\<exists>inst t. launchInstance stub_env demo_client (fixture_machine ''test'' []) (stubProviderConfig ''cred'') [] demo_world
     = (Val (Inr inst), t)"
proof -
  have "\<exists>res. launchInstance stub_env demo_client (fixture_machine ''test'' []) (stubProviderConfig ''cred'') [] demo_world =
      (Val res, demo_world\<lparr>trace := trace demo_world @ [CallGetImages ''S'', CallGetNetworks ''S'',
         CallCreateInstance ''S'' (fixture_request (fixture_machine ''test'' []) [])]
         @ (if Inr (Some stubGetInstances) = Inl down then [] else [CallGetInstance ''S'' ''instance-id''])\<rparr>)
    \<and> ((\<exists>e. res = Inl e) \<longleftrightarrow> Inr (Some stubGetInstances) = Inl down \<or> (\<exists>e. Inr (Some stubGetInstance) = (Inl e :: goerr + PVMInstance option)))"
    by (rule launchInstance_fixture [where n = 3 and k = 3]) (simp_all add: stub_env_def demo_client_def)
  then show ?thesis by (metis sum.exhaust sum.distinct(1))
qed

section \<open>Addresses and load balancers\<close>

text \<open>
  The tests of the DHCP lookup: with one network, one server and one lease, the lookup answers the IP of the
  lease exactly if the server is that of the network and the lease that of the VM.
\<close>

lemma dhcp_lease_ip_fixture:
  assumes "cl_InstanceID (powerVSClient_of r) = Some sid" and "providerSpec r = Some spec"
    and "res_Type (Network spec) = ''Name''" "res_Name (Network spec) = Some name"
    and "\<forall>h. e_GetNetworks E h sid = Inr (Some (stubGetNetworkWithName name nid))"
    and "\<forall>h. e_GetDHCPServers E h sid = Inr (stubGetDHCPServers srv snet)"
    and "\<forall>h. e_GetDHCPServer E h sid srv = Inr (Some (stubGetDHCPServerByID srv ip mac))"
    and "net_NetworkID net = nid"
  shows "fst (dhcp_lease_ip E r server [net] s) = Val (Inr ip) \<longleftrightarrow> snet = nid \<and> mac = net_MacAddress net"
  using assms
  by (auto simp: dhcp_lease_ip_def getNetworkID_def stubGetNetworkWithName_def stubGetDHCPServers_def
      stubGetDHCPServerByID_def client_calls prog_simps)

lemma getLoadBalancers_fixture:
  fixes s :: "'x world_scheme"
  assumes "cl_VPC p = Some vpc" and "e_ListLoadBalancers E (trace s) None = Inr (Some stubGetLoadBalancerCollections)"
    and "0 < e_fuel E"
  shows "getLoadBalancers E p [''test-lb''] s = (Val (Inr [(''test-lb'', \<lparr>opt_id = ''id'',
      opt_pools = [\<lparr>pool_ID = Some ''pool-id'', pool_Name = Some ''pool-name''\<rparr>], opt_state = loadBalancerActiveState\<rparr>)]),
      s\<lparr>trace := trace s @ [CallListLoadBalancers None]\<rparr>)"
proof -
  have "page_chain E (lb_fetch E p) (Suc 0) [] s (LoadBalancers stubGetLoadBalancerCollections)
      (s\<lparr>trace := trace s @ [CallListLoadBalancers None]\<rparr>)"
    by (rule last_page) (simp add: lb_fetch_run assms(1,2) Let_def start_option_def stubGetLoadBalancerCollections_def)
  from getLoadBalancers_run [OF this, of "[''test-lb'']"] assms(3) show ?thesis
    by (simp add: stubGetLoadBalancerCollections_def add_lb_def prog_simps)
qed

text \<open>
  The members of the tests have a port and no target. The IP is registered with port 0 then, not with that of
  the members; the tests accept any request.
\<close>

lemma register_pool_fixture:
  fixes s :: "'x world_scheme"
  assumes "cl_VPC p = Some vpc"
    and "\<forall>h. e_ListPoolMembers E h ''id'' ''pool-id'' = Inr (Some [\<lparr>mem_ID = mid, mem_Port = Some 6443, mem_Target = OtherTarget\<rparr>])"
    and "\<forall>h. e_GetLoadBalancer E h ''id'' = Inr (Some stubGetLoadBalancerResult)"
    and "\<forall>h. e_CreatePoolMember E h ''id'' ''pool-id'' 0 ip = Inr ()"
  shows "register_pool E p ip (lb_options (hd (LoadBalancers stubGetLoadBalancerCollections)))
      \<lparr>pool_ID = Some ''pool-id'', pool_Name = Some ''pool-name''\<rparr> s
    = (Val (Inr ()), s\<lparr>trace := trace s @ [CallListPoolMembers ''id'' ''pool-id'', CallGetLoadBalancer ''id'',
        CallCreatePoolMember ''id'' ''pool-id'' 0 ip]\<rparr>)"
  using assms
  by (simp add: register_pool_def lb_options_def stubGetLoadBalancerCollections_def stubGetLoadBalancerResult_def
      scan_member_def client_calls prog_simps)

text \<open>A VM that is being built makes the operations be tried again after 20 seconds.\<close>

lemma build_fixture:
  "\<exists>t. requeueIfInstanceBuilding E (Some stubInstanceWithBuildState) s = (Val (Inl (RequeueAfterError 20)), t)"
  "requeueIfInstanceBuilding E (Some stubGetInstance) s = (Val (Inr ()), s)"
proof -
  obtain cs t where "setProviderStatus E (Some stubInstanceWithBuildState) conditionBuild s = (Val (), t)"
    using setProviderStatus_run .
  then show "\<exists>t. requeueIfInstanceBuilding E (Some stubInstanceWithBuildState) s = (Val (Inl (RequeueAfterError 20)), t)"
    by (simp add: requeueIfInstanceBuilding_def prog_simps InstanceStateNameBuild_def requeueAfterSeconds_def
        stubInstanceWithBuildState_def)
qed (simp add: requeueIfInstanceBuilding_def prog_simps InstanceStateNameBuild_def stubGetInstance_def)

end
