(* ===== verification/Endpoint_Flow.thy ===== *)
theory Endpoint_Flow
  imports PowerVS_Client Service_Endpoints
begin

text \<open>
  How a custom service endpoint reaches the SDK clients: the endpoint controller copies it from the
  spec of the infrastructure object to its status (\<open>Service_Endpoints\<close>); when a client is built, the
  endpoints of the status are put into the environment variables the SDKs read
  (\<open>getAndSetServiceEndpoints\<close> of \<open>PowerVS_Client\<close>).
\<close>

section \<open>The map of custom endpoints\<close>

text \<open>What the client keeps of the URL of an endpoint: all of it, but of the Power endpoint the host.\<close>

definition endpoint_value :: "env \<Rightarrow> PowerVSServiceEndpoint \<Rightarrow> string option" where
  "endpoint_value E e =
     (if ep_Name e = powerIaaSCustomEndpointName then
        (case url_Parse (e_ip_literal E) (ep_URL e) of Inl _ \<Rightarrow> None | Inr u \<Rightarrow> Some (Host u))
      else Some (ep_URL e))"

lemma customEndpoints_Cons:
  "customEndpoints E (e # es) m = Inr r \<longleftrightarrow>
     (\<exists>v. endpoint_value E e = Some v \<and> customEndpoints E es (AList.update (ep_Name e) v m) = Inr r)"
  by (auto simp: endpoint_value_def split: sum.splits)

lemma customEndpoints_other:
  "customEndpoints E es m = Inr r \<Longrightarrow> k \<notin> ep_Name ` set es \<Longrightarrow> map_of r k = map_of m k"
  by (induction es arbitrary: m) (auto simp: customEndpoints_Cons update_conv' simp del: customEndpoints.simps(2))

lemma customEndpoints_lookup:
  assumes "customEndpoints E es m = Inr r" "distinct (map ep_Name es)" "e \<in> set es"
  shows "map_of r (ep_Name e) = endpoint_value E e \<and> endpoint_value E e \<noteq> None"
  using assms
proof (induction es arbitrary: m)
  case (Cons x xs)
  obtain v where v: "endpoint_value E x = Some v" "customEndpoints E xs (AList.update (ep_Name x) v m) = Inr r"
    using Cons.prems(1) by (auto simp only: customEndpoints_Cons)
  show ?case
  proof (cases "e = x")
    case True
    with Cons.prems(2) customEndpoints_other [OF v(2), of "ep_Name x"] v(1) show ?thesis by (simp add: update_conv')
  next
    case False
    with Cons v(2) show ?thesis by auto
  qed
qed simp

section \<open>Environment variables\<close>

lemma env_names_inj: "map_of endPointKeyToEnvNameMap k = Some n \<Longrightarrow> map_of endPointKeyToEnvNameMap k' = Some n \<Longrightarrow> k = k'"
  by (auto simp: endPointKeyToEnvNameMap_def split: if_splits)

text \<open>Setting the endpoints of a list of keys: each known key that has one gets it, nothing else changes.\<close>

lemma setCustomEndpoints_ok:
  assumes "setCustomEndpoints m keys s = (Val (Inr ()), t)"
  shows "(\<forall>k\<in>set keys. \<forall>n v. map_of endPointKeyToEnvNameMap k = Some n \<and> map_of m k = Some v \<longrightarrow> osenv t n = Some v)
    \<and> (\<forall>n. (\<forall>k\<in>set keys. map_of endPointKeyToEnvNameMap k = Some n \<longrightarrow> map_of m k = None) \<longrightarrow> osenv t n = osenv s n)
    \<and> trace t = trace s"
  using assms unfolding setCustomEndpoints_def
proof (induction keys arbitrary: s)
  case Nil
  then show ?case by (simp add: ok_run)
next
  case (Cons k keys)
  obtain u where step: "(case map_of endPointKeyToEnvNameMap k of None \<Rightarrow> ok ()
        | Some envName \<Rightarrow> (case map_of m k of Some val \<Rightarrow> setEnvironmentVariables envName val | None \<Rightarrow> ok ())) s
        = (Val (Inr ()), u)"
      and rest: "forE (\<lambda>key. case map_of endPointKeyToEnvNameMap key of None \<Rightarrow> ok ()
        | Some envName \<Rightarrow> (case map_of m key of Some val \<Rightarrow> setEnvironmentVariables envName val | None \<Rightarrow> ok ())) keys u
        = (Val (Inr ()), t)"
    using Cons.prems by (auto elim: bndE_okE)
  have u: "trace u = trace s"
      "osenv u = (case map_of endPointKeyToEnvNameMap k of None \<Rightarrow> osenv s
        | Some n \<Rightarrow> (case map_of m k of Some v \<Rightarrow> (osenv s)(n \<mapsto> v) | None \<Rightarrow> osenv s))"
    using step by (auto simp: setEnvironmentVariables_def prog_simps split: option.splits if_splits)
  note IH = Cons.IH [OF rest]
  have first: "osenv t n = Some v" if "map_of endPointKeyToEnvNameMap k = Some n" "map_of m k = Some v" for n v
  proof (cases "k \<in> set keys")
    case True
    with IH that show ?thesis by blast
  next
    case False
    with that(1) have "\<forall>k'\<in>set keys. map_of endPointKeyToEnvNameMap k' = Some n \<longrightarrow> map_of m k' = None"
      using env_names_inj by blast
    with IH u(2) that show ?thesis by simp
  qed
  have other: "osenv t n = osenv s n"
    if "\<forall>k'\<in>set (k # keys). map_of endPointKeyToEnvNameMap k' = Some n \<longrightarrow> map_of m k' = None" for n
    using that IH u(2) by (auto split: option.splits)
  from IH first other u(1) show ?case by auto
qed

lemma resolveEndpoints_run:
  assumes "e_GetInfrastructure E (trace s) ''cluster'' = Inr infra"
  shows "resolveEndpoints E s = (Val (customEndpoints E (existingServices infra) []),
    s\<lparr>trace := trace s @ [KubeGetInfrastructure ''cluster'']\<rparr>)"
  using assms
  by (auto simp: resolveEndpoints_def globalInfrastuctureName_def existingServices_def prog_simps
      split: option.splits sum.splits)

lemma map_of_None_keys: "k \<notin> set (map fst m) \<longleftrightarrow> map_of m k = None"
  by (simp add: map_of_eq_None_iff)

text \<open>What a successful call leaves in the environment: \<open>m\<close> is the map of custom endpoints.\<close>

lemma getAndSet_env:
  assumes "getAndSetServiceEndpoints E s = (Val (Inr ()), t)" and "e_GetInfrastructure E (trace s) ''cluster'' = Inr infra"
  shows "\<exists>m. customEndpoints E (existingServices infra) [] = Inr m
    \<and> (\<forall>k n v. map_of endPointKeyToEnvNameMap k = Some n \<and> map_of m k = Some v \<longrightarrow> osenv t n = Some v)
    \<and> (\<forall>n. (\<forall>k. map_of endPointKeyToEnvNameMap k = Some n \<longrightarrow> map_of m k = None) \<longrightarrow> osenv t n = osenv s n)"
proof -
  let ?u = "s\<lparr>trace := trace s @ [KubeGetInfrastructure ''cluster'']\<rparr>"
  obtain m where m: "customEndpoints E (existingServices infra) [] = Inr m"
      and run: "(if length m > 0 then bnd (getCustomEndPointKeys E m) (setCustomEndpoints m) else ok ()) ?u = (Val (Inr ()), t)"
    using assms(1) resolveEndpoints_run [OF assms(2)]
    by (auto simp: getAndSetServiceEndpoints_def bndE_run split: sum.splits)
  show ?thesis
  proof (cases "m = []")
    case True
    with m run show ?thesis by (auto simp: ok_run)
  next
    case False
    define keys where "keys = map fst (range_order (e_rank E (trace ?u)) m)"
    have keys: "k \<in> set keys \<longleftrightarrow> map_of m k \<noteq> None" for k
      using map_of_None_keys [of k m] by (auto simp: keys_def)
    from run False have "setCustomEndpoints m keys ?u = (Val (Inr ()), t)"
      by (simp add: getCustomEndPointKeys_def bnd_run gets_run keys_def)
    from setCustomEndpoints_ok [OF this] keys m show ?thesis by (intro exI [of _ m]) auto
  qed
qed

text \<open>
  When the endpoints of the status are in place, the three environment variables the SDKs read hold
  the endpoints of the services they are for: the URL, or for Power VS the host in it. A variable for
  whose service the status has no endpoint, and every other variable, keeps its value.
\<close>

lemma getAndSetServiceEndpoints_sets:
  assumes "getAndSetServiceEndpoints E s = (Val (Inr ()), t)" and "e_GetInfrastructure E (trace s) ''cluster'' = Inr infra"
    and "distinct (map ep_Name (existingServices infra))"
  shows "osenv t n = (case List.find (\<lambda>e. map_of endPointKeyToEnvNameMap (ep_Name e) = Some n) (existingServices infra) of
    Some e \<Rightarrow> endpoint_value E e | None \<Rightarrow> osenv s n)"
proof -
  obtain m where m: "customEndpoints E (existingServices infra) [] = Inr m"
      and set: "\<And>k n v. map_of endPointKeyToEnvNameMap k = Some n \<Longrightarrow> map_of m k = Some v \<Longrightarrow> osenv t n = Some v"
      and keep: "\<And>n. (\<And>k. map_of endPointKeyToEnvNameMap k = Some n \<Longrightarrow> map_of m k = None) \<Longrightarrow> osenv t n = osenv s n"
    using getAndSet_env [OF assms(1,2)] by blast
  show ?thesis
  proof (cases "List.find (\<lambda>e. map_of endPointKeyToEnvNameMap (ep_Name e) = Some n) (existingServices infra)")
    case None
    then have "map_of m k = None" if "map_of endPointKeyToEnvNameMap k = Some n" for k
      using that customEndpoints_other [OF m, of k] by (auto simp: find_None_iff)
    with keep None show ?thesis by simp
  next
    case (Some e)
    then have e: "map_of endPointKeyToEnvNameMap (ep_Name e) = Some n" "e \<in> set (existingServices infra)"
      by (auto dest: find_SomeD)
    from customEndpoints_lookup [OF m assms(3) e(2)] set [OF e(1)] Some show ?thesis by auto
  qed
qed

lemma demo_power_url:
  obtains u where "url_Parse Inr ''https://power.example.com/'' = Inr u" "Host u = ''power.example.com''"
proof -
  have "map_sum (\<lambda>_. ()) Host (url_Parse Inr ''https://power.example.com/'') = Inr ''power.example.com''" by code_simp
  with that show thesis by (cases "url_Parse Inr ''https://power.example.com/''") auto
qed

lemma demo_endpoint_value:
  assumes "e_ip_literal E = Inr"
  shows "endpoint_value E \<lparr>ep_Name = ''Power'', ep_URL = ''https://power.example.com/''\<rparr> = Some ''power.example.com''"
proof -
  obtain u where "url_Parse Inr ''https://power.example.com/'' = Inr u" "Host u = ''power.example.com''"
    using demo_power_url .
  with assms show ?thesis by (simp add: endpoint_value_def powerIaaSCustomEndpointName_def)
qed

lemma demo_getAndSet:
  assumes "e_GetInfrastructure E (trace s) ''cluster'' = Inr infra"
    and "existingServices infra \<in> {demo_endpoints, rev demo_endpoints}"
    and "e_ip_literal E = Inr" and "e_rank E = (\<lambda>_. length)"
  shows "\<exists>t. getAndSetServiceEndpoints E s = (Val (Inr ()), t)"
proof -
  obtain u where u: "url_Parse Inr ''https://power.example.com/'' = Inr u" "Host u = ''power.example.com''"
    using demo_power_url .
  have "customEndpoints E (existingServices infra) []
      \<in> {Inr [(''Power'', ''power.example.com''), (''IAM'', ''https://iam.example.com'')],
         Inr [(''IAM'', ''https://iam.example.com''), (''Power'', ''power.example.com'')]}"
    using assms(2,3) u by (auto simp: demo_endpoints_def powerIaaSCustomEndpointName_def)
  then show ?thesis
    using assms(4)
    by (auto simp: getAndSetServiceEndpoints_def bndE_run bnd_run resolveEndpoints_run [OF assms(1)] gets_run
        getCustomEndPointKeys_def range_order_def setCustomEndpoints_def setEnvironmentVariables_def
        endPointKeyToEnvNameMap_def ok_run modify_run)
qed

end
