(* ===== verification/Manager.thy ===== *)
theory Manager
  imports Dhcp_Cache
begin

text \<open>
  \<open>cmd/manager/main.go\<close>: how the process starts, and the two \<open>SetupWithManager\<close> it calls. The libraries
  that are set up (feature gates, schemes, controller-runtime) answer through \<open>setup_env\<close>: \<open>s_answer\<close>
  gives the error of a call, if it fails, and may depend on the calls before; \<open>s_Parse\<close> is what
  \<open>flag.Parse\<close> makes of the declared flags and the command line: their values, or the exit code if it ends the
  process.

  A function that may end the process returns a sum, with the way it ended on the left.
\<close>

section \<open>Definitions\<close>

text \<open>Durations are nanoseconds.\<close>

definition Second :: int where
  "Second = 1000000000"

definition leaseDuration :: int where
  "leaseDuration = 120 * Second"

definition renewDealine :: int where
  "renewDealine = 110 * Second"

definition retryPeriod :: int where
  "retryPeriod = 20 * Second"

definition syncPeriod :: int where
  "syncPeriod = 10 * 60 * Second"

text \<open>
  The flags \<open>main\<close> declares, each with its name and default. The pointer that \<open>flag.Bool\<close>, \<open>flag.String\<close> or
  \<open>flag.Duration\<close> returns stands for the value of the flag of that name, which is the default until
  \<open>flag.Parse\<close> has set it.
\<close>

datatype flag_value = BoolFlag bool | StringFlag string | DurationFlag int

type_synonym flag_set = "(string \<times> flag_value) list"

definition declared_flags :: "string \<Rightarrow> flag_set" where
  "declared_flags DefaultMachineMetricsAddress =
     [(''version'', BoolFlag False),
      (''metrics-bind-address'', StringFlag DefaultMachineMetricsAddress),
      (''namespace'', StringFlag []),
      (''leader-elect-resource-namespace'', StringFlag []),
      (''leader-elect'', BoolFlag False),
      (''leader-elect-lease-duration'', DurationFlag leaseDuration),
      (''health-addr'', StringFlag '':9440''),
      (''debug'', BoolFlag False)]"

definition bool_flag :: "flag_set \<Rightarrow> string \<Rightarrow> bool" where
  "bool_flag fl name = (case map_of fl name of Some (BoolFlag b) \<Rightarrow> b | _ \<Rightarrow> False)"

definition string_flag :: "flag_set \<Rightarrow> string \<Rightarrow> string" where
  "string_flag fl name = (case map_of fl name of Some (StringFlag x) \<Rightarrow> x | _ \<Rightarrow> [])"

definition duration_flag :: "flag_set \<Rightarrow> string \<Rightarrow> int" where
  "duration_flag fl name = (case map_of fl name of Some (DurationFlag d) \<Rightarrow> d | _ \<Rightarrow> 0)"

definition printVersion :: "flag_set \<Rightarrow> bool" where
  "printVersion fl = bool_flag fl ''version''"

definition metricsAddress :: "flag_set \<Rightarrow> string" where
  "metricsAddress fl = string_flag fl ''metrics-bind-address''"

definition watchNamespace :: "flag_set \<Rightarrow> string" where
  "watchNamespace fl = string_flag fl ''namespace''"

definition leaderElectResourceNamespace :: "flag_set \<Rightarrow> string" where
  "leaderElectResourceNamespace fl = string_flag fl ''leader-elect-resource-namespace''"

definition leaderElect :: "flag_set \<Rightarrow> bool" where
  "leaderElect fl = bool_flag fl ''leader-elect''"

definition leaderElectLeaseDuration :: "flag_set \<Rightarrow> int" where
  "leaderElectLeaseDuration fl = duration_flag fl ''leader-elect-lease-duration''"

definition healthAddr :: "flag_set \<Rightarrow> string" where
  "healthAddr fl = string_flag fl ''health-addr''"

definition options_Debug :: "flag_set \<Rightarrow> bool" where
  "options_Debug fl = bool_flag fl ''debug''"

record ctrlOptions =
  SyncPeriod :: int
  DefaultNamespaces :: "string list option"
  LeaderElection :: bool
  LeaderElectionNamespace :: string
  LeaderElectionID :: string
  LeaseDuration :: int
  RenewDeadline :: int
  RetryPeriod :: int
  BindAddress :: string
  HealthProbeBindAddress :: string

datatype library_call =
    NewFeatureGateOptions nat
  | GetConfigOrDie
  | ApplyFeatureGates
  | NewManager ctrlOptions
  | InstallScheme string
  | AddWithActuator int
  | BuildController string
  | AddReadyzCheck string
  | AddHealthzCheck string
  | StartManager

record setup_env =
  s_answer :: "library_call list \<Rightarrow> library_call \<Rightarrow> goerr option"
  s_Parse :: "flag_set \<Rightarrow> nat + flag_set"
  s_DefaultMachineMetricsAddress :: string
  s_majorVersion :: nat
  s_versionString :: string

record setup_world =
  library_calls :: "library_call list"
  stdout :: "string list"
  recorders :: "string list"

text \<open>The process ends by returning from \<open>main\<close>, by \<open>klog.Fatal\<close> (code 255) or by \<open>os.Exit\<close>.\<close>

datatype process_end = Exit nat

type_synonym 'a startup = "setup_world \<Rightarrow> (process_end + 'a) \<times> setup_world"

definition bndX :: "'a startup \<Rightarrow> ('a \<Rightarrow> 'b startup) \<Rightarrow> 'b startup" where
  "bndX m f = (\<lambda>s. case m s of (Inl e, t) \<Rightarrow> (Inl e, t) | (Inr x, t) \<Rightarrow> f x t)"

definition exit_with :: "nat \<Rightarrow> 'a startup" where
  "exit_with code = (\<lambda>s. (Inl (Exit code), s))"

definition returnX :: "'a \<Rightarrow> 'a startup" where
  "returnX x = (\<lambda>s. (Inr x, s))"

definition println :: "string \<Rightarrow> unit startup" where
  "println line = (\<lambda>s. (Inr (), s\<lparr>stdout := stdout s @ [line]\<rparr>))"

text \<open>A call of a library; the caller looks at its error.\<close>

definition call_library :: "setup_env \<Rightarrow> library_call \<Rightarrow> (goerr option) startup" where
  "call_library SE c = (\<lambda>s. (Inr (s_answer SE (library_calls s) c), s\<lparr>library_calls := library_calls s @ [c]\<rparr>))"

text \<open>\<open>if err := c; err != nil { exit }\<close>.\<close>

definition or_exit :: "nat \<Rightarrow> (goerr option) startup \<Rightarrow> unit startup" where
  "or_exit code m = bndX m (\<lambda>err. case err of Some _ \<Rightarrow> exit_with code | None \<Rightarrow> returnX ())"

definition build_controller :: "setup_env \<Rightarrow> string \<Rightarrow> string \<Rightarrow> (goerr option) startup" where
  "build_controller SE for_kind recorder =
     bndX (call_library SE (BuildController for_kind)) (\<lambda>err.
       case err of
         Some e \<Rightarrow> returnX (Some (Errorf_w ''failed setting up with a controller manager: '' e))
       | None \<Rightarrow> (\<lambda>s. (Inr None, s\<lparr>recorders := recorders s @ [recorder]\<rparr>)))"

definition machineset_SetupWithManager :: "setup_env \<Rightarrow> (goerr option) startup" where
  "machineset_SetupWithManager SE = build_controller SE ''MachineSet'' ''machineset-controller''"

definition endpoint_SetupWithManager :: "setup_env \<Rightarrow> (goerr option) startup" where
  "endpoint_SetupWithManager SE = build_controller SE ''Infrastructure'' ''custom-service-endpoint-controller''"

definition ctrl_options :: "flag_set \<Rightarrow> ctrlOptions" where
  "ctrl_options fl =
     \<lparr>SyncPeriod = syncPeriod,
      DefaultNamespaces = (if watchNamespace fl \<noteq> [] then Some [watchNamespace fl] else None),
      LeaderElection = leaderElect fl, LeaderElectionNamespace = leaderElectResourceNamespace fl,
      LeaderElectionID = ''machine-api-provider-powervs-leader'',
      LeaseDuration = leaderElectLeaseDuration fl, RenewDeadline = renewDealine, RetryPeriod = retryPeriod,
      BindAddress = metricsAddress fl, HealthProbeBindAddress = healthAddr fl\<rparr>"

text \<open>
  The part of \<open>main\<close> after the flags are known. \<open>NewActuator\<close> gets the cache, whose time to live is all that is
  kept of its parameters here.
\<close>

definition start_manager :: "setup_env \<Rightarrow> flag_set \<Rightarrow> unit startup" where
  "start_manager SE fl =
     bndX (or_exit 1 (call_library SE GetConfigOrDie)) (\<lambda>_.
     bndX (or_exit 255 (call_library SE ApplyFeatureGates)) (\<lambda>_.
     bndX (or_exit 255 (call_library SE (NewManager (ctrl_options fl)))) (\<lambda>_.
     bndX (or_exit 255 (call_library SE (InstallScheme ''machinev1beta1''))) (\<lambda>_.
     bndX (or_exit 255 (call_library SE (InstallScheme ''configv1''))) (\<lambda>_.
     bndX (or_exit 255 (call_library SE (InstallScheme ''corev1''))) (\<lambda>_.
     bndX (or_exit 255 (call_library SE (AddWithActuator CacheTTL))) (\<lambda>_.
     bndX (or_exit 1 (machineset_SetupWithManager SE)) (\<lambda>_.
     bndX (or_exit 1 (endpoint_SetupWithManager SE)) (\<lambda>_.
     bndX (or_exit 255 (call_library SE (AddReadyzCheck ''ping''))) (\<lambda>_.
     bndX (or_exit 255 (call_library SE (AddHealthzCheck ''ping''))) (\<lambda>_.
       or_exit 255 (call_library SE StartManager))))))))))))"

text \<open>The flag \<open>debug\<close> is read once before the flags are parsed, when it still has its default.\<close>

definition main :: "setup_env \<Rightarrow> unit startup" where
  "main SE =
    (let declared = declared_flags (s_DefaultMachineMetricsAddress SE) in
     bndX (if options_Debug declared
           then println ''WARNING!!! debug has been enabled and it should be used only for development''
           else returnX ()) (\<lambda>_.
     let majorVersion = (if s_majorVersion SE = 0 then 4 else s_majorVersion SE) in
     bndX (or_exit 255 (call_library SE (NewFeatureGateOptions majorVersion))) (\<lambda>_.
     case s_Parse SE declared of
       Inl code \<Rightarrow> exit_with code
     | Inr fl \<Rightarrow>
         if printVersion fl then bndX (println (s_versionString SE)) (\<lambda>_. exit_with 0)
         else start_manager SE fl)))"

section \<open>The flags\<close>

lemmas flag_reads = bool_flag_def string_flag_def duration_flag_def printVersion_def metricsAddress_def watchNamespace_def
  leaderElectResourceNamespace_def leaderElect_def leaderElectLeaseDuration_def healthAddr_def options_Debug_def

text \<open>Declaring a name a second time panics; no flag is declared twice.\<close>

lemma declared_flags_distinct: "distinct (map fst (declared_flags addr))"
  by (simp add: declared_flags_def)

lemma default_debug: "\<not> options_Debug (declared_flags addr)"
  by (simp add: flag_reads declared_flags_def)

section \<open>The order of the start\<close>

text \<open>The calls of a complete start, in order.\<close>

definition startup_calls :: "setup_env \<Rightarrow> flag_set \<Rightarrow> library_call list" where
  "startup_calls SE fl =
     [NewFeatureGateOptions (if s_majorVersion SE = 0 then 4 else s_majorVersion SE), GetConfigOrDie, ApplyFeatureGates,
      NewManager (ctrl_options fl), InstallScheme ''machinev1beta1'', InstallScheme ''configv1'', InstallScheme ''corev1'',
      AddWithActuator CacheTTL, BuildController ''MachineSet'', BuildController ''Infrastructure'',
      AddReadyzCheck ''ping'', AddHealthzCheck ''ping'', StartManager]"

text \<open>
  Each step makes its call and goes on exactly if the call does not fail. The table lists the steps
  after the flags were parsed, with the code the process ends with if the step fails.
\<close>

definition step :: "setup_env \<Rightarrow> nat \<times> library_call \<Rightarrow> setup_world \<Rightarrow> (process_end + unit) \<times> setup_world" where
  "step SE = (\<lambda>(code, c) s.
     let t = s\<lparr>library_calls := library_calls s @ [c]\<rparr> in
     case s_answer SE (library_calls s) c of
       Some _ \<Rightarrow> (Inl (Exit code), t)
     | None \<Rightarrow> (Inr (), case c of
         BuildController kind \<Rightarrow> t\<lparr>recorders := recorders t @ [if kind = ''MachineSet'' then ''machineset-controller''
           else ''custom-service-endpoint-controller'']\<rparr>
       | _ \<Rightarrow> t))"

fun steps :: "setup_env \<Rightarrow> (nat \<times> library_call) list \<Rightarrow> setup_world \<Rightarrow> (process_end + unit) \<times> setup_world" where
  "steps SE [] s = (Inr (), s)"
| "steps SE (c # cs) s = (case step SE c s of (Inl e, t) \<Rightarrow> (Inl e, t) | (Inr _, t) \<Rightarrow> steps SE cs t)"

definition exit_codes :: "nat list" where
  "exit_codes = [255, 1, 255, 255, 255, 255, 255, 255, 1, 1, 255, 255, 255]"

lemma or_exit_step:
  "(\<forall>kind. c \<noteq> BuildController kind) \<Longrightarrow> or_exit code (call_library SE c) s = step SE (code, c) s"
  "or_exit code (machineset_SetupWithManager SE) s = step SE (code, BuildController ''MachineSet'') s"
  "or_exit code (endpoint_SetupWithManager SE) s = step SE (code, BuildController ''Infrastructure'') s"
  by (auto simp: or_exit_def bndX_def call_library_def step_def exit_with_def returnX_def Let_def
      machineset_SetupWithManager_def endpoint_SetupWithManager_def build_controller_def
      split: option.split library_call.split)

lemma bndX_step: "m s = step SE c s \<Longrightarrow> (\<And>t. f () t = steps SE cs t) \<Longrightarrow> bndX m f s = steps SE (c # cs) s"
  by (auto simp: bndX_def split: prod.split sum.split)

lemma start_manager_steps:
  "start_manager SE fl s = steps SE (tl (zip exit_codes (startup_calls SE fl))) s"
proof -
  have last: "or_exit 255 (call_library SE StartManager) t = steps SE [(255, StartManager)] t" for t
    by (auto simp: or_exit_step split: prod.split sum.split)
  show ?thesis
    unfolding start_manager_def exit_codes_def startup_calls_def zip_Cons_Cons list.sel zip_Nil
    by (intro bndX_step or_exit_step last) simp_all
qed

lemma main_steps:
  "main SE s = (case step SE (255, hd (startup_calls SE fl)) s of
     (Inl e, t) \<Rightarrow> (Inl e, t)
   | (Inr _, t) \<Rightarrow> (case s_Parse SE (declared_flags (s_DefaultMachineMetricsAddress SE)) of
       Inl code \<Rightarrow> (Inl (Exit code), t)
     | Inr fl' \<Rightarrow> if printVersion fl' then (Inl (Exit 0), t\<lparr>stdout := stdout t @ [s_versionString SE]\<rparr>)
         else steps SE (tl (zip exit_codes (startup_calls SE fl'))) t))"
proof -
  have "bndX (returnX ()) f = f ()" for f :: "unit \<Rightarrow> unit startup"
    by (simp add: bndX_def returnX_def)
  then show ?thesis
    by (auto simp: main_def default_debug Let_def startup_calls_def bndX_def or_exit_step start_manager_steps
        exit_with_def println_def split: prod.split sum.split)
qed

text \<open>How many calls of a list succeed before the first that fails.\<close>

fun successes :: "setup_env \<Rightarrow> library_call list \<Rightarrow> library_call list \<Rightarrow> nat" where
  "successes SE h [] = 0"
| "successes SE h (c # cs) = (if s_answer SE h c = None then Suc (successes SE (h @ [c]) cs) else 0)"

lemma step_run:
  "fst (step SE (code, c) s) = (if s_answer SE (library_calls s) c = None then Inr () else Inl (Exit code))"
  "library_calls (snd (step SE (code, c) s)) = library_calls s @ [c]"
  "stdout (snd (step SE (code, c) s)) = stdout s"
  by (auto simp: step_def Let_def split: option.split library_call.split)

lemma steps_run:
  assumes "length codes = length cs"
  shows "let n = successes SE (library_calls s) cs in
    fst (steps SE (zip codes cs) s) = (if n = length cs then Inr () else Inl (Exit (codes ! n)))
    \<and> library_calls (snd (steps SE (zip codes cs) s)) = library_calls s @ take (Suc n) cs
    \<and> stdout (snd (steps SE (zip codes cs) s)) = stdout s"
  using assms
proof (induction codes cs arbitrary: s rule: list_induct2)
  case (Cons code codes c cs)
  obtain r t where st: "step SE (code, c) s = (r, t)" by (cases "step SE (code, c) s")
  with step_run [of SE code c s] have t: "library_calls t = library_calls s @ [c]" "stdout t = stdout s"
      "r = (if s_answer SE (library_calls s) c = None then Inr () else Inl (Exit code))" by simp_all
  with st Cons.IH [of t] show ?case by (auto simp: Let_def)
qed (simp add: Let_def)

lemma exit_code_of:
  "n < 13 \<Longrightarrow> exit_codes ! n = (if startup_calls SE fl ! n \<in> {GetConfigOrDie, BuildController ''MachineSet'',
     BuildController ''Infrastructure''} then 1 else 255)"
  by (auto simp: exit_codes_def startup_calls_def nth_Cons' split: if_splits)

text \<open>
  C22. The process starts in order or not at all: it makes the calls of a complete start one after the
  other and stops at the first that fails, with a code that is not 0; it returns from \<open>main\<close> exactly
  when all have succeeded. So the manager is started only after the feature gates, the schemes, the
  actuator, both controllers and both health checks are in place.
\<close>

theorem main_starts_in_order:
  assumes "s_Parse SE (declared_flags (s_DefaultMachineMetricsAddress SE)) = Inr fl" and "\<not> printVersion fl" and "library_calls s = []" and "main SE s = (r, t)"
  shows "let calls = startup_calls SE fl; n = successes SE [] calls in
    library_calls t = take (Suc n) calls
    \<and> r = (if n = length calls then Inr ()
           else Inl (Exit (if calls ! n \<in> {GetConfigOrDie, BuildController ''MachineSet'', BuildController ''Infrastructure''}
                          then 1 else 255)))"
proof -
  define calls where "calls = startup_calls SE fl"
  define n where "n = successes SE [] calls"
  have cons: "zip exit_codes calls = (255, hd calls) # tl (zip exit_codes calls)" and len: "length calls = 13" "length exit_codes = 13"
    by (simp_all add: calls_def startup_calls_def exit_codes_def)
  have "main SE s = steps SE (zip exit_codes calls) s"
    using assms(1,2) by (subst cons, subst main_steps [of SE s fl]) (simp add: calls_def split: prod.split sum.split)
  with steps_run [of exit_codes calls SE s] assms(3,4) len
  have "library_calls t = take (Suc n) calls" "r = (if n = length calls then Inr () else Inl (Exit (exit_codes ! n)))"
    by (simp_all add: Let_def n_def)
  moreover have "n \<le> length calls"
  proof -
    have "successes SE h cs \<le> length cs" for h cs by (induction SE h cs rule: successes.induct) simp_all
    then show ?thesis by (simp add: n_def)
  qed
  ultimately show ?thesis
    using exit_code_of [of n SE fl] len unfolding Let_def calls_def [symmetric] n_def [symmetric] by auto
qed

text \<open>A command line that names the namespace, asks for leader election and switches debugging on.\<close>

definition demo_flags :: "flag_set \<Rightarrow> flag_set" where
  "demo_flags declared = map (\<lambda>(n, v). (n, if n = ''namespace'' then StringFlag ''openshift-machine-api''
     else if n \<in> {''leader-elect'', ''debug''} then BoolFlag True else v)) declared"

definition demo_setup :: setup_env where
  "demo_setup = \<lparr>s_answer = \<lambda>_ c. if c = BuildController ''MachineSet'' then Some (PlainError ''no'') else None,
     s_Parse = \<lambda>declared. Inr (demo_flags declared), s_DefaultMachineMetricsAddress = '':8081'', s_majorVersion = 0, s_versionString = ''v''\<rparr>"

definition demo_start :: setup_world where
  "demo_start = \<lparr>library_calls = [], stdout = [], recorders = []\<rparr>"

theorem main_starts_in_order_witness:
  "\<exists>t. main demo_setup demo_start = (Inl (Exit 1), t) \<and> StartManager \<notin> set (library_calls t)
     \<and> length (library_calls t) = 9"
proof -
  obtain r t where run: "main demo_setup demo_start = (r, t)" by (cases "main demo_setup demo_start")
  let ?fl = "demo_flags (declared_flags '':8081'')"
  have "s_Parse demo_setup (declared_flags (s_DefaultMachineMetricsAddress demo_setup)) = Inr ?fl" "\<not> printVersion ?fl"
      "library_calls demo_start = []"
    by (simp_all add: demo_setup_def demo_flags_def demo_start_def declared_flags_def flag_reads)
  moreover have "successes demo_setup [] (startup_calls demo_setup ?fl) = 8"
    by (simp add: startup_calls_def demo_setup_def)
  ultimately show ?thesis
    using main_starts_in_order [of demo_setup ?fl demo_start r t] run
    by (simp add: Let_def startup_calls_def)
qed

text \<open>The warning about the flag \<open>debug\<close> is never printed, whatever the flags say.\<close>

lemma main_never_warns:
  assumes "main SE s = (r, t)"
  shows "stdout t \<in> {stdout s, stdout s @ [s_versionString SE]}"
proof -
  define fl where "fl = declared_flags []"
  obtain r1 u where st: "step SE (255, hd (startup_calls SE fl)) s = (r1, u)"
    by (cases "step SE (255, hd (startup_calls SE fl)) s")
  then have u: "stdout u = stdout s" using step_run(3) [of SE 255 "hd (startup_calls SE fl)" s] by simp
  have tl: "tl (zip exit_codes (startup_calls SE fl')) = zip (tl exit_codes) (tl (startup_calls SE fl'))" for fl'
    by (simp add: exit_codes_def startup_calls_def)
  have "stdout (snd (steps SE (tl (zip exit_codes (startup_calls SE fl'))) u)) = stdout u" for fl'
    unfolding tl using steps_run [of "tl exit_codes" "tl (startup_calls SE fl')" SE u]
    by (simp add: Let_def exit_codes_def startup_calls_def)
  with assms u st show ?thesis
    unfolding main_steps [of SE s fl] by (auto split: sum.splits if_splits) (metis snd_conv)+
qed

text \<open>
  The defaults satisfy what leader election asks of its periods: the lease outlives the time in which
  it has to be renewed, which leaves room for a retry.
\<close>

lemma default_leader_election:
  assumes "leaderElectLeaseDuration fl = leaderElectLeaseDuration (declared_flags addr)"
  shows "RetryPeriod (ctrl_options fl) < RenewDeadline (ctrl_options fl)
    \<and> RenewDeadline (ctrl_options fl) < LeaseDuration (ctrl_options fl)"
  using assms
  by (simp add: ctrl_options_def declared_flags_def flag_reads leaseDuration_def renewDealine_def retryPeriod_def Second_def)

end
