(* ===== verification/Spec2Isabelle.thy ===== *)
theory Spec2Isabelle
  imports Consistent_Cloud Stubs Endpoint_Flow Manager
begin

text \<open>
  Verification of the OpenShift Machine API provider for IBM Power VS.

  \<^bold>\<open>The program.\<close> The provider turns \<open>Machine\<close> objects of a cluster into virtual machines in IBM Power VS.
  The machine controller of the machine API operator calls the four operations of the actuator
  (\<open>pkg/actuators/machine/actuator.go\<close>). Each builds a scope for the machine (\<open>machine_scope.go\<close>):
  it decodes the provider spec and status, finds the service instance and builds a client of the cloud
  (\<open>pkg/client/powervs_client.go\<close>). The reconciler (\<open>reconciler.go\<close>) then creates, deletes, updates
  or looks for the VM (\<open>instances.go\<close>), keeps the IP addresses of DHCP networks in a cache
  (\<open>caching.go\<close>), registers them with load balancers, and records conditions in the provider status
  (\<open>utils.go\<close>). The scope finally patches the machine. Two further controllers run beside it: one
  annotates machine sets with the capacity of their machines
  (\<open>pkg/actuators/machineset/controller.go\<close>), one checks the custom service endpoints of the cluster
  and publishes them (\<open>pkg/controllers/custom_service_endpoint_controller.go\<close>); the clients read them
  back from where it puts them.

  \<^bold>\<open>The theories\<close>, in the order of their imports:

    \<^item> \<open>Prelude\<close>: programs with state, errors and panics, and how to reason about them. The locale
      \<open>transition_inv\<close> carries every statement about what a program may change.
    \<^item> \<open>Go_Strings\<close>, \<open>Go_Url\<close>, \<open>Go_Float\<close>: what the program uses of Go's standard library.
    \<^item> \<open>World\<close>: the objects of the cloud and of Kubernetes, the calls, and the environment \<open>env\<close> that
      answers them. The locale \<open>world_inv\<close> extends \<open>transition_inv\<close> with the calls.
    \<^item> \<open>Paging\<close> (\<open>pkg/utils/utils.go\<close>): \<open>PagingHelper\<close>, with the locale \<open>page_source\<close> for its clients.
    \<^item> \<open>PowerVS_Client\<close> (\<open>pkg/client/powervs_client.go\<close>): credentials, endpoints, building clients, the
      listings and the delegating methods.
    \<^item> \<open>Conditions\<close> (\<open>pkg/actuators/machine/utils.go\<close>): conditions as a map from types, with the locale
      \<open>condition_store\<close>; labels; decoding and encoding provider spec and status.
    \<^item> \<open>Dhcp_Cache\<close> (\<open>caching.go\<close>, and the vendored \<open>ExpirationCache\<close>): the locale \<open>ttl_store\<close>.
    \<^item> \<open>Instances\<close> (\<open>instances.go\<close>): launching, removing stopped machines, resolving references, with
      the locale \<open>named_resource\<close> for images and networks.
    \<^item> \<open>Machine_Scope\<close> (\<open>machine_scope.go\<close>, \<open>pkg/options/options.go\<close>): scopes and patching.
    \<^item> \<open>Load_Balancers\<close> and \<open>Reconciler\<close> (\<open>reconciler.go\<close>): registration with load balancers; create,
      delete, update, exists and their steps.
    \<^item> \<open>Actuator\<close> (\<open>actuator.go\<close>): the operations of the actuator, with the locale \<open>machine_action\<close> for
      the shape that creating, updating and deleting share.
    \<^item> \<open>Machine_Set\<close> (\<open>machineset/controller.go\<close>) and \<open>Service_Endpoints\<close>
      (\<open>custom_service_endpoint_controller.go\<close>): the two other controllers.
    \<^item> \<open>Lifecycle\<close>: whole runs. \<open>perform\<close> is one operation of a controller or a restart, \<open>reachable\<close> the
      states runs lead to, and the locale \<open>run_invariant\<close> gives an invariant of runs from what the parts of
      the operations keep.
    \<^item> \<open>Fleet\<close>: the specification of what operations may do to the VMs that exist and which requests for VMs
      they may send, and its refinement.
    \<^item> \<open>Consistent_Cloud\<close>: progress of the reconciler against a cloud that keeps its word.
    \<^item> \<open>Stubs\<close> (\<open>pkg/actuators/machine/stubs.go\<close>): the objects of the unit tests, and what the tests expect.
    \<^item> \<open>Manager\<close> (\<open>cmd/manager/main.go\<close>, and \<open>SetupWithManager\<close> of the two controllers): how the process
      starts, with its own state, the calls of the libraries it sets up.
    \<^item> \<open>Endpoint_Flow\<close> and this theory: how an endpoint travels from the spec to the clients.

  \<^bold>\<open>State and effects.\<close> A Go function with effects is a function from a state to an outcome and a new
  state. The state records every call to the outside in order (\<open>trace\<close>), the environment variables,
  the DHCP cache, the machine under reconciliation, which the code changes in place, and its provider
  status. A result \<open>(T, error)\<close> is a sum; reading through a nil pointer is the outcome \<open>Panic\<close>. Code
  that is not in this repository answers through \<open>env\<close>, whose functions see all earlier calls; no
  theorem assumes more of them than it states. Machine integers are words; Go's maps are association
  lists where the order of a \<open>range\<close> loop matters, and the order is then a parameter.

  \<^bold>\<open>Fuel.\<close> One loop of the program may run for ever, that of \<open>PagingHelper\<close>. It gets the fuel \<open>e_fuel\<close> of
  the environment and ends in \<open>OutOfFuel\<close> without it. The theorem about the lookup of load balancers says
  that a result is returned exactly when the chain of pages ends within the fuel; the lookup of a service
  instance needs fuel for one page, and its divergence with a second page is proved for every fuel. Every
  other function is total.

  \<^bold>\<open>What is proved.\<close>

    \<^item> Of whole runs, through failures, panics and restarts: an IP from the cache is that of a recent lease of
      that VM; nothing is deleted that was not read; the requests are bounded by the operations; and every
      operation sends requests for VMs and changes them only as the specification of the fleet allows. Against
      a consistent cloud, deleting succeeds and takes away a VM of the machine unless the load balancers
      stand in the way, and what was created is found.
    \<^item> Of the reconciler: a VM is deleted only after it was taken out of the load balancers; one call
      creates at most one VM; exactly which stopped VM creating removes (never that of a machine whose node is
      known as a master, but also that of a master without a node reference); what success of update and
      delete means; what the answers of exists mean; where addresses come from.
    \<^item> Of the load balancers: registration, in every pool but the bootstrap pool, and deregistration are
      complete and registration is idempotent; names are looked up completely.
    \<^item> Of the actuator: looking changes nothing, updating only registers; every failure is reported once and
      keeps its kind, unless patching fails; once its scope is built the machine is patched, unless its
      status cannot be encoded; an update that changed nothing records no event.
    \<^item> Of scopes, conditions and cache: a scope is complete; a patch carries the computed status; the
      condition list refines a map; a cached IP lives for 20 minutes.
    \<^item> Of the client: lookups, the round trip of provider IDs, and the paging defects that modelling
      showed.
    \<^item> Of the controllers: which annotations a machine set gets and which errors are retried; which
      endpoints are accepted, that they are published sorted and complete, that publishing settles, and
      that a published endpoint reaches the clients.
    \<^item> Of the process: it starts in order or not at all.

  \<^bold>\<open>Not modelled.\<close> How \<open>flag.Parse\<close> reads the command line, and what controller-runtime does once the
  manager runs; \<open>NewActuator\<close>, which stores its parameters; \<open>pkg/client/client.go\<close>, the interface whose
  methods are those of the client; the generated mock; \<open>pkg/version\<close> and \<open>tools.go\<close>; operations that
  overlap in time (\<open>Lifecycle\<close> says why they may be taken one after the other). Logging is left out throughout. JSON, regular expressions, JSON web tokens, IP literals in URLs and the region tables
  of the SDK are functions of \<open>env\<close>. Bytes above 127 are copied unchanged by the functions that Go
  defines on Unicode text.
\<close>

section \<open>From the spec to the clients\<close>

text \<open>
  C18. An endpoint in the spec of the infrastructure object reaches the SDK clients: once the endpoint
  controller has reconciled without an error, and as long as the API server answers with what was last
  written, building a client sets the environment variable of each service that has an endpoint in the
  spec to that endpoint (the host of it, for Power VS).
\<close>

theorem published_endpoints_reach_clients:
  assumes "Service_Endpoints.Reconcile E s = (Val (Inr ()), t)" and "trace t = trace s @ tr"
    and "e_GetInfrastructure E (trace s) ''cluster'' = Inr infra"
    and "infra_Spec_PowerVS infra = Some es" and "e \<in> set es"
    and "e_GetInfrastructure E (trace t) ''cluster'' = Inr (last_update infra tr)"
    and "map_of endPointKeyToEnvNameMap (ep_Name e) = Some n"
    and "getAndSetServiceEndpoints E t = (Val (Inr ()), u)"
  shows "osenv u n = endpoint_value E e \<and> endpoint_value E e \<noteq> None"
proof -
  have valid: "distinct (map ep_Name es)" and status: "existingServices (last_update infra tr) = sort_key ep_Name es"
    using reconciled_status [OF assms(1-4)] assms(5) by (cases es; simp)+
  then have dist: "distinct (map ep_Name (existingServices (last_update infra tr)))"
    and e: "e \<in> set (existingServices (last_update infra tr))"
    using assms(5) by (simp_all add: distinct_map)
  obtain m where m: "customEndpoints E (existingServices (last_update infra tr)) [] = Inr m"
      and env: "\<And>k n v. map_of endPointKeyToEnvNameMap k = Some n \<Longrightarrow> map_of m k = Some v \<Longrightarrow> osenv u n = Some v"
    using getAndSet_env [OF assms(8,6)] by blast
  from customEndpoints_lookup [OF m dist e] env [OF assms(7)] show ?thesis by auto
qed

theorem published_endpoints_reach_clients_witness:
  "\<exists>t u. Service_Endpoints.Reconcile demo_infra_env demo_infra_world = (Val (Inr ()), t)
     \<and> getAndSetServiceEndpoints demo_infra_env t = (Val (Inr ()), u)
     \<and> osenv u ''IBMCLOUD_POWER_API_ENDPOINT'' = Some ''power.example.com''"
proof -
  let ?infra = "with_services (sort_key ep_Name demo_endpoints) demo_infra"
  let ?tr = "[KubeGetInfrastructure ''cluster'', KubeUpdateInfrastructureStatus ?infra]"
  obtain t where run: "Service_Endpoints.Reconcile demo_infra_env demo_infra_world = (Val (Inr ()), t)"
      and tr: "trace t = trace demo_infra_world @ ?tr"
    using demo_reconcile by blast
  have get: "e_GetInfrastructure demo_infra_env (trace t) ''cluster'' = Inr (last_update demo_infra ?tr)"
    using tr by (simp add: demo_infra_env_def demo_infra_world_def)
  have lit: "e_ip_literal demo_infra_env = Inr" and rank: "e_rank demo_infra_env = (\<lambda>_. length)"
    by (simp_all add: demo_infra_env_def base_env_def)
  have "sort_key ep_Name demo_endpoints \<in> {demo_endpoints, rev demo_endpoints}"
    by (simp add: demo_endpoints_def)
  then obtain u where set: "getAndSetServiceEndpoints demo_infra_env t = (Val (Inr ()), u)"
    using demo_getAndSet [OF get _ lit rank] by auto
  have "\<lparr>ep_Name = ''Power'', ep_URL = ''https://power.example.com/''\<rparr> \<in> set demo_endpoints"
    and "map_of endPointKeyToEnvNameMap ''Power'' = Some ''IBMCLOUD_POWER_API_ENDPOINT''"
    by (simp_all add: demo_endpoints_def endPointKeyToEnvNameMap_def)
  with published_endpoints_reach_clients [OF run tr demo_infra_facts(1,2) _ get _ set] demo_endpoint_value [OF lit] run set
  show ?thesis by fastforce
qed

end
